theory Spec2Isabelle
  imports Main "HOL-Library.Word"
begin

unbundle bit_operations_syntax

section \<open>Machine integers and addresses\<close>

type_synonym u8 = "8 word"
type_synonym u16 = "16 word"
type_synonym u32 = "32 word"

text \<open>
  \<^verbatim>\<open>struct Ip6Addr { uint32_t addr[4]; Ip6Zone zone; }\<close> of \<^verbatim>\<open>ip6_addr.h\<close>.
  The four words are kept in network byte order, as the code keeps them.
\<close>

record Ip6Addr =
  addr0 :: u32
  addr1 :: u32
  addr2 :: u32
  addr3 :: u32
  zone :: u8

definition IP6_NO_ZONE :: u8 where
  "IP6_NO_ZONE = 0"

datatype Ip6ScopeTypes = IP6_UNKNOWN | IP6_UNICAST | IP6_MULTICAST

text \<open>
  \<^verbatim>\<open>pp_htonl\<close> is not among the available sources; the stack stores addresses in
  network byte order and the masks below are applied to the first word read most
  significant byte first, so the model keeps \<open>addr0\<close> as the big-endian value and
  \<^verbatim>\<open>pp_htonl\<close> is the identity on it.
\<close>

definition ip6_addr_has_zone :: "Ip6Addr \<Rightarrow> bool" where
  "ip6_addr_has_zone a = (zone a \<noteq> IP6_NO_ZONE)"

definition ip6_addr_islinklocal :: "Ip6Addr \<Rightarrow> bool" where
  "ip6_addr_islinklocal a = (addr0 a AND 0xffc00000 = 0xfe800000)"

definition ip6_addr_ismulticast_iflocal :: "Ip6Addr \<Rightarrow> bool" where
  "ip6_addr_ismulticast_iflocal a = (addr0 a AND 0xff8f0000 = 0xff010000)"

definition ip6_addr_ismulticast_linklocal :: "Ip6Addr \<Rightarrow> bool" where
  "ip6_addr_ismulticast_linklocal a = (addr0 a AND 0xff8f0000 = 0xff020000)"

definition ip6_addr_has_scope :: "Ip6Addr \<Rightarrow> Ip6ScopeTypes \<Rightarrow> bool" where
  "ip6_addr_has_scope a ty =
     (ip6_addr_islinklocal a \<or>
      (ty \<noteq> IP6_UNICAST \<and>
       (ip6_addr_ismulticast_iflocal a \<or> ip6_addr_ismulticast_linklocal a)))"

definition ip6_addr_lacks_zone :: "Ip6Addr \<Rightarrow> Ip6ScopeTypes \<Rightarrow> bool" where
  "ip6_addr_lacks_zone a ty = (\<not> ip6_addr_has_zone a \<and> ip6_addr_has_scope a ty)"

definition ip6_addr_cmp_zoneless :: "Ip6Addr \<Rightarrow> Ip6Addr \<Rightarrow> bool" where
  "ip6_addr_cmp_zoneless a b =
     (addr0 a = addr0 b \<and> addr1 a = addr1 b \<and> addr2 a = addr2 b \<and> addr3 a = addr3 b)"

definition ip6_addr_cmp_zone :: "Ip6Addr \<Rightarrow> Ip6Addr \<Rightarrow> bool" where
  "ip6_addr_cmp_zone a b = (zone a = zone b)"

definition ip6_addr_cmp :: "Ip6Addr \<Rightarrow> Ip6Addr \<Rightarrow> bool" where
  "ip6_addr_cmp a b = (ip6_addr_cmp_zoneless a b \<and> ip6_addr_cmp_zone a b)"

definition ip6_addr_isany_val :: "Ip6Addr \<Rightarrow> bool" where
  "ip6_addr_isany_val a = (addr0 a = 0 \<and> addr1 a = 0 \<and> addr2 a = 0 \<and> addr3 a = 0)"

definition is_ip6_addr_any :: "Ip6Addr \<Rightarrow> bool" where
  "is_ip6_addr_any a = ip6_addr_isany_val a"

definition ip6_addr_ismulticast :: "Ip6Addr \<Rightarrow> bool" where
  "ip6_addr_ismulticast a = (addr0 a AND 0xff000000 = 0xff000000)"

text \<open>
  Modelled from the spec: \<^verbatim>\<open>ip6_addr_select_zone\<close> is declared outside the available
  sources. Its documentation in \<^verbatim>\<open>ip6_addr.h\<close> says that it selects and sets a zone
  for \<open>dest\<close> and that, when no zone can be selected, the zone field is left as it is.
  The selection itself (a route lookup) is the parameter \<open>sel\<close>.
\<close>

definition ip6_addr_select_zone ::
  "(Ip6Addr \<Rightarrow> Ip6Addr \<Rightarrow> u8 option) \<Rightarrow> Ip6Addr \<Rightarrow> Ip6Addr \<Rightarrow> Ip6Addr" where
  "ip6_addr_select_zone sel dest src =
     (case sel dest src of None \<Rightarrow> dest | Some z \<Rightarrow> dest\<lparr>zone := z\<rparr>)"

text \<open>
  Modelled from the spec: \<^verbatim>\<open>ip_addr.h\<close> and \<^verbatim>\<open>ip4_addr.h\<close> are not among the
  available sources. The spec describes the address as a union of IPv4 and IPv6 behind a
  type tag, with the dual-stack "any type" marker as a third variant; an IPv4 address is
  one 32-bit word in network byte order.
\<close>

datatype IpAddr = IpV4 u32 | IpV6 Ip6Addr | IpAnyType

definition IP4_ADDR_BCAST :: u32 where
  "IP4_ADDR_BCAST = 0xffffffff"

definition ip4_addr_isany :: "u32 \<Rightarrow> bool" where
  "ip4_addr_isany a = (a = 0)"

definition ip4_addr_cmp :: "u32 \<Rightarrow> u32 \<Rightarrow> bool" where
  "ip4_addr_cmp a b = (a = b)"

definition ip4_addr_netcmp :: "u32 \<Rightarrow> u32 \<Rightarrow> u32 \<Rightarrow> bool" where
  "ip4_addr_netcmp a b netmask = (a AND netmask = b AND netmask)"

definition ip4_addr_ismulticast :: "u32 \<Rightarrow> bool" where
  "ip4_addr_ismulticast a = (a AND 0xf0000000 = 0xe0000000)"

definition IpIsV6 :: "IpAddr \<Rightarrow> bool" where
  "IpIsV6 a = (case a of IpV6 _ \<Rightarrow> True | _ \<Rightarrow> False)"

definition IpIsV4 :: "IpAddr \<Rightarrow> bool" where
  "IpIsV4 a = (case a of IpV4 _ \<Rightarrow> True | _ \<Rightarrow> False)"

definition IpIsAnyType :: "IpAddr \<Rightarrow> bool" where
  "IpIsAnyType a = (case a of IpAnyType \<Rightarrow> True | _ \<Rightarrow> False)"

text \<open>The IPv4 view of an address (the "any type" marker carries the all-zero address).\<close>

definition convert_ip_addr_to_ip4_addr :: "IpAddr \<Rightarrow> u32" where
  "convert_ip_addr_to_ip4_addr a = (case a of IpV4 x \<Rightarrow> x | _ \<Rightarrow> 0)"

definition is_ip_addr_any :: "IpAddr \<Rightarrow> bool" where
  "is_ip_addr_any a =
     (case a of IpV6 x \<Rightarrow> is_ip6_addr_any x | IpV4 x \<Rightarrow> ip4_addr_isany x | IpAnyType \<Rightarrow> True)"

definition compare_ip_addr :: "IpAddr \<Rightarrow> IpAddr \<Rightarrow> bool" where
  "compare_ip_addr a b =
     (case (a, b) of
        (IpV6 x, IpV6 y) \<Rightarrow> ip6_addr_cmp x y
      | (IpV4 x, IpV4 y) \<Rightarrow> ip4_addr_cmp x y
      | (IpAnyType, IpAnyType) \<Rightarrow> True
      | _ \<Rightarrow> False)"

definition ip_addr_ismulticast :: "IpAddr \<Rightarrow> bool" where
  "ip_addr_ismulticast a =
     (case a of IpV6 x \<Rightarrow> ip6_addr_ismulticast x
              | IpV4 x \<Rightarrow> ip4_addr_ismulticast x
              | IpAnyType \<Rightarrow> False)"

section \<open>UDP endpoints (udp.cpp)\<close>

datatype LwipStatus = ERR_OK | ERR_MEM | ERR_RTE | ERR_VAL | ERR_USE | ERR_ARG

text \<open>
  Modelled from the spec: \<^verbatim>\<open>udp.h\<close> and \<^verbatim>\<open>ip.h\<close> are not among the available sources. The endpoint
  has the fields the spec lists (local and remote identity, bound interface index, TTLs,
  option flags, receive callback with its argument); the flag bits are the constants the
  code tests by name. The \<open>next\<close> pointer is the order of the endpoint list below.
\<close>

type_synonym pcb_ptr = nat

record UdpPcb =
  local_ip :: IpAddr
  remote_ip :: IpAddr
  netif_idx :: u8
  so_options :: u8
  tos :: u8
  ttl :: u8
  flags :: u8
  local_port :: u16
  remote_port :: u16
  mcast_ifindex :: u8
  mcast_ttl :: u8
  chksum_len_tx :: u16
  recv :: "nat option"
  recv_arg :: nat

definition SOF_REUSEADDR :: u8 where "SOF_REUSEADDR = 0x04"
definition SOF_BROADCAST :: u8 where "SOF_BROADCAST = 0x20"
definition UDP_FLAGS_NOCHKSUM :: u8 where "UDP_FLAGS_NOCHKSUM = 0x01"
definition UDP_FLAGS_UDPLITE :: u8 where "UDP_FLAGS_UDPLITE = 0x02"
definition UDP_FLAGS_CONNECTED :: u8 where "UDP_FLAGS_CONNECTED = 0x04"
definition UDP_FLAGS_MULTICAST_LOOP :: u8 where "UDP_FLAGS_MULTICAST_LOOP = 0x08"
definition NETIF_NO_INDEX :: u8 where "NETIF_NO_INDEX = 0"
definition UDP_HLEN :: u16 where "UDP_HLEN = 8"

definition ip_get_option :: "UdpPcb \<Rightarrow> u8 \<Rightarrow> bool" where
  "ip_get_option pcb opt = (so_options pcb AND opt \<noteq> 0)"

definition UDP_LOCAL_PORT_RANGE_START :: u16 where
  "UDP_LOCAL_PORT_RANGE_START = 0xc000"

definition UDP_LOCAL_PORT_RANGE_END :: u16 where
  "UDP_LOCAL_PORT_RANGE_END = 0xffff"

definition UDP_ENSURE_LOCAL_PORT_RANGE :: "u16 \<Rightarrow> u16" where
  "UDP_ENSURE_LOCAL_PORT_RANGE port =
     (port AND NOT UDP_LOCAL_PORT_RANGE_START) + UDP_LOCAL_PORT_RANGE_START"

text \<open>
  The module's globals: the last local port \<^verbatim>\<open>udp_port\<close>, the endpoint list
  \<^verbatim>\<open>udp_pcbs\<close> (the pointers in \<open>next\<close> order, head first) and the memory the pointers
  refer to.
\<close>

record udp_state =
  udp_port :: u16
  udp_pcbs :: "pcb_ptr list"
  pcb_mem :: "pcb_ptr \<Rightarrow> UdpPcb"

definition udp_init :: "u32 \<Rightarrow> udp_state \<Rightarrow> udp_state" where
  "udp_init lwip_rand st = st\<lparr>udp_port := UDP_ENSURE_LOCAL_PORT_RANGE (ucast lwip_rand)\<rparr>"

text \<open>\<^verbatim>\<open>if (udp_port++ == UDP_LOCAL_PORT_RANGE_END) udp_port = UDP_LOCAL_PORT_RANGE_START;\<close>\<close>

definition udp_port_advance :: "u16 \<Rightarrow> u16" where
  "udp_port_advance p =
     (if p = UDP_LOCAL_PORT_RANGE_END then UDP_LOCAL_PORT_RANGE_START else p + 1)"

text \<open>The scan "Check all PCBs": some endpoint of the list has this local port.\<close>

definition port_in_list :: "udp_state \<Rightarrow> u16 \<Rightarrow> bool" where
  "port_in_list st p = list_ex (\<lambda>pcb. local_port (pcb_mem st pcb) = p) (udp_pcbs st)"

text \<open>
  \<^verbatim>\<open>udp_new_port\<close>: the \<^verbatim>\<open>goto again\<close> loop with its counter \<open>n\<close> of failed
  candidates (a \<^verbatim>\<open>uint16_t\<close> that never exceeds 0x4000, so it does not wrap). The result
  is the port (0 for "none"), the updated \<^verbatim>\<open>udp_port\<close> and the final value of \<open>n\<close>.
\<close>

function udp_new_port_again :: "udp_state \<Rightarrow> u16 \<Rightarrow> nat \<Rightarrow> u16 \<times> u16 \<times> nat" where
  "udp_new_port_again st p n =
     (let p' = udp_port_advance p in
      if port_in_list st p' then
        (if n + 1 > unat UDP_LOCAL_PORT_RANGE_END - unat UDP_LOCAL_PORT_RANGE_START
         then (0, p', n + 1)
         else udp_new_port_again st p' (n + 1))
      else (p', p', n))"
  by pat_completeness auto
termination
  by (relation "measure (\<lambda>(st, p, n). 0x4000 - n)")
     (auto simp: UDP_LOCAL_PORT_RANGE_END_def UDP_LOCAL_PORT_RANGE_START_def)

declare udp_new_port_again.simps [simp del]

definition udp_new_port :: "udp_state \<Rightarrow> u16 \<times> udp_state" where
  "udp_new_port st =
     (case udp_new_port_again st (udp_port st) 0 of
        (port, p', n) \<Rightarrow> (port, st\<lparr>udp_port := p'\<rparr>))"

text \<open>
  \<^verbatim>\<open>udp_bind\<close>. A null \<open>ipaddr\<close> (\<open>None\<close>) stands for the IPv4 any-address. The zone
  selection for a scoped IPv6 address without a zone is done on a copy before the
  address-in-use check.
\<close>

definition bind_zoned_ipaddr ::
  "(Ip6Addr \<Rightarrow> Ip6Addr \<Rightarrow> u8 option) \<Rightarrow> IpAddr option \<Rightarrow> IpAddr" where
  "bind_zoned_ipaddr sel ipaddr =
     (case (case ipaddr of None \<Rightarrow> IpV4 0 | Some a \<Rightarrow> a) of
        IpV6 a \<Rightarrow> (if ip6_addr_lacks_zone a IP6_UNKNOWN
                   then IpV6 (ip6_addr_select_zone sel a a) else IpV6 a)
      | a \<Rightarrow> a)"

definition bind_conflict :: "udp_state \<Rightarrow> pcb_ptr \<Rightarrow> IpAddr \<Rightarrow> u16 \<Rightarrow> pcb_ptr \<Rightarrow> bool" where
  "bind_conflict st pcb ipaddr port ipcb =
     (pcb \<noteq> ipcb \<and>
      (\<not> ip_get_option (pcb_mem st pcb) SOF_REUSEADDR \<or>
       \<not> ip_get_option (pcb_mem st ipcb) SOF_REUSEADDR) \<and>
      local_port (pcb_mem st ipcb) = port \<and>
      (compare_ip_addr (local_ip (pcb_mem st ipcb)) ipaddr \<or> is_ip_addr_any ipaddr \<or>
       is_ip_addr_any (local_ip (pcb_mem st ipcb))))"

definition bind_finish :: "udp_state \<Rightarrow> pcb_ptr \<Rightarrow> IpAddr \<Rightarrow> u16 \<Rightarrow> bool \<Rightarrow> udp_state" where
  "bind_finish st pcb ipaddr port rebind =
     (let st1 = st\<lparr>pcb_mem := (pcb_mem st)
                  (pcb := (pcb_mem st pcb)\<lparr>local_ip := ipaddr, local_port := port\<rparr>)\<rparr>
      in if rebind then st1 else st1\<lparr>udp_pcbs := pcb # udp_pcbs st1\<rparr>)"

definition udp_bind ::
  "(Ip6Addr \<Rightarrow> Ip6Addr \<Rightarrow> u8 option) \<Rightarrow> udp_state \<Rightarrow> pcb_ptr \<Rightarrow> IpAddr option \<Rightarrow> u16
     \<Rightarrow> LwipStatus \<times> udp_state" where
  "udp_bind sel st pcb ipaddr port =
     (let rebind = list_ex (\<lambda>ipcb. pcb = ipcb) (udp_pcbs st);
          zoned = bind_zoned_ipaddr sel ipaddr
      in if port = 0 then
           (case udp_new_port st of
              (port', st') \<Rightarrow>
                if port' = 0 then (ERR_USE, st')
                else (ERR_OK, bind_finish st' pcb zoned port' rebind))
         else if list_ex (bind_conflict st pcb zoned port) (udp_pcbs st) then (ERR_USE, st)
         else (ERR_OK, bind_finish st pcb zoned port rebind))"

text \<open>
  \<^verbatim>\<open>udp_netif_ip_addr_changed\<close>: the loop over the endpoint list rewrites the local
  address of each endpoint bound to the old address.
\<close>

fun addr_changed_loop :: "IpAddr \<Rightarrow> IpAddr \<Rightarrow> pcb_ptr list \<Rightarrow> (pcb_ptr \<Rightarrow> UdpPcb)
    \<Rightarrow> (pcb_ptr \<Rightarrow> UdpPcb)" where
  "addr_changed_loop old_addr new_addr [] mem = mem"
| "addr_changed_loop old_addr new_addr (upcb # rest) mem =
     addr_changed_loop old_addr new_addr rest
       (if compare_ip_addr (local_ip (mem upcb)) old_addr
        then mem(upcb := (mem upcb)\<lparr>local_ip := new_addr\<rparr>) else mem)"

definition udp_netif_ip_addr_changed :: "IpAddr \<Rightarrow> IpAddr \<Rightarrow> udp_state \<Rightarrow> udp_state" where
  "udp_netif_ip_addr_changed old_addr new_addr st =
     (if \<not> is_ip_addr_any old_addr \<and> \<not> is_ip_addr_any new_addr
      then st\<lparr>pcb_mem := addr_changed_loop old_addr new_addr (udp_pcbs st) (pcb_mem st)\<rparr>
      else st)"

subsection \<open>Example states\<close>

definition pcb0 :: UdpPcb where
  "pcb0 = \<lparr>local_ip = IpV4 0, remote_ip = IpV4 0, netif_idx = 0, so_options = 0, tos = 0,
     ttl = 255, flags = 0, local_port = 0, remote_port = 0, mcast_ifindex = 0,
     mcast_ttl = 255, chksum_len_tx = 0, recv = None, recv_arg = 0\<rparr>"

definition no_zone_sel :: "Ip6Addr \<Rightarrow> Ip6Addr \<Rightarrow> u8 option" where
  "no_zone_sel d s = None"

definition st_one :: udp_state where
  "st_one = \<lparr>udp_port = 0xc000, udp_pcbs = [1],
     pcb_mem = (\<lambda>_. pcb0)(1 := pcb0\<lparr>local_port := 0xc001\<rparr>)\<rparr>"

definition all_ephemeral :: "pcb_ptr list" where
  "all_ephemeral = [49152..<65536]"

definition st_full :: udp_state where
  "st_full = \<lparr>udp_port = 0xc000, udp_pcbs = all_ephemeral,
     pcb_mem = (\<lambda>i. pcb0\<lparr>local_port := of_nat i\<rparr>)\<rparr>"

text \<open>
  Two endpoints bound to port 5000 at different addresses, then the interface address
  10.0.0.1 changed to 192.0.2.3; and an endpoint bound with port 0.
\<close>

definition st_none :: udp_state where
  "st_none = \<lparr>udp_port = 0xc000, udp_pcbs = [], pcb_mem = (\<lambda>_. pcb0)\<rparr>"

definition st_pair :: udp_state where
  "st_pair = snd (udp_bind no_zone_sel
                    (snd (udp_bind no_zone_sel st_none 1 (Some (IpV4 0xc0000203)) 5000))
                    2 (Some (IpV4 0x0a000001)) 5000)"

definition st_moved :: udp_state where
  "st_moved = udp_netif_ip_addr_changed (IpV4 0x0a000001) (IpV4 0xc0000203) st_pair"

definition st_auto :: udp_state where
  "st_auto = snd (udp_bind no_zone_sel st_one 2 None 0)"

definition st_addr :: udp_state where
  "st_addr = \<lparr>udp_port = 0xc000, udp_pcbs = [1, 2],
     pcb_mem = (\<lambda>_. pcb0)
       (1 := pcb0\<lparr>local_ip := IpV4 0xc0000203, local_port := 5000, so_options := 4\<rparr>,
        2 := pcb0\<lparr>local_ip := IpV4 0x0a000001, local_port := 5001\<rparr>)\<rparr>"

section \<open>UDP transmit path (udp.cpp)\<close>

text \<open>
  Modelled from the spec: \<^verbatim>\<open>pbuf.h\<close> is not among the available sources. Of the packet buffer the spec
  names, the model keeps the payload of the first segment (its length is \<^verbatim>\<open>p->len\<close>),
  the total chain length and the flags.
\<close>

record PacketBuffer =
  pb_payload :: "u8 list"
  pb_tot_len :: u16
  pb_flags :: u8

text \<open>\<^verbatim>\<open>struct UdpHdr\<close>, fields in host byte order (the code converts at each access).\<close>

record UdpHdr =
  uh_src :: u16
  uh_dest :: u16
  uh_len :: u16
  uh_chksum :: u16

definition PBUF_FLAG_MCASTLOOP :: u8 where "PBUF_FLAG_MCASTLOOP = 0x04"
definition IP_PROTO_UDP :: u8 where "IP_PROTO_UDP = 17"
definition IP_PROTO_UDPLITE :: u8 where "IP_PROTO_UDPLITE = 136"

text \<open>What \<^verbatim>\<open>udp_sendto_if_src_chksum\<close> hands to \<^verbatim>\<open>ip_output_if_src\<close>.\<close>

record udp_tx =
  tx_udphdr :: UdpHdr
  tx_tot_len :: u16
  tx_flags :: u8
  tx_src_ip :: IpAddr
  tx_dst_ip :: IpAddr
  tx_ttl :: u8
  tx_tos :: u8
  tx_proto :: u8

text \<open>
  The collaborators of the transmit path that are not among the available sources, as parameters: the
  broadcast test against the outgoing interface, the two per-interface checksum gates
  (\<^verbatim>\<open>is_netif_checksum_enabled\<close> in the UDP branch, \<^verbatim>\<open>IF__NETIF_CHECKSUM_ENABLED\<close> in
  the UDP-Lite branch, both with \<^verbatim>\<open>NETIF_CHECKSUM_GEN_UDP\<close>), whether
  \<^verbatim>\<open>pbuf_add_header\<close> and \<^verbatim>\<open>pbuf_alloc\<close> succeed, the pseudo-header checksum functions
  of \<^verbatim>\<open>inet_chksum.h\<close> (over the header written so far and the payload), its macro
  \<^verbatim>\<open>FOLD_U32T\<close>, and the result of \<^verbatim>\<open>ip_output_if_src\<close>.
\<close>

record send_env =
  ip_addr_isbroadcast :: "IpAddr \<Rightarrow> bool"
  chksum_gen_udp :: bool
  chksum_gen_udplite :: bool
  pbuf_add_header_ok :: bool
  pbuf_alloc_ok :: bool
  ip_chksum_pseudo :: "UdpHdr \<Rightarrow> PacketBuffer \<Rightarrow> u8 \<Rightarrow> u16 \<Rightarrow> IpAddr \<Rightarrow> IpAddr \<Rightarrow> u16"
  ip_chksum_pseudo_partial ::
    "UdpHdr \<Rightarrow> PacketBuffer \<Rightarrow> u8 \<Rightarrow> u16 \<Rightarrow> u16 \<Rightarrow> IpAddr \<Rightarrow> IpAddr \<Rightarrow> u16"
  FOLD_U32T :: "u32 \<Rightarrow> u32"
  ip_output_if_src :: "udp_tx \<Rightarrow> LwipStatus"

text \<open>
  Modelled from the spec: \<^verbatim>\<open>match_ip_addr_pcb_version\<close> is not among the available sources. An endpoint
  of the dual-stack "any type" accepts both families, any other endpoint only addresses
  of the type of its local address.
\<close>

definition match_exact_ip_addr_pcb_vers :: "UdpPcb \<Rightarrow> IpAddr \<Rightarrow> bool" where
  "match_exact_ip_addr_pcb_vers pcb ipaddr =
     (case (local_ip pcb, ipaddr) of
        (IpV4 _, IpV4 _) \<Rightarrow> True
      | (IpV6 _, IpV6 _) \<Rightarrow> True
      | (IpAnyType, IpAnyType) \<Rightarrow> True
      | _ \<Rightarrow> False)"

definition match_ip_addr_pcb_version :: "UdpPcb \<Rightarrow> IpAddr \<Rightarrow> bool" where
  "match_ip_addr_pcb_version pcb ipaddr =
     (IpIsAnyType (local_ip pcb) \<or> match_exact_ip_addr_pcb_vers pcb ipaddr)"

text \<open>\<^verbatim>\<open>acc = udpchksum + (uint16_t)~(chksum); udpchksum = FOLD_U32T(acc);\<close>\<close>

definition add_partial_chksum :: "send_env \<Rightarrow> u16 \<Rightarrow> u16 \<Rightarrow> u16" where
  "add_partial_chksum env udpchksum chksum =
     ucast (FOLD_U32T env ((ucast udpchksum :: u32) + ucast (NOT chksum)))"

text \<open>"chksum zero must become 0xffff, as zero means 'no checksum'"\<close>

definition chksum_zero_to_ffff :: "u16 \<Rightarrow> u16" where
  "chksum_zero_to_ffff c = (if c = 0x0000 then 0xffff else c)"

text \<open>The UDP branch: the value computed for the checksum field before the zero test.\<close>

definition udp_computed_chksum ::
  "send_env \<Rightarrow> UdpHdr \<Rightarrow> PacketBuffer \<Rightarrow> u16 \<Rightarrow> bool \<Rightarrow> u16 \<Rightarrow> IpAddr \<Rightarrow> IpAddr \<Rightarrow> u16" where
  "udp_computed_chksum env hdr p q_tot_len have_chksum chksum src_ip dst_ip =
     (if have_chksum
      then add_partial_chksum env
             (ip_chksum_pseudo_partial env hdr p IP_PROTO_UDP q_tot_len UDP_HLEN src_ip dst_ip)
             chksum
      else ip_chksum_pseudo env hdr p IP_PROTO_UDP q_tot_len src_ip dst_ip)"

definition udp_branch_hdr ::
  "send_env \<Rightarrow> UdpPcb \<Rightarrow> UdpHdr \<Rightarrow> PacketBuffer \<Rightarrow> u16 \<Rightarrow> bool \<Rightarrow> u16 \<Rightarrow> IpAddr \<Rightarrow> IpAddr
     \<Rightarrow> UdpHdr" where
  "udp_branch_hdr env pcb hdr0 p q_tot_len have_chksum chksum src_ip dst_ip =
     (let hdr = hdr0\<lparr>uh_len := q_tot_len\<rparr> in
      if chksum_gen_udp env then
        (if IpIsV6 dst_ip \<or> flags pcb AND UDP_FLAGS_NOCHKSUM = 0
         then hdr\<lparr>uh_chksum := chksum_zero_to_ffff
                  (udp_computed_chksum env hdr p q_tot_len have_chksum chksum src_ip dst_ip)\<rparr>
         else hdr)
      else hdr)"

text \<open>The UDP-Lite branch, with the coverage length taken from the endpoint.\<close>

definition udplite_computed_chksum ::
  "send_env \<Rightarrow> UdpHdr \<Rightarrow> PacketBuffer \<Rightarrow> u16 \<Rightarrow> u16 \<Rightarrow> bool \<Rightarrow> u16 \<Rightarrow> IpAddr \<Rightarrow> IpAddr \<Rightarrow> u16"
  where
  "udplite_computed_chksum env hdr p q_tot_len chklen have_chksum chksum src_ip dst_ip =
     (let c = ip_chksum_pseudo_partial env hdr p IP_PROTO_UDPLITE q_tot_len
                (if have_chksum then UDP_HLEN else chklen) src_ip dst_ip
      in if have_chksum then add_partial_chksum env c chksum else c)"

definition udplite_branch_hdr ::
  "send_env \<Rightarrow> UdpPcb \<Rightarrow> UdpHdr \<Rightarrow> PacketBuffer \<Rightarrow> u16 \<Rightarrow> bool \<Rightarrow> u16 \<Rightarrow> IpAddr \<Rightarrow> IpAddr
     \<Rightarrow> UdpHdr" where
  "udplite_branch_hdr env pcb hdr0 p q_tot_len have_chksum chksum src_ip dst_ip =
     (let illegal = (chksum_len_tx pcb < 8 \<or> chksum_len_tx pcb > q_tot_len);
          chklen_hdr = (if illegal then 0 else chksum_len_tx pcb);
          chklen = (if illegal then q_tot_len else chksum_len_tx pcb);
          hdr = hdr0\<lparr>uh_len := chklen_hdr\<rparr>
      in if chksum_gen_udplite env
         then hdr\<lparr>uh_chksum := chksum_zero_to_ffff
                  (udplite_computed_chksum env hdr p q_tot_len chklen have_chksum chksum
                     src_ip dst_ip)\<rparr>
         else hdr)"

text \<open>
  The second half of \<^verbatim>\<open>udp_sendto_if_src_chksum\<close>, from the header fields to the TTL:
  what is handed to IP, given the endpoint as it is after the optional bind.
\<close>

definition udp_send_datagram ::
  "send_env \<Rightarrow> UdpPcb \<Rightarrow> PacketBuffer \<Rightarrow> IpAddr \<Rightarrow> u16 \<Rightarrow> bool \<Rightarrow> u16 \<Rightarrow> IpAddr \<Rightarrow> udp_tx"
  where
  "udp_send_datagram env pcb1 p dst_ip dst_port have_chksum chksum src_ip =
     (let q_tot_len = pb_tot_len p + UDP_HLEN;
          q_flags0 = (if pbuf_add_header_ok env then pb_flags p else 0);
          hdr0 = \<lparr>uh_src = local_port pcb1, uh_dest = dst_port, uh_len = 0,
                  uh_chksum = 0x0000\<rparr>;
          q_flags = (if flags pcb1 AND UDP_FLAGS_MULTICAST_LOOP \<noteq> 0 \<and>
                        ip_addr_ismulticast dst_ip
                     then q_flags0 OR PBUF_FLAG_MCASTLOOP else q_flags0);
          udplite = (flags pcb1 AND UDP_FLAGS_UDPLITE \<noteq> 0);
          hdr = (if udplite
                 then udplite_branch_hdr env pcb1 hdr0 p q_tot_len have_chksum chksum
                        src_ip dst_ip
                 else udp_branch_hdr env pcb1 hdr0 p q_tot_len have_chksum chksum
                        src_ip dst_ip);
          ip_proto = (if udplite then IP_PROTO_UDPLITE else IP_PROTO_UDP);
          ttl' = (if ip_addr_ismulticast dst_ip then mcast_ttl pcb1 else ttl pcb1)
      in \<lparr>tx_udphdr = hdr, tx_tot_len = q_tot_len, tx_flags = q_flags,
          tx_src_ip = src_ip, tx_dst_ip = dst_ip, tx_ttl = ttl',
          tx_tos = tos pcb1, tx_proto = ip_proto\<rparr>)"

text \<open>
  \<^verbatim>\<open>udp_sendto_if_src_chksum\<close>: the result is the status, the state (the endpoint may
  have been bound) and the datagram handed to \<^verbatim>\<open>ip_output_if_src\<close>, if any.
\<close>

definition udp_sendto_if_src_chksum ::
  "send_env \<Rightarrow> (Ip6Addr \<Rightarrow> Ip6Addr \<Rightarrow> u8 option) \<Rightarrow> udp_state \<Rightarrow> pcb_ptr \<Rightarrow> PacketBuffer
     \<Rightarrow> IpAddr \<Rightarrow> u16 \<Rightarrow> bool \<Rightarrow> u16 \<Rightarrow> IpAddr \<Rightarrow> LwipStatus \<times> udp_state \<times> udp_tx option"
  where
  "udp_sendto_if_src_chksum env sel st pcb p dst_ip dst_port have_chksum chksum src_ip =
     (if \<not> match_ip_addr_pcb_version (pcb_mem st pcb) src_ip \<or>
         \<not> match_ip_addr_pcb_version (pcb_mem st pcb) dst_ip
      then (ERR_VAL, st, None)
      else if \<not> ip_get_option (pcb_mem st pcb) SOF_BROADCAST \<and> IpIsV4 dst_ip \<and>
              ip_addr_isbroadcast env dst_ip
      then (ERR_VAL, st, None)
      else
        (case (if local_port (pcb_mem st pcb) = 0
               then udp_bind sel st pcb (Some (local_ip (pcb_mem st pcb)))
                      (local_port (pcb_mem st pcb))
               else (ERR_OK, st)) of
           (err, st1) \<Rightarrow>
             if err \<noteq> ERR_OK then (err, st1, None)
             else if pb_tot_len p + UDP_HLEN < pb_tot_len p then (ERR_MEM, st1, None)
             else if \<not> pbuf_add_header_ok env \<and> \<not> pbuf_alloc_ok env then (ERR_MEM, st1, None)
             else
               (let tx = udp_send_datagram env (pcb_mem st1 pcb) p dst_ip dst_port
                           have_chksum chksum src_ip
                in (ip_output_if_src env tx, st1, Some tx))))"

text \<open>The checksum field of the datagram handed to IP, if one was.\<close>

definition sent_chksum :: "LwipStatus \<times> udp_state \<times> udp_tx option \<Rightarrow> u16 option" where
  "sent_chksum r = map_option (\<lambda>tx. uh_chksum (tx_udphdr tx)) (snd (snd r))"

subsection \<open>Example transmissions\<close>

definition ip6_dst :: IpAddr where
  "ip6_dst = IpV6 \<lparr>addr0 = 0x20010db8, addr1 = 0, addr2 = 0, addr3 = 1, zone = 0\<rparr>"

definition ip6_src :: IpAddr where
  "ip6_src = IpV6 \<lparr>addr0 = 0x20010db8, addr1 = 0, addr2 = 0, addr3 = 2, zone = 0\<rparr>"

definition pkt0 :: PacketBuffer where
  "pkt0 = \<lparr>pb_payload = [1, 2, 3, 4], pb_tot_len = 4, pb_flags = 0\<rparr>"

text \<open>
  An interface that generates checksums, with the one's complement of the sum of the
  header fields standing in for the pseudo-header checksum, and the same interface with
  checksum generation switched off.
\<close>

definition env_soft :: send_env where
  "env_soft = \<lparr>ip_addr_isbroadcast = (\<lambda>a. False), chksum_gen_udp = True,
     chksum_gen_udplite = True, pbuf_add_header_ok = True, pbuf_alloc_ok = True,
     ip_chksum_pseudo = (\<lambda>h p proto n s d. NOT (uh_src h + uh_dest h + uh_len h)),
     ip_chksum_pseudo_partial = (\<lambda>h p proto n c s d. NOT (uh_src h + uh_dest h + uh_len h)),
     FOLD_U32T = (\<lambda>u. drop_bit 16 u + (u AND 0x0000ffff)),
     ip_output_if_src = (\<lambda>t. ERR_OK)\<rparr>"

definition env_offload :: send_env where
  "env_offload = env_soft\<lparr>chksum_gen_udp := False\<rparr>"

definition ip4_dst :: IpAddr where
  "ip4_dst = IpV4 0xc0000207"

definition ip4_src :: IpAddr where
  "ip4_src = IpV4 0xc0000203"

definition st_v4_nochksum :: udp_state where
  "st_v4_nochksum = \<lparr>udp_port = 0xc000, udp_pcbs = [1],
     pcb_mem = (\<lambda>_. pcb0)(1 := pcb0\<lparr>local_ip := ip4_src, local_port := 5000, flags := 0x01\<rparr>)\<rparr>"

definition st_v6 :: udp_state where
  "st_v6 = \<lparr>udp_port = 0xc000, udp_pcbs = [1],
     pcb_mem = (\<lambda>_. pcb0)(1 := pcb0\<lparr>local_ip := ip6_src, local_port := 5000\<rparr>)\<rparr>"

section \<open>UDP receive path (udp.cpp)\<close>

text \<open>
  What \<^verbatim>\<open>udp_input\<close> does to the outside: a call of an endpoint's receive callback
  \<^verbatim>\<open>pcb->recv(pcb->recv_arg, pcb, p, ip_current_src_addr(), src)\<close>, a \<^verbatim>\<open>free_pkt_buf\<close>,
  or an ICMP port-unreachable message. Statistics counters and logging are left out, and
  a callback is taken not to change the endpoint list or the endpoints while
  \<^verbatim>\<open>udp_input\<close> runs.
\<close>

datatype udp_event =
    Recv pcb_ptr nat nat PacketBuffer IpAddr u16
  | FreePktBuf PacketBuffer
  | IcmpPortUnreach bool PacketBuffer

text \<open>
  The globals \<^verbatim>\<open>ip_data\<close> for the datagram being processed, the receiving interface
  \<open>inp\<close>, and the collaborators outside the available sources, as parameters: the broadcast test of the
  destination, the receive checksum gate and the checksum results, \<^verbatim>\<open>pbuf_remove_header\<close>
  (\<open>None\<close> when it fails), \<^verbatim>\<open>pbuf_clone\<close> (its \<open>n\<close>-th call within this
  \<^verbatim>\<open>udp_input\<close>, counted from 0; \<open>None\<close> when no buffer can be allocated),
  \<^verbatim>\<open>ip_current_header_tot_len()\<close> and \<^verbatim>\<open>pbuf_header_force\<close> (the buffer it leaves for
  a header size increment, whose 16 bits the \<^verbatim>\<open>int16_t\<close> cast keeps).
\<close>

record input_env =
  cur_input_netif_idx :: u8
  cur_dest_addr :: IpAddr
  cur_src_addr :: IpAddr
  cur_is_v6 :: bool
  cur_header_proto :: u8
  cur_dest_isbroadcast :: bool
  inp_ip4_addr :: u32
  inp_ip4_netmask :: u32
  inp_ip6_addr_match :: bool
  chksum_check_udp :: bool
  in_chksum_pseudo :: "PacketBuffer \<Rightarrow> u16"
  in_chksum_pseudo_partial :: "PacketBuffer \<Rightarrow> u16 \<Rightarrow> u16"
  pbuf_remove_header :: "PacketBuffer \<Rightarrow> PacketBuffer option"
  pbuf_clone :: "nat \<Rightarrow> PacketBuffer \<Rightarrow> PacketBuffer option"
  cur_header_tot_len :: u16
  pbuf_header_force :: "PacketBuffer \<Rightarrow> u16 \<Rightarrow> PacketBuffer"

definition ip4_current_dest_addr :: "input_env \<Rightarrow> u32" where
  "ip4_current_dest_addr env = convert_ip_addr_to_ip4_addr (cur_dest_addr env)"

definition udp_input_local_match :: "input_env \<Rightarrow> UdpPcb \<Rightarrow> bool \<Rightarrow> bool" where
  "udp_input_local_match env pcb broadcast =
     (if netif_idx pcb \<noteq> NETIF_NO_INDEX \<and> netif_idx pcb \<noteq> cur_input_netif_idx env then False
      else if is_ip_addr_any (local_ip pcb) then
        (if broadcast \<and> \<not> ip_get_option pcb SOF_BROADCAST then False else True)
      else if match_exact_ip_addr_pcb_vers pcb (cur_dest_addr env) then
        (if broadcast then
           (if ip_get_option pcb SOF_BROADCAST then
              (if ip4_addr_isany (convert_ip_addr_to_ip4_addr (local_ip pcb)) \<or>
                  ip4_current_dest_addr env = IP4_ADDR_BCAST \<or>
                  ip4_addr_netcmp (convert_ip_addr_to_ip4_addr (local_ip pcb))
                    (ip4_current_dest_addr env) (inp_ip4_netmask env)
               then True else False)
            else False)
         else if is_ip_addr_any (local_ip pcb) \<or>
                 compare_ip_addr (local_ip pcb) (cur_dest_addr env)
         then True else False)
      else False)"

text \<open>"compare PCB local addr+port to UDP destination addr+port"\<close>

definition udp_input_matches :: "input_env \<Rightarrow> UdpPcb \<Rightarrow> u16 \<Rightarrow> bool \<Rightarrow> bool" where
  "udp_input_matches env pcb dest broadcast =
     (local_port pcb = dest \<and> udp_input_local_match env pcb broadcast)"

text \<open>The update of \<^verbatim>\<open>uncon_pcb\<close> for a matching endpoint \<open>pcb\<close>.\<close>

definition udp_input_uncon ::
  "input_env \<Rightarrow> (pcb_ptr \<Rightarrow> UdpPcb) \<Rightarrow> bool \<Rightarrow> pcb_ptr \<Rightarrow> pcb_ptr option \<Rightarrow> pcb_ptr option" where
  "udp_input_uncon env mem broadcast pcb uncon_pcb =
     (if flags (mem pcb) AND UDP_FLAGS_CONNECTED = 0 then
        (case uncon_pcb of
           None \<Rightarrow> Some pcb
         | Some u \<Rightarrow>
             if broadcast \<and> ip4_current_dest_addr env = IP4_ADDR_BCAST then
               (if \<not> IpIsV4 (local_ip (mem u)) \<or>
                   \<not> ip4_addr_cmp (convert_ip_addr_to_ip4_addr (local_ip (mem u)))
                       (inp_ip4_addr env)
                then (if IpIsV4 (local_ip (mem pcb)) \<and>
                         ip4_addr_cmp (convert_ip_addr_to_ip4_addr (local_ip (mem pcb)))
                           (inp_ip4_addr env)
                      then Some pcb else uncon_pcb)
                else uncon_pcb)
             else if \<not> is_ip_addr_any (local_ip (mem pcb)) then Some pcb
             else uncon_pcb)
      else uncon_pcb)"

text \<open>
  The search loop. \<open>visited\<close> are the endpoints before the current one (so \<open>prev\<close> is
  null exactly when it is empty); the result is the fully matching endpoint if the loop
  left by \<^verbatim>\<open>break\<close>, the endpoint list (with that endpoint moved to the front) and
  \<^verbatim>\<open>uncon_pcb\<close>.
\<close>

fun udp_input_find ::
  "input_env \<Rightarrow> (pcb_ptr \<Rightarrow> UdpPcb) \<Rightarrow> u16 \<Rightarrow> u16 \<Rightarrow> bool \<Rightarrow> pcb_ptr list \<Rightarrow> pcb_ptr list
     \<Rightarrow> pcb_ptr option \<Rightarrow> pcb_ptr option \<times> pcb_ptr list \<times> pcb_ptr option" where
  "udp_input_find env mem dest src broadcast visited [] uncon_pcb = (None, visited, uncon_pcb)"
| "udp_input_find env mem dest src broadcast visited (pcb # rest) uncon_pcb =
     (if udp_input_matches env (mem pcb) dest broadcast then
        (let uncon' = udp_input_uncon env mem broadcast pcb uncon_pcb in
         if remote_port (mem pcb) = src \<and>
            (is_ip_addr_any (remote_ip (mem pcb)) \<or>
             compare_ip_addr (remote_ip (mem pcb)) (cur_src_addr env))
         then (Some pcb, (if visited \<noteq> [] then pcb # visited @ rest else pcb # rest), uncon')
         else udp_input_find env mem dest src broadcast (visited @ [pcb]) rest uncon')
      else udp_input_find env mem dest src broadcast (visited @ [pcb]) rest uncon_pcb)"

text \<open>
  The UDP header at the start of the payload (read only after the length check);
  \<^verbatim>\<open>lwip_ntohs\<close> of a field is the big-endian value of its two bytes.
\<close>

definition be16 :: "u8 \<Rightarrow> u8 \<Rightarrow> u16" where
  "be16 hi lo = push_bit 8 (ucast hi) OR ucast lo"

definition udp_hdr_of :: "u8 list \<Rightarrow> UdpHdr" where
  "udp_hdr_of bs = \<lparr>uh_src = be16 (bs ! 0) (bs ! 1), uh_dest = be16 (bs ! 2) (bs ! 3),
                    uh_len = be16 (bs ! 4) (bs ! 5), uh_chksum = be16 (bs ! 6) (bs ! 7)\<rparr>"

text \<open>The checksum test: true when the code jumps to \<^verbatim>\<open>chkerr\<close>.\<close>

definition udp_input_chkerr :: "input_env \<Rightarrow> UdpHdr \<Rightarrow> PacketBuffer \<Rightarrow> bool" where
  "udp_input_chkerr env udphdr p =
     (if chksum_check_udp env then
        (if cur_header_proto env = IP_PROTO_UDPLITE then
           (let chklen = uh_len udphdr in
            if chklen < 8 then
              (if chklen = 0 then in_chksum_pseudo_partial env p (pb_tot_len p) \<noteq> 0 else True)
            else in_chksum_pseudo_partial env p chklen \<noteq> 0)
         else (if uh_chksum udphdr \<noteq> 0 then in_chksum_pseudo env p \<noteq> 0 else False))
      else False)"

text \<open>
  "pass broadcast- or multicast packets to all multicast pcbs if SOF_REUSEADDR is set on
  the first match": the loop over the endpoint list, \<open>n\<close> counting the calls of
  \<^verbatim>\<open>pbuf_clone\<close>.
\<close>

fun udp_input_fanout ::
  "input_env \<Rightarrow> (pcb_ptr \<Rightarrow> UdpPcb) \<Rightarrow> pcb_ptr \<Rightarrow> u16 \<Rightarrow> u16 \<Rightarrow> bool \<Rightarrow> PacketBuffer \<Rightarrow> nat
     \<Rightarrow> pcb_ptr list \<Rightarrow> udp_event list" where
  "udp_input_fanout env mem pcb dest src broadcast p n [] = []"
| "udp_input_fanout env mem pcb dest src broadcast p n (mpcb # rest) =
     (if mpcb \<noteq> pcb then
        (if udp_input_matches env (mem mpcb) dest broadcast then
           (case recv (mem mpcb) of
              None \<Rightarrow> udp_input_fanout env mem pcb dest src broadcast p n rest
            | Some cb \<Rightarrow>
                (case pbuf_clone env n p of
                   None \<Rightarrow> udp_input_fanout env mem pcb dest src broadcast p (Suc n) rest
                 | Some q \<Rightarrow>
                     Recv mpcb cb (recv_arg (mem mpcb)) q (cur_src_addr env) src #
                     udp_input_fanout env mem pcb dest src broadcast p (Suc n) rest))
         else udp_input_fanout env mem pcb dest src broadcast p n rest)
      else udp_input_fanout env mem pcb dest src broadcast p n rest)"

text \<open>The endpoint \<^verbatim>\<open>udp_input\<close> settles on, and the endpoint list after the search.\<close>

definition udp_input_select ::
  "input_env \<Rightarrow> udp_state \<Rightarrow> PacketBuffer \<Rightarrow> pcb_ptr option \<times> pcb_ptr list" where
  "udp_input_select env st p =
     (let udphdr = udp_hdr_of (pb_payload p) in
      case udp_input_find env (pcb_mem st) (uh_dest udphdr) (uh_src udphdr)
             (cur_dest_isbroadcast env) [] (udp_pcbs st) None of
        (found, pcbs', uncon_pcb) \<Rightarrow>
          ((case found of Some x \<Rightarrow> Some x | None \<Rightarrow> uncon_pcb), pcbs'))"

text \<open>
  \<^verbatim>\<open>udp_input\<close>: the state afterwards (the search may have moved an endpoint to the
  front of the list) and the events, in order. \<^verbatim>\<open>pbuf_remove_header\<close> and
  \<^verbatim>\<open>pbuf_header_force\<close> change the buffer in place: \<open>p'\<close> is the buffer past the UDP
  header, \<open>p''\<close> the buffer moved back to the IP header.
\<close>

definition udp_input :: "input_env \<Rightarrow> udp_state \<Rightarrow> PacketBuffer \<Rightarrow> udp_state \<times> udp_event list"
  where
  "udp_input env st p =
     (if length (pb_payload p) < 8 then (st, [FreePktBuf p])
      else
        (let udphdr = udp_hdr_of (pb_payload p);
             broadcast = cur_dest_isbroadcast env;
             src = uh_src udphdr;
             dest = uh_dest udphdr
         in case udp_input_select env st p of
           (pcb, pcbs') \<Rightarrow>
             (let st' = st\<lparr>udp_pcbs := pcbs'\<rparr>;
                  for_us = (if pcb \<noteq> None then True
                            else if cur_is_v6 env then inp_ip6_addr_match env
                            else ip4_addr_cmp (inp_ip4_addr env) (ip4_current_dest_addr env))
              in if for_us then
                   (if udp_input_chkerr env udphdr p then (st', [FreePktBuf p])
                    else
                      (case pbuf_remove_header env p of
                         None \<Rightarrow> (st', [FreePktBuf p])
                       | Some p' \<Rightarrow>
                           (case pcb of
                              Some pcb \<Rightarrow>
                                (let fan =
                                   (if ip_get_option (pcb_mem st pcb) SOF_REUSEADDR \<and>
                                       (broadcast \<or> ip_addr_ismulticast (cur_dest_addr env))
                                    then udp_input_fanout env (pcb_mem st) pcb dest src
                                           broadcast p' 0 pcbs'
                                    else [])
                                 in case recv (pcb_mem st pcb) of
                                      Some cb \<Rightarrow>
                                        (st', fan @ [Recv pcb cb (recv_arg (pcb_mem st pcb)) p'
                                                       (cur_src_addr env) src])
                                    | None \<Rightarrow> (st', fan @ [FreePktBuf p']))
                            | None \<Rightarrow>
                                (if \<not> broadcast \<and> \<not> ip_addr_ismulticast (cur_dest_addr env)
                                 then
                                   (let p'' = pbuf_header_force env p'
                                                (cur_header_tot_len env + UDP_HLEN)
                                    in (st', [IcmpPortUnreach (cur_is_v6 env) p'',
                                              FreePktBuf p'']))
                                 else (st', [FreePktBuf p'])))))
                 else (st', [FreePktBuf p]))))"

text \<open>The endpoints called back, in order.\<close>

fun recv_pcbs :: "udp_event list \<Rightarrow> pcb_ptr list" where
  "recv_pcbs [] = []"
| "recv_pcbs (Recv m cb a q s sp # es) = m # recv_pcbs es"
| "recv_pcbs (e # es) = recv_pcbs es"

subsection \<open>Example datagrams\<close>

definition env_bcast :: input_env where
  "env_bcast = \<lparr>cur_input_netif_idx = 1, cur_dest_addr = IpV4 0xffffffff,
     cur_src_addr = IpV4 0xc0000207, cur_is_v6 = False, cur_header_proto = 17,
     cur_dest_isbroadcast = True, inp_ip4_addr = 0xc0000203, inp_ip4_netmask = 0xffffff00,
     inp_ip6_addr_match = False, chksum_check_udp = True,
     in_chksum_pseudo = (\<lambda>p. 0), in_chksum_pseudo_partial = (\<lambda>p n. 0),
     pbuf_remove_header =
       (\<lambda>p. Some (p\<lparr>pb_payload := drop 8 (pb_payload p), pb_tot_len := pb_tot_len p - 8\<rparr>)),
     pbuf_clone = (\<lambda>n p. Some p), cur_header_tot_len = 20,
     pbuf_header_force = (\<lambda>p n. p\<lparr>pb_payload := replicate (unat n) 0 @ pb_payload p,
                                    pb_tot_len := pb_tot_len p + n\<rparr>)\<rparr>"

definition env_bcast_nomem :: input_env where
  "env_bcast_nomem = env_bcast\<lparr>pbuf_clone := (\<lambda>n p. None)\<rparr>"

text \<open>The first \<^verbatim>\<open>pbuf_clone\<close> of a datagram fails, the later ones succeed.\<close>

definition env_bcast_retry :: input_env where
  "env_bcast_retry = env_bcast\<lparr>pbuf_clone := (\<lambda>n p. if n = 0 then None else Some p)\<rparr>"

definition st_two :: udp_state where
  "st_two = \<lparr>udp_port = 0xc000, udp_pcbs = [1, 2],
     pcb_mem = (\<lambda>_. pcb0)
       (1 := pcb0\<lparr>so_options := 0x24, local_port := 5000, recv := Some 7\<rparr>,
        2 := pcb0\<lparr>so_options := 0x24, local_port := 5000, recv := Some 8\<rparr>)\<rparr>"

definition st_three :: udp_state where
  "st_three = \<lparr>udp_port = 0xc000, udp_pcbs = [1, 2, 3],
     pcb_mem = (\<lambda>_. pcb0)
       (1 := pcb0\<lparr>so_options := 0x24, local_port := 5000, recv := Some 7\<rparr>,
        2 := pcb0\<lparr>so_options := 0x24, local_port := 5000, recv := Some 8\<rparr>,
        3 := pcb0\<lparr>so_options := 0x24, local_port := 5000, recv := Some 9\<rparr>)\<rparr>"

definition dgram :: PacketBuffer where
  "dgram = \<lparr>pb_payload = [0x04, 0xd2, 0x13, 0x88, 0x00, 0x0c, 0x00, 0x00, 1, 2, 3, 4],
     pb_tot_len = 12, pb_flags = 0\<rparr>"

definition dgram_data :: PacketBuffer where
  "dgram_data = \<lparr>pb_payload = [1, 2, 3, 4], pb_tot_len = 4, pb_flags = 0\<rparr>"

section \<open>IGMP (igmp.cpp)\<close>

text \<open>
  Modelled from the spec: \<^verbatim>\<open>igmp.h\<close> is not among the available sources. A group entry has the fields the
  spec lists and the code uses: group address, last-reporter flag, state, timer ticks
  (0 = stopped) and use count; \<open>next\<close> is the order of the interface's group list.
\<close>

datatype IgmpGroupState =
  IGMP_GROUP_NON_MEMBER | IGMP_GROUP_DELAYING_MEMBER | IGMP_GROUP_IDLE_MEMBER

type_synonym grp_ptr = nat

record IgmpGroup =
  group_address :: u32
  last_reporter_flag :: u8
  group_state :: IgmpGroupState
  timer :: u16
  use :: u8

text \<open>\<^verbatim>\<open>struct IgmpMsg\<close>, the 8-byte IGMP header.\<close>

record IgmpMsg =
  igmp_msgtype :: u8
  igmp_maxresp :: u8
  igmp_checksum :: u16
  igmp_group_address :: u32

definition allsystems :: u32 where "allsystems = 0xe0000001"
definition allrouters :: u32 where "allrouters = 0xe0000002"
definition IGMP_MEMB_QUERY :: u8 where "IGMP_MEMB_QUERY = 0x11"
definition IGMP_V2_MEMB_REPORT :: u8 where "IGMP_V2_MEMB_REPORT = 0x16"
definition IGMP_LEAVE_GROUP :: u8 where "IGMP_LEAVE_GROUP = 0x17"
definition kIgmpMinlen :: nat where "kIgmpMinlen = 8"

datatype MacFilterAction = NETIF_ADD_MAC_FILTER | NETIF_DEL_MAC_FILTER

text \<open>
  What the IGMP code does to the outside: a call of the interface's MAC filter hook, a
  packet handed to \<^verbatim>\<open>igmp_ip_output_if\<close> (source, destination, packet), a
  \<^verbatim>\<open>pbuf_free\<close>, a failed \<^verbatim>\<open>lwip_assert\<close> (recorded; the code goes on).
\<close>

datatype igmp_event =
    MacFilter u32 MacFilterAction
  | IgmpOutput u32 u32 PacketBuffer
  | PbufFree PacketBuffer
  | AssertFailed

text \<open>
  The interface and the collaborators outside the available sources, as parameters: whether the
  interface has a MAC filter hook, its IPv4 address, whether \<^verbatim>\<open>lwip_rand\<close> is defined as
  a macro (the \<^verbatim>\<open>#ifdef\<close> in \<^verbatim>\<open>igmp_start_timer\<close>) and the value its \<open>n\<close>-th call
  returns, whether the \<open>n\<close>-th \<^verbatim>\<open>pbuf_alloc\<close> succeeds, the pointer the \<open>n\<close>-th
  \<^verbatim>\<open>new IgmpGroup\<close> returns, \<^verbatim>\<open>inet_chksum\<close>, and the two timer constants of
  \<^verbatim>\<open>igmp.h\<close>.
\<close>

record igmp_env =
  igmp_mac_filter :: bool
  netif_ip4_addr :: u32
  have_lwip_rand :: bool
  lwip_rand_seq :: "nat \<Rightarrow> u32"
  pbuf_alloc_seq :: "nat \<Rightarrow> bool"
  new_group_seq :: "nat \<Rightarrow> grp_ptr option"
  inet_chksum :: "u8 list \<Rightarrow> u16"
  IGMP_JOIN_DELAYING_MEMBER_TMR :: u8
  IGMP_V1_DELAYING_MEMBER_TMR :: u8

text \<open>
  The IGMP state of one interface: the group list \<^verbatim>\<open>netif_igmp_data(netif)\<close> (pointers,
  head first), the memory they refer to, the pointers that are allocated (\<^verbatim>\<open>new\<close> adds
  one, \<^verbatim>\<open>delete\<close> removes it; the memory keeps its last contents), the numbers of calls
  made so far to \<^verbatim>\<open>lwip_rand\<close>, \<^verbatim>\<open>pbuf_alloc\<close> and \<^verbatim>\<open>new\<close>, and the log of events.
\<close>

record igmp_state =
  igmp_groups :: "grp_ptr list"
  grp_mem :: "grp_ptr \<Rightarrow> IgmpGroup"
  grp_allocated :: "grp_ptr set"
  rand_calls :: nat
  pbuf_allocs :: nat
  group_news :: nat
  igmp_log :: "igmp_event list"

definition log_event :: "igmp_event \<Rightarrow> igmp_state \<Rightarrow> igmp_state" where
  "log_event e st = st\<lparr>igmp_log := igmp_log st @ [e]\<rparr>"

definition upd_group :: "grp_ptr \<Rightarrow> (IgmpGroup \<Rightarrow> IgmpGroup) \<Rightarrow> igmp_state \<Rightarrow> igmp_state" where
  "upd_group g f st = st\<lparr>grp_mem := (grp_mem st)(g := f (grp_mem st g))\<rparr>"

subsection \<open>The wire format\<close>

definition be32 :: "u8 \<Rightarrow> u8 \<Rightarrow> u8 \<Rightarrow> u8 \<Rightarrow> u32" where
  "be32 b3 b2 b1 b0 =
     push_bit 24 (ucast b3) OR push_bit 16 (ucast b2) OR push_bit 8 (ucast b1) OR ucast b0"

definition igmp_msg_of :: "u8 list \<Rightarrow> IgmpMsg" where
  "igmp_msg_of bs = \<lparr>igmp_msgtype = bs ! 0, igmp_maxresp = bs ! 1,
                     igmp_checksum = be16 (bs ! 2) (bs ! 3),
                     igmp_group_address = be32 (bs ! 4) (bs ! 5) (bs ! 6) (bs ! 7)\<rparr>"

definition igmp_msg_bytes :: "IgmpMsg \<Rightarrow> u8 list" where
  "igmp_msg_bytes m =
     [igmp_msgtype m, igmp_maxresp m,
      ucast (drop_bit 8 (igmp_checksum m)), ucast (igmp_checksum m),
      ucast (drop_bit 24 (igmp_group_address m)), ucast (drop_bit 16 (igmp_group_address m)),
      ucast (drop_bit 8 (igmp_group_address m)), ucast (igmp_group_address m)]"

text \<open>The packet \<^verbatim>\<open>igmp_send\<close> builds: the message with its checksum filled in.\<close>

definition igmp_packet :: "igmp_env \<Rightarrow> u8 \<Rightarrow> u32 \<Rightarrow> PacketBuffer" where
  "igmp_packet env ty grp_addr =
     (let m0 = \<lparr>igmp_msgtype = ty, igmp_maxresp = 0, igmp_checksum = 0,
                igmp_group_address = grp_addr\<rparr>;
          m = m0\<lparr>igmp_checksum := inet_chksum env (igmp_msg_bytes m0)\<rparr>
      in \<lparr>pb_payload = igmp_msg_bytes m, pb_tot_len = 8, pb_flags = 0\<rparr>)"

subsection \<open>Group list\<close>

definition igmp_lookfor_group :: "igmp_state \<Rightarrow> u32 \<Rightarrow> grp_ptr option" where
  "igmp_lookfor_group st addr =
     find (\<lambda>g. ip4_addr_cmp (group_address (grp_mem st g)) addr) (igmp_groups st)"

definition lwip_assert :: "bool \<Rightarrow> igmp_state \<Rightarrow> igmp_state" where
  "lwip_assert c st = (if c then st else log_event AssertFailed st)"

definition igmp_lookup_group :: "igmp_env \<Rightarrow> igmp_state \<Rightarrow> u32 \<Rightarrow> grp_ptr option \<times> igmp_state"
  where
  "igmp_lookup_group env st addr =
     (case igmp_lookfor_group st addr of
        Some g \<Rightarrow> (Some g, st)
      | None \<Rightarrow>
          (case new_group_seq env (group_news st) of
             None \<Rightarrow> (None, st\<lparr>group_news := group_news st + 1\<rparr>)
           | Some g \<Rightarrow>
               (let st1 = st\<lparr>group_news := group_news st + 1,
                             grp_allocated := insert g (grp_allocated st),
                             grp_mem := (grp_mem st)
                               (g := \<lparr>group_address = addr, last_reporter_flag = 0,
                                      group_state = IGMP_GROUP_NON_MEMBER, timer = 0,
                                      use = 0\<rparr>)\<rparr>
                in case igmp_groups st of
                     [] \<Rightarrow>
                       (Some g, (lwip_assert (ip4_addr_cmp addr allsystems) st1)
                                  \<lparr>igmp_groups := [g]\<rparr>)
                   | list_head # rest \<Rightarrow>
                       (Some g, (lwip_assert (\<not> ip4_addr_cmp addr allsystems) st1)
                                  \<lparr>igmp_groups := list_head # g # rest\<rparr>))))"

text \<open>
  \<^verbatim>\<open>igmp_remove_group\<close>: the scan for the entry whose \<open>next\<close> is \<open>group\<close>; \<open>None\<close>
  when the scan reaches the end (the code then returns \<^verbatim>\<open>ERR_ARG\<close>).
\<close>

fun igmp_remove_scan :: "grp_ptr \<Rightarrow> grp_ptr list \<Rightarrow> grp_ptr list option" where
  "igmp_remove_scan grp [] = None"
| "igmp_remove_scan grp [tmp_group] = None"
| "igmp_remove_scan grp (tmp_group # nxt # rest) =
     (if nxt = grp then Some (tmp_group # rest)
      else map_option (Cons tmp_group) (igmp_remove_scan grp (nxt # rest)))"

definition igmp_remove_group :: "igmp_state \<Rightarrow> grp_ptr \<Rightarrow> LwipStatus \<times> igmp_state" where
  "igmp_remove_group st grp =
     (case igmp_remove_scan grp (igmp_groups st) of
        Some gs \<Rightarrow> (ERR_OK, st\<lparr>igmp_groups := gs\<rparr>)
      | None \<Rightarrow> (ERR_ARG, st))"

subsection \<open>Sending and timers\<close>

definition igmp_send :: "igmp_env \<Rightarrow> igmp_state \<Rightarrow> grp_ptr \<Rightarrow> u8 \<Rightarrow> igmp_state" where
  "igmp_send env st grp ty =
     (let st0 = st\<lparr>pbuf_allocs := pbuf_allocs st + 1\<rparr> in
      if pbuf_alloc_seq env (pbuf_allocs st) then
        (let p = igmp_packet env ty (group_address (grp_mem st grp)) in
         if ty = IGMP_V2_MEMB_REPORT then
           log_event (PbufFree p)
             (log_event (IgmpOutput (netif_ip4_addr env) (group_address (grp_mem st grp)) p)
                (upd_group grp (\<lambda>g. g\<lparr>last_reporter_flag := 1\<rparr>) st0))
         else if ty = IGMP_LEAVE_GROUP then
           log_event (PbufFree p)
             (log_event (IgmpOutput (netif_ip4_addr env) allrouters p) st0)
         else log_event (PbufFree p) st0)
      else st0)"

definition igmp_start_timer :: "igmp_env \<Rightarrow> igmp_state \<Rightarrow> grp_ptr \<Rightarrow> u8 \<Rightarrow> igmp_state" where
  "igmp_start_timer env st grp max_time =
     (let (t, st1) =
        (if have_lwip_rand env then
           (if max_time > 2
            then (ucast (lwip_rand_seq env (rand_calls st) mod ucast max_time) :: u16,
                  st\<lparr>rand_calls := rand_calls st + 1\<rparr>)
            else (1, st))
         else (ucast (max_time div 2), st))
      in upd_group grp (\<lambda>g. g\<lparr>timer := (if t = 0 then 1 else t)\<rparr>) st1)"

definition igmp_delaying_member :: "igmp_env \<Rightarrow> igmp_state \<Rightarrow> grp_ptr \<Rightarrow> u8 \<Rightarrow> igmp_state" where
  "igmp_delaying_member env st grp maxresp =
     (if group_state (grp_mem st grp) = IGMP_GROUP_IDLE_MEMBER \<or>
         (group_state (grp_mem st grp) = IGMP_GROUP_DELAYING_MEMBER \<and>
          (timer (grp_mem st grp) = 0 \<or> ucast maxresp < timer (grp_mem st grp)))
      then upd_group grp (\<lambda>g. g\<lparr>group_state := IGMP_GROUP_DELAYING_MEMBER\<rparr>)
             (igmp_start_timer env st grp maxresp)
      else st)"

definition igmp_timeout :: "igmp_env \<Rightarrow> igmp_state \<Rightarrow> grp_ptr \<Rightarrow> igmp_state" where
  "igmp_timeout env st grp =
     (if group_state (grp_mem st grp) = IGMP_GROUP_DELAYING_MEMBER \<and>
         \<not> ip4_addr_cmp (group_address (grp_mem st grp)) allsystems
      then igmp_send env (upd_group grp (\<lambda>g. g\<lparr>group_state := IGMP_GROUP_IDLE_MEMBER\<rparr>) st)
             grp IGMP_V2_MEMB_REPORT
      else st)"

text \<open>\<^verbatim>\<open>igmp_tmr\<close>, for one interface: the walk over its group list.\<close>

fun igmp_tmr_groups :: "igmp_env \<Rightarrow> igmp_state \<Rightarrow> grp_ptr list \<Rightarrow> igmp_state" where
  "igmp_tmr_groups env st [] = st"
| "igmp_tmr_groups env st (grp # rest) =
     igmp_tmr_groups env
       (if timer (grp_mem st grp) > 0 then
          (let st1 = upd_group grp (\<lambda>g. g\<lparr>timer := timer g - 1\<rparr>) st in
           if timer (grp_mem st1 grp) = 0 then igmp_timeout env st1 grp else st1)
        else st)
       rest"

definition igmp_tmr :: "igmp_env \<Rightarrow> igmp_state \<Rightarrow> igmp_state" where
  "igmp_tmr env st = igmp_tmr_groups env st (igmp_groups st)"

subsection \<open>Start, join, leave\<close>

definition igmp_start :: "igmp_env \<Rightarrow> igmp_state \<Rightarrow> LwipStatus \<times> igmp_state" where
  "igmp_start env st =
     (case igmp_lookup_group env st allsystems of
        (Some grp, st1) \<Rightarrow>
          (let st2 = upd_group grp
                       (\<lambda>g. g\<lparr>group_state := IGMP_GROUP_IDLE_MEMBER, use := use g + 1\<rparr>) st1
           in (ERR_OK, if igmp_mac_filter env
                       then log_event (MacFilter allsystems NETIF_ADD_MAC_FILTER) st2 else st2))
      | (None, st1) \<Rightarrow> (ERR_MEM, st1))"

definition igmp_joingroup_netif :: "igmp_env \<Rightarrow> igmp_state \<Rightarrow> u32 \<Rightarrow> LwipStatus \<times> igmp_state"
  where
  "igmp_joingroup_netif env st groupaddr =
     (case igmp_lookup_group env st groupaddr of
        (Some grp, st1) \<Rightarrow>
          (let st2 =
             (if group_state (grp_mem st1 grp) \<noteq> IGMP_GROUP_NON_MEMBER then st1
              else
                (let sta = (if use (grp_mem st1 grp) = 0 \<and> igmp_mac_filter env
                            then log_event (MacFilter groupaddr NETIF_ADD_MAC_FILTER) st1
                            else st1);
                     stb = igmp_send env sta grp IGMP_V2_MEMB_REPORT;
                     stc = igmp_start_timer env stb grp (IGMP_JOIN_DELAYING_MEMBER_TMR env)
                 in upd_group grp (\<lambda>g. g\<lparr>group_state := IGMP_GROUP_DELAYING_MEMBER\<rparr>) stc))
           in (ERR_OK, upd_group grp (\<lambda>g. g\<lparr>use := use g + 1\<rparr>) st2))
      | (None, st1) \<Rightarrow> (ERR_MEM, st1))"

definition igmp_leavegroup_netif :: "igmp_env \<Rightarrow> igmp_state \<Rightarrow> u32 \<Rightarrow> LwipStatus \<times> igmp_state"
  where
  "igmp_leavegroup_netif env st groupaddr =
     (case igmp_lookfor_group st groupaddr of
        Some grp \<Rightarrow>
          (if use (grp_mem st grp) \<le> 1 then
             (let st1 = snd (igmp_remove_group st grp);
                  st2 = (if last_reporter_flag (grp_mem st1 grp) \<noteq> 0
                         then igmp_send env st1 grp IGMP_LEAVE_GROUP else st1);
                  st3 = (if igmp_mac_filter env
                         then log_event (MacFilter groupaddr NETIF_DEL_MAC_FILTER) st2 else st2)
              in (ERR_OK, st3\<lparr>grp_allocated := grp_allocated st3 - {grp}\<rparr>))
           else (ERR_OK, upd_group grp (\<lambda>g. g\<lparr>use := use g - 1\<rparr>) st))
      | None \<Rightarrow> (ERR_VAL, st))"

subsection \<open>Input\<close>

fun igmp_delaying_members :: "igmp_env \<Rightarrow> igmp_state \<Rightarrow> u8 \<Rightarrow> grp_ptr list \<Rightarrow> igmp_state" where
  "igmp_delaying_members env st maxresp [] = st"
| "igmp_delaying_members env st maxresp (groupref # rest) =
     igmp_delaying_members env (igmp_delaying_member env st groupref maxresp) maxresp rest"

text \<open>
  \<^verbatim>\<open>igmp_input\<close>. For a general query with maximum response time 0 the code writes
  \<^verbatim>\<open>IGMP_V1_DELAYING_MEMBER_TMR\<close> into the message before using it; the buffer freed at
  the end is the received one, named here by its contents on entry.
\<close>

definition igmp_input :: "igmp_env \<Rightarrow> igmp_state \<Rightarrow> PacketBuffer \<Rightarrow> u32 \<Rightarrow> igmp_state" where
  "igmp_input env st p dest =
     (if length (pb_payload p) < kIgmpMinlen then log_event (PbufFree p) st
      else if inet_chksum env (pb_payload p) \<noteq> 0 then log_event (PbufFree p) st
      else
        (let igmp = igmp_msg_of (pb_payload p) in
         case igmp_lookfor_group st dest of
           None \<Rightarrow> log_event (PbufFree p) st
         | Some grp \<Rightarrow>
             log_event (PbufFree p)
               (if igmp_msgtype igmp = IGMP_MEMB_QUERY then
                  (if ip4_addr_cmp dest allsystems \<and> ip4_addr_isany (igmp_group_address igmp)
                   then
                     igmp_delaying_members env st
                       (if igmp_maxresp igmp = 0 then IGMP_V1_DELAYING_MEMBER_TMR env
                        else igmp_maxresp igmp)
                       (tl (igmp_groups st))
                   else if \<not> ip4_addr_isany (igmp_group_address igmp) then
                     (case (if ip4_addr_cmp dest allsystems
                            then igmp_lookfor_group st (igmp_group_address igmp)
                            else Some grp) of
                        Some grp' \<Rightarrow> igmp_delaying_member env st grp' (igmp_maxresp igmp)
                      | None \<Rightarrow> st)
                   else st)
                else if igmp_msgtype igmp = IGMP_V2_MEMB_REPORT then
                  (if group_state (grp_mem st grp) = IGMP_GROUP_DELAYING_MEMBER
                   then upd_group grp
                          (\<lambda>g. g\<lparr>timer := 0, group_state := IGMP_GROUP_IDLE_MEMBER,
                                 last_reporter_flag := 0\<rparr>) st
                   else st)
                else st)))"


subsection \<open>Example interface\<close>

definition grp0 :: IgmpGroup where
  "grp0 = \<lparr>group_address = 0, last_reporter_flag = 0, group_state = IGMP_GROUP_NON_MEMBER,
     timer = 0, use = 0\<rparr>"

definition ienv :: igmp_env where
  "ienv = \<lparr>igmp_mac_filter = True, netif_ip4_addr = 0xc0000203, have_lwip_rand = True,
     lwip_rand_seq = (\<lambda>n. of_nat n), pbuf_alloc_seq = (\<lambda>n. True),
     new_group_seq = (\<lambda>n. Some (n + 1)), inet_chksum = (\<lambda>bs. 0),
     IGMP_JOIN_DELAYING_MEMBER_TMR = 5, IGMP_V1_DELAYING_MEMBER_TMR = 10\<rparr>"

definition ienv_nomem :: igmp_env where
  "ienv_nomem = ienv\<lparr>pbuf_alloc_seq := (\<lambda>n. False)\<rparr>"

definition ist_empty :: igmp_state where
  "ist_empty = \<lparr>igmp_groups = [], grp_mem = (\<lambda>_. grp0), grp_allocated = {}, rand_calls = 0,
     pbuf_allocs = 0, group_news = 0, igmp_log = []\<rparr>"

text \<open>IGMP started, and 239.1.2.3 joined once.\<close>

definition ist_started :: igmp_state where
  "ist_started = snd (igmp_start ienv ist_empty)"

definition ist_joined :: igmp_state where
  "ist_joined = snd (igmp_joingroup_netif ienv ist_started 0xef010203)"

text \<open>239.1.2.3 joined a second time.\<close>

definition ist_joined_twice :: igmp_state where
  "ist_joined_twice = snd (igmp_joingroup_netif ienv ist_joined 0xef010203)"

text \<open>A general query with maximum response time 10, sent to 224.0.0.1.\<close>

definition general_query :: PacketBuffer where
  "general_query = \<lparr>pb_payload = [0x11, 10, 0xee, 0xf5, 0, 0, 0, 0], pb_tot_len = 8,
     pb_flags = 0\<rparr>"

text \<open>
  The ticks \<^verbatim>\<open>igmp_start_timer\<close> sets for the bound 10 when \<^verbatim>\<open>lwip_rand\<close> returns
  0, 1, ..., 9.
\<close>

definition timer_ticks_for_10 :: "u16 list" where
  "timer_ticks_for_10 =
     map (\<lambda>k. timer (grp_mem (igmp_start_timer ienv (ist_joined\<lparr>rand_calls := k\<rparr>) 2 10) 2))
       [0, 1, 2, 3, 4, 5, 6, 7, 8, 9]"

subsection \<open>The first entry of the group list\<close>

text \<open>
  The invariant the code relies on ("Skip the first group in the list, it is always the
  allsystems group added in igmp_start()"): the group list is not empty, and its first
  entry is allocated, is not linked a second time, has the address 224.0.0.1 and a use
  count of at least 1.
\<close>

definition igmp_first_entry_inv :: "igmp_state \<Rightarrow> bool" where
  "igmp_first_entry_inv st =
     (case igmp_groups st of
        [] \<Rightarrow> False
      | h # rest \<Rightarrow> h \<in> grp_allocated st \<and> h \<notin> set rest \<and>
                    group_address (grp_mem st h) = allsystems \<and> 1 \<le> use (grp_mem st h))"

text \<open>Two states with the same list, allocation, group addresses and use counts.\<close>

definition same_membership :: "igmp_state \<Rightarrow> igmp_state \<Rightarrow> bool" where
  "same_membership st st' =
     (igmp_groups st' = igmp_groups st \<and> grp_allocated st' = grp_allocated st \<and>
      (\<forall>x. group_address (grp_mem st' x) = group_address (grp_mem st x) \<and>
           use (grp_mem st' x) = use (grp_mem st x)))"

section \<open>MS-CHAPv2 challenge hash (chap_ms.cpp)\<close>

text \<open>
  Modelled from the spec: \<^verbatim>\<open>SHA1_SIGNATURE_SIZE\<close> is defined outside the available
  sources; it is the length of a SHA-1 digest, 20 bytes.
\<close>

definition SHA1_SIGNATURE_SIZE :: nat where
  "SHA1_SIGNATURE_SIZE = 20"

text \<open>\<^verbatim>\<open>username.c_str()\<close> as \<^verbatim>\<open>strlen\<close> sees it: the bytes before the first NUL.\<close>

definition c_str :: "string \<Rightarrow> u8 list" where
  "c_str s = map of_char (takeWhile (\<lambda>c. c \<noteq> CHR 0x00) s)"

text \<open>
  \<^verbatim>\<open>challenge_hash\<close>, with SHA-1 (mbedtls, an external library) as the parameter
  \<open>sha1\<close>. The three updates feed 16 bytes of each challenge and the whole of \<open>user\<close>, which is
  the username as given: the removal of the domain is commented out in the source
  ("TODO: re-write to remove domain from username"). The copy takes
  \<^verbatim>\<open>SHA1_SIGNATURE_SIZE - 1\<close> bytes of the digest. The source builds the tuple
  \<^verbatim>\<open>(true, challenge)\<close> in its last statement without the \<^verbatim>\<open>return\<close> keyword; the
  model returns that tuple.
\<close>

definition challenge_hash ::
  "(u8 list \<Rightarrow> u8 list) \<Rightarrow> u8 list \<Rightarrow> u8 list \<Rightarrow> string \<Rightarrow> bool \<times> u8 list" where
  "challenge_hash sha1 peer_challenge rchallenge username =
     (let user = c_str username;
          sha1_hash = take SHA1_SIGNATURE_SIZE
                        (sha1 (take 16 peer_challenge @ take 16 rchallenge @ user));
          challenge = take (SHA1_SIGNATURE_SIZE - 1) sha1_hash
      in (True, challenge))"

text \<open>
  The specification's words, for comparison: the first 8 bytes of the SHA-1 of the two challenges
  and the username without its domain, the part after the last backslash.
\<close>

definition username_without_domain :: "string \<Rightarrow> string" where
  "username_without_domain s = rev (takeWhile (\<lambda>c. c \<noteq> CHR 0x5C) (rev s))"

definition challenge_hash_spec ::
  "(u8 list \<Rightarrow> u8 list) \<Rightarrow> u8 list \<Rightarrow> u8 list \<Rightarrow> string \<Rightarrow> u8 list" where
  "challenge_hash_spec sha1 peer_challenge server_challenge username =
     take 8 (sha1 (peer_challenge @ server_challenge @
                   map of_char (username_without_domain username)))"

definition domain_user :: string where
  "domain_user = ''DOMAIN'' @ [CHR 0x5C] @ ''user''"

text \<open>A stand-in digest that shows its input: the last 20 bytes of the message.\<close>

definition last20 :: "u8 list \<Rightarrow> u8 list" where
  "last20 bs = drop (length bs - 20) bs"

definition chal16 :: "u8 list" where
  "chal16 = [1, 2, 3, 4, 5, 6, 7, 8, 9, 10, 11, 12, 13, 14, 15, 16]"

section \<open>Ephemeral port selection\<close>

lemma udp_port_advance_range:
  assumes "UDP_LOCAL_PORT_RANGE_START \<le> p"
  shows "UDP_LOCAL_PORT_RANGE_START \<le> udp_port_advance p"
proof (cases "p = UDP_LOCAL_PORT_RANGE_END")
  case True
  then show ?thesis by (simp add: udp_port_advance_def)
next
  case False
  have lt: "unat p < 65536" using unsigned_less[of p, where ?'a=nat] by simp
  from False have ne: "unat p \<noteq> 65535"
    by (simp add: word_unat_eq_iff UDP_LOCAL_PORT_RANGE_END_def)
  have "unat (p + 1) = (unat p + 1) mod 65536" by (simp add: unat_word_ariths)
  with lt ne have "unat (p + 1) = unat p + 1" by simp
  with assms False show ?thesis
    by (simp add: udp_port_advance_def word_le_nat_alt)
qed

lemma range_start_nonzero: "UDP_LOCAL_PORT_RANGE_START \<le> p \<Longrightarrow> p \<noteq> 0"
  by (auto simp: UDP_LOCAL_PORT_RANGE_START_def)

text \<open>\<^verbatim>\<open>udp_init\<close> puts \<^verbatim>\<open>udp_port\<close> into the ephemeral range.\<close>

lemma udp_ensure_local_port_range:
  "UDP_LOCAL_PORT_RANGE_START \<le> UDP_ENSURE_LOCAL_PORT_RANGE port"
proof -
  have m: "NOT UDP_LOCAL_PORT_RANGE_START = (0x3fff :: u16)"
    by (simp add: UDP_LOCAL_PORT_RANGE_START_def)
  have "port AND 0x3fff \<le> (0x3fff :: u16)" by (rule word_and_le1)
  then have a: "unat (port AND 0x3fff) \<le> 16383" by (simp add: word_le_nat_alt)
  have "unat ((port AND 0x3fff) + 0xc000) = (unat (port AND 0x3fff) + 49152) mod 65536"
    by (simp add: unat_word_ariths)
  with a have "unat ((port AND 0x3fff) + 0xc000) = unat (port AND 0x3fff) + 49152" by simp
  moreover have "UDP_ENSURE_LOCAL_PORT_RANGE port = (port AND 0x3fff) + 0xc000"
    unfolding UDP_ENSURE_LOCAL_PORT_RANGE_def m
    by (simp add: UDP_LOCAL_PORT_RANGE_START_def)
  ultimately show ?thesis
    by (simp add: word_le_nat_alt UDP_LOCAL_PORT_RANGE_START_def)
qed

lemma udp_init_range: "UDP_LOCAL_PORT_RANGE_START \<le> udp_port (udp_init r st)"
  by (simp add: udp_init_def udp_ensure_local_port_range)

lemma udp_new_port_again_props:
  "UDP_LOCAL_PORT_RANGE_START \<le> p \<Longrightarrow> udp_new_port_again st p n = (r, p', n') \<Longrightarrow>
   UDP_LOCAL_PORT_RANGE_START \<le> p' \<and> (r \<noteq> 0 \<longrightarrow> r = p' \<and> \<not> port_in_list st r) \<and>
   (n \<le> 16383 \<longrightarrow> n' \<le> 16384)"
proof (induction st p n rule: udp_new_port_again.induct)
  case (1 st p n)
  let ?p = "udp_port_advance p"
  have rng: "UDP_LOCAL_PORT_RANGE_START \<le> ?p"
    using "1.prems"(1) by (rule udp_port_advance_range)
  show ?case
  proof (cases "port_in_list st ?p")
    case False
    with "1.prems"(2) rng show ?thesis
      by (auto simp add: Let_def udp_new_port_again.simps[of st p n])
  next
    case True
    show ?thesis
    proof (cases "n + 1 > unat UDP_LOCAL_PORT_RANGE_END - unat UDP_LOCAL_PORT_RANGE_START")
      case over: True
      with True "1.prems"(2) rng show ?thesis
        by (auto simp: Let_def udp_new_port_again.simps[of st p n]
            UDP_LOCAL_PORT_RANGE_END_def UDP_LOCAL_PORT_RANGE_START_def)
    next
      case under: False
      with True "1.prems"(2) have rec: "udp_new_port_again st ?p (n + 1) = (r, p', n')"
        by (simp add: Let_def udp_new_port_again.simps[of st p n])
      from under have "n + 1 \<le> 16383"
        by (simp add: UDP_LOCAL_PORT_RANGE_END_def UDP_LOCAL_PORT_RANGE_START_def)
      with "1.IH"[OF refl True under rng rec] show ?thesis by simp
    qed
  qed
qed

lemma udp_new_port_again_exhausted:
  "\<forall>q. UDP_LOCAL_PORT_RANGE_START \<le> q \<longrightarrow> port_in_list st q \<Longrightarrow>
   UDP_LOCAL_PORT_RANGE_START \<le> p \<Longrightarrow> fst (udp_new_port_again st p n) = 0"
proof (induction st p n rule: udp_new_port_again.induct)
  case (1 st p n)
  let ?p = "udp_port_advance p"
  have rng: "UDP_LOCAL_PORT_RANGE_START \<le> ?p"
    using "1.prems"(2) by (rule udp_port_advance_range)
  with "1.prems"(1) have used: "port_in_list st ?p" by blast
  show ?case
  proof (cases "n + 1 > unat UDP_LOCAL_PORT_RANGE_END - unat UDP_LOCAL_PORT_RANGE_START")
    case True
    with used show ?thesis by (simp add: Let_def udp_new_port_again.simps[of st p n])
  next
    case False
    with used "1.IH"[OF refl used False "1.prems"(1) rng] show ?thesis
      by (simp add: Let_def udp_new_port_again.simps[of st p n])
  qed
qed

lemma bind_finish_others:
  "ipcb \<noteq> pcb \<Longrightarrow> pcb_mem (bind_finish st pcb a p rb) ipcb = pcb_mem st ipcb"
  by (simp add: bind_finish_def Let_def)

lemma bind_finish_self:
  "local_port (pcb_mem (bind_finish st pcb a p rb) pcb) = p \<and>
   local_ip (pcb_mem (bind_finish st pcb a p rb) pcb) = a"
  by (simp add: bind_finish_def Let_def)

lemma bind_finish_list:
  "udp_pcbs (bind_finish st pcb a p rb) = (if rb then udp_pcbs st else pcb # udp_pcbs st)"
  by (simp add: bind_finish_def Let_def)

lemma bind_finish_port: "udp_port (bind_finish st pcb a p rb) = udp_port st"
  by (simp add: bind_finish_def Let_def)

text \<open>The candidates of the search run through the whole range, so a free port is found.\<close>

lemma unat_udp_port_advance:
  assumes "UDP_LOCAL_PORT_RANGE_START \<le> p"
  shows "unat (udp_port_advance p) = 49152 + (unat p - 49152 + 1) mod 16384"
proof -
  have lo: "49152 \<le> unat p"
    using assms by (simp add: word_le_nat_alt UDP_LOCAL_PORT_RANGE_START_def)
  have hi: "unat p < 65536" using unsigned_less[of p, where ?'a=nat] by simp
  show ?thesis
  proof (cases "p = UDP_LOCAL_PORT_RANGE_END")
    case True
    then show ?thesis
      by (simp add: udp_port_advance_def UDP_LOCAL_PORT_RANGE_END_def
          UDP_LOCAL_PORT_RANGE_START_def)
  next
    case False
    then have ne: "unat p \<noteq> 65535"
      by (simp add: word_unat_eq_iff UDP_LOCAL_PORT_RANGE_END_def)
    have "unat (p + 1) = (unat p + 1) mod 65536" by (simp add: unat_word_ariths)
    with hi ne have "unat (p + 1) = unat p + 1" by simp
    moreover from lo hi ne have "(unat p - 49152 + 1) mod 16384 = unat p - 49152 + 1" by simp
    ultimately show ?thesis using False lo by (simp add: udp_port_advance_def)
  qed
qed

lemma unat_udp_port_advance_funpow:
  assumes "UDP_LOCAL_PORT_RANGE_START \<le> p"
  shows "UDP_LOCAL_PORT_RANGE_START \<le> (udp_port_advance ^^ k) p \<and>
         unat ((udp_port_advance ^^ k) p) = 49152 + (unat p - 49152 + k) mod 16384"
proof (induction k)
  case 0
  have lo: "49152 \<le> unat p"
    using assms by (simp add: word_le_nat_alt UDP_LOCAL_PORT_RANGE_START_def)
  have hi: "unat p < 65536" using unsigned_less[of p, where ?'a=nat] by simp
  from lo hi have "(unat p - 49152) mod 16384 = unat p - 49152" by simp
  with assms lo show ?case by simp
next
  case (Suc k)
  let ?x = "(udp_port_advance ^^ k) p"
  from Suc have r: "UDP_LOCAL_PORT_RANGE_START \<le> ?x"
    and u: "unat ?x = 49152 + (unat p - 49152 + k) mod 16384" by auto
  have "unat (udp_port_advance ?x) = 49152 + (unat ?x - 49152 + 1) mod 16384"
    using r by (rule unat_udp_port_advance)
  also have "\<dots> = 49152 + ((unat p - 49152 + k) mod 16384 + 1) mod 16384"
    by (simp add: u)
  also have "\<dots> = 49152 + (unat p - 49152 + Suc k) mod 16384"
    by (simp add: mod_Suc_eq)
  finally show ?case using udp_port_advance_range[OF r] by simp
qed

lemma udp_port_advance_reaches:
  assumes p: "UDP_LOCAL_PORT_RANGE_START \<le> p" and q: "UDP_LOCAL_PORT_RANGE_START \<le> q"
  shows "\<exists>k. 1 \<le> k \<and> k \<le> 16384 \<and> (udp_port_advance ^^ k) p = q"
proof -
  have plo: "49152 \<le> unat p"
    using p by (simp add: word_le_nat_alt UDP_LOCAL_PORT_RANGE_START_def)
  have phi: "unat p < 65536" using unsigned_less[of p, where ?'a=nat] by simp
  have qlo: "49152 \<le> unat q"
    using q by (simp add: word_le_nat_alt UDP_LOCAL_PORT_RANGE_START_def)
  have qhi: "unat q < 65536" using unsigned_less[of q, where ?'a=nat] by simp
  define a where "a = unat p - 49152"
  define b where "b = unat q - 49152"
  define k where "k = (if a < b then b - a else 16384 + b - a)"
  have ab: "a < 16384" "b < 16384" using plo phi qlo qhi by (simp_all add: a_def b_def)
  have k1: "1 \<le> k" and k2: "k \<le> 16384" using ab by (auto simp: k_def)
  have "(a + k) mod 16384 = b"
  proof (cases "a < b")
    case True
    then have "a + k = b" by (simp add: k_def)
    with ab show ?thesis by simp
  next
    case False
    then have "a + k = 16384 + b" using ab by (simp add: k_def)
    with ab show ?thesis by simp
  qed
  then have "unat ((udp_port_advance ^^ k) p) = 49152 + b"
    using unat_udp_port_advance_funpow[OF p, of k] by (simp add: a_def)
  also have "\<dots> = unat q" using qlo by (simp add: b_def)
  finally have "(udp_port_advance ^^ k) p = q" by (simp add: word_unat_eq_iff)
  with k1 k2 show ?thesis by blast
qed

lemma udp_new_port_again_finds:
  "UDP_LOCAL_PORT_RANGE_START \<le> p \<Longrightarrow> 1 \<le> k \<Longrightarrow> n + k \<le> 16384 \<Longrightarrow>
   \<not> port_in_list st ((udp_port_advance ^^ k) p) \<Longrightarrow>
   fst (udp_new_port_again st p n) \<noteq> 0"
proof (induction st p n arbitrary: k rule: udp_new_port_again.induct)
  case (1 st p n)
  let ?p = "udp_port_advance p"
  have rng: "UDP_LOCAL_PORT_RANGE_START \<le> ?p"
    using "1.prems"(1) by (rule udp_port_advance_range)
  show ?case
  proof (cases "port_in_list st ?p")
    case False
    with rng range_start_nonzero show ?thesis
      by (simp add: Let_def udp_new_port_again.simps[of st p n])
  next
    case True
    with "1.prems"(4) have "k \<noteq> 1" by auto
    with "1.prems"(2) obtain j where k: "k = Suc j" and j: "1 \<le> j" by (cases k) auto
    from "1.prems"(3) k j have under:
      "\<not> n + 1 > unat UDP_LOCAL_PORT_RANGE_END - unat UDP_LOCAL_PORT_RANGE_START"
      by (simp add: UDP_LOCAL_PORT_RANGE_END_def UDP_LOCAL_PORT_RANGE_START_def)
    have free: "\<not> port_in_list st ((udp_port_advance ^^ j) ?p)"
      using "1.prems"(4) by (simp add: k funpow_swap1)
    have "n + 1 + j \<le> 16384" using "1.prems"(3) k by simp
    from "1.IH"[OF refl True under rng j this free] True under show ?thesis
      by (simp add: Let_def udp_new_port_again.simps[of st p n])
  qed
qed

lemma udp_new_port_succeeds:
  assumes "UDP_LOCAL_PORT_RANGE_START \<le> udp_port st"
    and "UDP_LOCAL_PORT_RANGE_START \<le> q" "\<not> port_in_list st q"
  shows "fst (udp_new_port st) \<noteq> 0"
proof -
  from udp_port_advance_reaches[OF assms(1,2)]
  obtain k where "1 \<le> k" "k \<le> 16384" "(udp_port_advance ^^ k) (udp_port st) = q" by blast
  with assms(3) udp_new_port_again_finds[OF assms(1), of k 0 st]
  have "fst (udp_new_port_again st (udp_port st) 0) \<noteq> 0" by simp
  then show ?thesis by (auto simp add: udp_new_port_def split: prod.splits)
qed


lemma udp_bind_ephemeral_succeeds:
  assumes "UDP_LOCAL_PORT_RANGE_START \<le> udp_port st"
    and "UDP_LOCAL_PORT_RANGE_START \<le> q" "\<not> port_in_list st q"
  shows "fst (udp_bind sel st pcb ipaddr 0) = ERR_OK"
  using udp_new_port_succeeds[OF assms]
  by (auto simp add: udp_bind_def Let_def split: prod.splits)

text \<open>
  C3: a bind with port 0, started with \<^verbatim>\<open>udp_port\<close> inside the ephemeral range
  (which \<^verbatim>\<open>udp_init\<close> and \<^verbatim>\<open>udp_new_port\<close> maintain), either succeeds with a
  local port in [49152, 65535] that no other endpoint of the list holds, or returns
  \<^verbatim>\<open>ERR_USE\<close> and leaves the list and the endpoints as they were. The search counts at
  most 16384 failed candidates; it fails when every port of the range is bound, and only
  then.
\<close>

theorem udp_bind_ephemeral_port:
  assumes rng: "UDP_LOCAL_PORT_RANGE_START \<le> udp_port st"
    and bind: "udp_bind sel st pcb ipaddr 0 = (err, st')"
  shows "(err = ERR_OK \<longrightarrow>
            49152 \<le> unat (local_port (pcb_mem st' pcb)) \<and>
            unat (local_port (pcb_mem st' pcb)) \<le> 65535 \<and>
            pcb \<in> set (udp_pcbs st') \<and>
            (\<forall>ipcb \<in> set (udp_pcbs st'). ipcb \<noteq> pcb \<longrightarrow>
               local_port (pcb_mem st' ipcb) \<noteq> local_port (pcb_mem st' pcb))) \<and>
         (err \<noteq> ERR_OK \<longrightarrow> err = ERR_USE \<and> udp_pcbs st' = udp_pcbs st \<and>
            pcb_mem st' = pcb_mem st) \<and>
         snd (snd (udp_new_port_again st (udp_port st) 0)) \<le> 16384 \<and>
         ((\<forall>q. UDP_LOCAL_PORT_RANGE_START \<le> q \<longrightarrow> port_in_list st q) \<longrightarrow> err = ERR_USE) \<and>
         ((\<exists>q. UDP_LOCAL_PORT_RANGE_START \<le> q \<and> \<not> port_in_list st q) \<longrightarrow> err = ERR_OK) \<and>
         UDP_LOCAL_PORT_RANGE_START \<le> udp_port st'"
proof -
  obtain r p' n' where loop: "udp_new_port_again st (udp_port st) 0 = (r, p', n')"
    by (cases "udp_new_port_again st (udp_port st) 0") auto
  from udp_new_port_again_props[OF rng loop]
  have p': "UDP_LOCAL_PORT_RANGE_START \<le> p'"
    and r: "r \<noteq> 0 \<Longrightarrow> r = p' \<and> \<not> port_in_list st r"
    and n': "n' \<le> 16384" by auto
  let ?st1 = "st\<lparr>udp_port := p'\<rparr>"
  let ?rb = "list_ex (\<lambda>ipcb. pcb = ipcb) (udp_pcbs st)"
  let ?z = "bind_zoned_ipaddr sel ipaddr"
  have np: "udp_new_port st = (r, ?st1)" by (simp add: udp_new_port_def loop)
  have bound: "snd (snd (udp_new_port_again st (udp_port st) 0)) \<le> 16384"
    using n' by (simp add: loop)
  have exh: "(\<forall>q. UDP_LOCAL_PORT_RANGE_START \<le> q \<longrightarrow> port_in_list st q) \<longrightarrow> r = 0"
    using udp_new_port_again_exhausted[OF _ rng, of st 0] by (simp add: loop)
  have fnd: "(\<exists>q. UDP_LOCAL_PORT_RANGE_START \<le> q \<and> \<not> port_in_list st q) \<longrightarrow> r \<noteq> 0"
    using udp_new_port_succeeds[OF rng] by (auto simp: np)
  show ?thesis
  proof (cases "r = 0")
    case True
    with bind np have "err = ERR_USE" "st' = ?st1" by (simp_all add: udp_bind_def Let_def)
    with bound p' fnd True show ?thesis by simp
  next
    case False
    with bind np have e: "err = ERR_OK" and s: "st' = bind_finish ?st1 pcb ?z r ?rb"
      by (simp_all add: udp_bind_def Let_def)
    from r[OF False] have rp: "r = p'" and free: "\<not> port_in_list st r" by auto
    have "unat UDP_LOCAL_PORT_RANGE_START \<le> unat r" using p' rp by (simp add: word_le_nat_alt)
    then have lo: "49152 \<le> unat r" by (simp add: UDP_LOCAL_PORT_RANGE_START_def)
    have hi: "unat r \<le> 65535" using unsigned_less[of r, where ?'a=nat] by simp
    have mem: "pcb \<in> set (udp_pcbs st')"
      by (auto simp: s bind_finish_list list_ex_iff)
    have others: "\<forall>ipcb \<in> set (udp_pcbs st'). ipcb \<noteq> pcb \<longrightarrow>
               local_port (pcb_mem st' ipcb) \<noteq> local_port (pcb_mem st' pcb)"
      using free by (auto simp: s bind_finish_list bind_finish_others bind_finish_self
          port_in_list_def list_ex_iff split: if_splits)
    from e lo hi mem others bound exh False p' rp show ?thesis
      by (simp add: s bind_finish_self bind_finish_port)
  qed
qed

lemma set_all_ephemeral: "set all_ephemeral = {49152..<65536}"
  unfolding all_ephemeral_def by (rule set_upt)

lemma st_full_ports: "UDP_LOCAL_PORT_RANGE_START \<le> q \<Longrightarrow> port_in_list st_full q"
proof -
  assume "UDP_LOCAL_PORT_RANGE_START \<le> q"
  then have "49152 \<le> unat q" by (simp add: word_le_nat_alt UDP_LOCAL_PORT_RANGE_START_def)
  moreover have "unat q < 65536" using unsigned_less[of q, where ?'a=nat] by simp
  ultimately have "unat q \<in> set all_ephemeral" by (simp add: set_all_ephemeral)
  moreover have "(of_nat (unat q) :: u16) = q" by simp
  ultimately show ?thesis
    unfolding port_in_list_def list_ex_iff st_full_def
    by (intro bexI[of _ "unat q"]) simp_all
qed

lemmas udp_eval_simps = udp_bind_def udp_new_port_def udp_new_port_again.simps Let_def
  port_in_list_def udp_port_advance_def bind_finish_def bind_zoned_ipaddr_def
  bind_conflict_def ip_get_option_def
  UDP_LOCAL_PORT_RANGE_START_def UDP_LOCAL_PORT_RANGE_END_def no_zone_sel_def pcb0_def


theorem udp_bind_ephemeral_port_witness:
  "fst (udp_bind no_zone_sel st_one 2 None 0) = ERR_OK \<and>
   local_port (pcb_mem (snd (udp_bind no_zone_sel st_one 2 None 0)) 2) = 0xc002 \<and>
   udp_pcbs (snd (udp_bind no_zone_sel st_one 2 None 0)) = [2, 1] \<and>
   fst (udp_bind no_zone_sel st_full 7 None 0) = ERR_USE \<and>
   udp_pcbs (snd (udp_bind no_zone_sel st_full 7 None 0)) = udp_pcbs st_full"
proof -
  have r1: "UDP_LOCAL_PORT_RANGE_START \<le> udp_port st_one"
    by (simp add: st_one_def UDP_LOCAL_PORT_RANGE_START_def)
  have r2: "UDP_LOCAL_PORT_RANGE_START \<le> udp_port st_full"
    by (simp add: st_full_def UDP_LOCAL_PORT_RANGE_START_def)
  have ev: "fst (udp_bind no_zone_sel st_one 2 None 0) = ERR_OK \<and>
   local_port (pcb_mem (snd (udp_bind no_zone_sel st_one 2 None 0)) 2) = 0xc002 \<and>
   udp_pcbs (snd (udp_bind no_zone_sel st_one 2 None 0)) = [2, 1]"
    by (simp add: udp_eval_simps st_one_def)
  obtain e1 s1 where b1: "udp_bind no_zone_sel st_one 2 None 0 = (e1, s1)"
    by (cases "udp_bind no_zone_sel st_one 2 None 0") auto
  obtain e2 s2 where b2: "udp_bind no_zone_sel st_full 7 None 0 = (e2, s2)"
    by (cases "udp_bind no_zone_sel st_full 7 None 0") auto
  from udp_bind_ephemeral_port[OF r1 b1] ev b1
  have "49152 \<le> unat (local_port (pcb_mem s1 2))" by simp
  from udp_bind_ephemeral_port[OF r2 b2] st_full_ports
  have "e2 = ERR_USE \<and> udp_pcbs s2 = udp_pcbs st_full" by auto
  with ev b2 show ?thesis by simp
qed

section \<open>Interface address change\<close>

lemma addr_changed_loop_char:
  "addr_changed_loop old new ps mem p =
     (if p \<in> set ps \<and> compare_ip_addr (local_ip (mem p)) old
      then (mem p)\<lparr>local_ip := new\<rparr> else mem p)"
proof (induction ps arbitrary: mem)
  case Nil
  show ?case by simp
next
  case (Cons u rest)
  show ?case by (auto simp: Cons.IH)
qed

text \<open>
  C10: when both addresses are not the any-address, exactly the endpoints of the list
  whose local address compares equal to the old address get the new address as their
  local address, every other field of every endpoint and every other endpoint stay as
  they were, and so do the list and \<^verbatim>\<open>udp_port\<close>; when either address is the
  any-address the state is unchanged.
\<close>

theorem udp_netif_ip_addr_changed_frame:
  "(\<not> is_ip_addr_any old_addr \<and> \<not> is_ip_addr_any new_addr \<longrightarrow>
      (\<forall>p. pcb_mem (udp_netif_ip_addr_changed old_addr new_addr st) p =
         (if p \<in> set (udp_pcbs st) \<and> compare_ip_addr (local_ip (pcb_mem st p)) old_addr
          then (pcb_mem st p)\<lparr>local_ip := new_addr\<rparr> else pcb_mem st p))) \<and>
   (is_ip_addr_any old_addr \<or> is_ip_addr_any new_addr \<longrightarrow>
      udp_netif_ip_addr_changed old_addr new_addr st = st) \<and>
   udp_pcbs (udp_netif_ip_addr_changed old_addr new_addr st) = udp_pcbs st \<and>
   udp_port (udp_netif_ip_addr_changed old_addr new_addr st) = udp_port st"
  by (simp add: udp_netif_ip_addr_changed_def addr_changed_loop_char)

theorem udp_netif_ip_addr_changed_frame_witness:
  "\<not> is_ip_addr_any (IpV4 0xc0000203) \<and> \<not> is_ip_addr_any (IpV4 0xc0000209) \<and>
   pcb_mem (udp_netif_ip_addr_changed (IpV4 0xc0000203) (IpV4 0xc0000209) st_addr) 1 =
     pcb0\<lparr>local_ip := IpV4 0xc0000209, local_port := 5000, so_options := 4\<rparr> \<and>
   pcb_mem (udp_netif_ip_addr_changed (IpV4 0xc0000203) (IpV4 0xc0000209) st_addr) 2 =
     pcb0\<lparr>local_ip := IpV4 0x0a000001, local_port := 5001\<rparr> \<and>
   is_ip_addr_any (IpV4 0) \<and>
   udp_netif_ip_addr_changed (IpV4 0) (IpV4 0xc0000209) st_addr = st_addr"
  using udp_netif_ip_addr_changed_frame[of "IpV4 0xc0000203" "IpV4 0xc0000209" st_addr]
    udp_netif_ip_addr_changed_frame[of "IpV4 0" "IpV4 0xc0000209" st_addr]
  by (simp add: is_ip_addr_any_def ip4_addr_isany_def compare_ip_addr_def ip4_addr_cmp_def
      st_addr_def pcb0_def)

section \<open>Repeated bind\<close>

text \<open>A bound endpoint has a non-zero local port.\<close>

lemma udp_bind_port_nonzero:
  assumes "udp_bind sel st pcb ipaddr port = (ERR_OK, st1)"
  shows "local_port (pcb_mem st1 pcb) \<noteq> 0"
proof (cases "port = 0")
  case False
  with assms show ?thesis
    by (auto simp: udp_bind_def Let_def bind_finish_self split: if_splits)
next
  case True
  obtain r s where np: "udp_new_port st = (r, s)" by (cases "udp_new_port st") auto
  with True assms show ?thesis
    by (auto simp: udp_bind_def Let_def bind_finish_self split: if_splits)
qed

lemma count_list_distinct_mem:
  "distinct xs \<Longrightarrow> x \<in> set xs \<Longrightarrow> count_list xs x = 1"
  by (induction xs) auto

lemma bind_conflict_after_finish:
  "bind_conflict (bind_finish st pcb z port rb) pcb z' port' ipcb = bind_conflict st pcb z' port' ipcb"
  by (auto simp: bind_conflict_def bind_finish_def Let_def ip_get_option_def)

lemma bind_finish_again:
  "pcb \<in> set (udp_pcbs st) \<or> \<not> rb \<Longrightarrow>
   bind_finish (bind_finish st pcb z port rb) pcb z port True = bind_finish st pcb z port rb"
  by (auto simp: bind_finish_def Let_def)

lemma bind_finish_same:
  "pcb \<in> set (udp_pcbs st) \<Longrightarrow> local_ip (pcb_mem st pcb) = z \<Longrightarrow>
   local_port (pcb_mem st pcb) = port \<Longrightarrow> bind_finish st pcb z port True = st"
  by (auto simp: bind_finish_def Let_def)

lemma udp_new_port_again_free:
  "udp_new_port_again st p n = (r, p', n') \<Longrightarrow> r \<noteq> 0 \<Longrightarrow> \<not> port_in_list st r"
proof (induction st p n rule: udp_new_port_again.induct)
  case (1 st p n)
  let ?p = "udp_port_advance p"
  show ?case
  proof (cases "port_in_list st ?p")
    case False
    with "1.prems" show ?thesis
      by (auto simp add: Let_def udp_new_port_again.simps[of st p n])
  next
    case True
    show ?thesis
    proof (cases "n + 1 > unat UDP_LOCAL_PORT_RANGE_END - unat UDP_LOCAL_PORT_RANGE_START")
      case over: True
      with True "1.prems" show ?thesis
        by (auto simp: Let_def udp_new_port_again.simps[of st p n])
    next
      case under: False
      with True "1.prems"(1) have rec: "udp_new_port_again st ?p (n + 1) = (r, p', n')"
        by (simp add: Let_def udp_new_port_again.simps[of st p n])
      from "1.IH"[OF refl True under rec "1.prems"(2)] show ?thesis .
    qed
  qed
qed

lemma udp_bind_port0_moves:
  assumes listed: "pcb \<in> set (udp_pcbs st)"
    and bind: "udp_bind sel st pcb ipaddr 0 = (ERR_OK, st1)"
  shows "local_port (pcb_mem st1 pcb) \<noteq> local_port (pcb_mem st pcb) \<and>
         local_port (pcb_mem st1 pcb) \<noteq> 0 \<and> udp_pcbs st1 = udp_pcbs st"
proof -
  obtain r p' n' where loop: "udp_new_port_again st (udp_port st) 0 = (r, p', n')"
    by (cases "udp_new_port_again st (udp_port st) 0") auto
  let ?st1 = "st\<lparr>udp_port := p'\<rparr>"
  have np: "udp_new_port st = (r, ?st1)" by (simp add: udp_new_port_def loop)
  have rb: "list_ex (\<lambda>ipcb. pcb = ipcb) (udp_pcbs st)" using listed by (auto simp: list_ex_iff)
  from bind np rb have r0: "r \<noteq> 0"
    and s: "st1 = bind_finish ?st1 pcb (bind_zoned_ipaddr sel ipaddr) r True"
    by (auto simp: udp_bind_def Let_def split: if_splits)
  from udp_new_port_again_free[OF loop r0] listed
  have "r \<noteq> local_port (pcb_mem st pcb)"
    by (auto simp: port_in_list_def list_ex_iff)
  with r0 show ?thesis by (simp add: s bind_finish_self bind_finish_list)
qed

text \<open>
  C8 (amended): a bind of an endpoint that is in the endpoint list, to an address and a
  port that is not 0, never inserts a second entry. It returns \<^verbatim>\<open>ERR_USE\<close> and changes
  nothing when another endpoint of the list holds the port with an equal or any address
  (or the address asked for is the any address) and the two do not both have REUSEADDR
  set; otherwise it returns \<^verbatim>\<open>ERR_OK\<close> and sets the endpoint's local identity to the
  address (with the zone bind selects for a scoped IPv6 address that has none) and the
  port, so a listed endpoint that already has this identity and no such competitor is
  left exactly as it is. In particular, directly after a successful bind of an endpoint
  to an address and a non-zero port, the same bind again returns \<^verbatim>\<open>ERR_OK\<close> and changes
  nothing: the endpoint keeps the identity and occurs once in the list. A bind of a listed
  endpoint with port 0 that succeeds inserts no second entry either, but gives the
  endpoint a port other than the one it had.
\<close>

theorem udp_bind_idempotent:
  assumes wf: "distinct (udp_pcbs st)"
  shows "(port \<noteq> 0 \<longrightarrow>
         (pcb \<in> set (udp_pcbs st) \<longrightarrow>
            udp_bind sel st pcb ipaddr port =
              (if \<exists>ipcb \<in> set (udp_pcbs st). ipcb \<noteq> pcb \<and>
                    (\<not> ip_get_option (pcb_mem st pcb) SOF_REUSEADDR \<or>
                     \<not> ip_get_option (pcb_mem st ipcb) SOF_REUSEADDR) \<and>
                    local_port (pcb_mem st ipcb) = port \<and>
                    (compare_ip_addr (local_ip (pcb_mem st ipcb)) (bind_zoned_ipaddr sel ipaddr) \<or>
                     is_ip_addr_any (bind_zoned_ipaddr sel ipaddr) \<or>
                     is_ip_addr_any (local_ip (pcb_mem st ipcb)))
               then (ERR_USE, st)
               else (ERR_OK, st\<lparr>pcb_mem := (pcb_mem st)
                       (pcb := (pcb_mem st pcb)\<lparr>local_ip := bind_zoned_ipaddr sel ipaddr,
                                                 local_port := port\<rparr>)\<rparr>))) \<and>
         (pcb \<in> set (udp_pcbs st) \<and>
          local_ip (pcb_mem st pcb) = bind_zoned_ipaddr sel ipaddr \<and>
          local_port (pcb_mem st pcb) = port \<and>
          \<not> (\<exists>ipcb \<in> set (udp_pcbs st). ipcb \<noteq> pcb \<and>
                (\<not> ip_get_option (pcb_mem st pcb) SOF_REUSEADDR \<or>
                 \<not> ip_get_option (pcb_mem st ipcb) SOF_REUSEADDR) \<and>
                local_port (pcb_mem st ipcb) = port \<and>
                (compare_ip_addr (local_ip (pcb_mem st ipcb)) (bind_zoned_ipaddr sel ipaddr) \<or>
                 is_ip_addr_any (bind_zoned_ipaddr sel ipaddr) \<or>
                 is_ip_addr_any (local_ip (pcb_mem st ipcb)))) \<longrightarrow>
            udp_bind sel st pcb ipaddr port = (ERR_OK, st)) \<and>
         (udp_bind sel st pcb ipaddr port = (ERR_OK, st1) \<longrightarrow>
            udp_bind sel st1 pcb ipaddr port = (ERR_OK, st1) \<and>
            local_ip (pcb_mem st1 pcb) = bind_zoned_ipaddr sel ipaddr \<and>
            local_port (pcb_mem st1 pcb) = port \<and>
            ((\<forall>a. ipaddr = Some (IpV6 a) \<longrightarrow> \<not> ip6_addr_lacks_zone a IP6_UNKNOWN) \<longrightarrow>
               local_ip (pcb_mem st1 pcb) = (case ipaddr of None \<Rightarrow> IpV4 0 | Some a \<Rightarrow> a)) \<and>
            count_list (udp_pcbs st1) pcb = 1 \<and> distinct (udp_pcbs st1))) \<and>
         (pcb \<in> set (udp_pcbs st) \<and> udp_bind sel st pcb ipaddr 0 = (ERR_OK, st0) \<longrightarrow>
            local_port (pcb_mem st0 pcb) \<noteq> local_port (pcb_mem st pcb) \<and>
            local_port (pcb_mem st0 pcb) \<noteq> 0 \<and> udp_pcbs st0 = udp_pcbs st)"
    (is "(_ \<longrightarrow> ?A \<and> ?B \<and> ?C) \<and> ?D")
proof (rule conjI[OF impI])
  assume port: "port \<noteq> 0"
  let ?z = "bind_zoned_ipaddr sel ipaddr"
  let ?rb = "list_ex (\<lambda>ipcb. pcb = ipcb) (udp_pcbs st)"
  let ?conf = "\<exists>ipcb \<in> set (udp_pcbs st). ipcb \<noteq> pcb \<and>
                    (\<not> ip_get_option (pcb_mem st pcb) SOF_REUSEADDR \<or>
                     \<not> ip_get_option (pcb_mem st ipcb) SOF_REUSEADDR) \<and>
                    local_port (pcb_mem st ipcb) = port \<and>
                    (compare_ip_addr (local_ip (pcb_mem st ipcb)) ?z \<or>
                     is_ip_addr_any ?z \<or>
                     is_ip_addr_any (local_ip (pcb_mem st ipcb)))"
  have conf: "list_ex (bind_conflict st pcb ?z port) (udp_pcbs st) = ?conf"
    by (auto simp: list_ex_iff bind_conflict_def)
  have a: "pcb \<in> set (udp_pcbs st) \<longrightarrow>
            udp_bind sel st pcb ipaddr port =
              (if ?conf then (ERR_USE, st)
               else (ERR_OK, st\<lparr>pcb_mem := (pcb_mem st)
                       (pcb := (pcb_mem st pcb)\<lparr>local_ip := ?z, local_port := port\<rparr>)\<rparr>))"
    using port unfolding conf[symmetric]
    by (simp add: udp_bind_def Let_def bind_finish_def list_ex_iff)
  have b: "pcb \<in> set (udp_pcbs st) \<and> local_ip (pcb_mem st pcb) = ?z \<and>
          local_port (pcb_mem st pcb) = port \<and> \<not> ?conf \<longrightarrow>
            udp_bind sel st pcb ipaddr port = (ERR_OK, st)"
    using port bind_finish_same[of pcb st ?z port] unfolding conf[symmetric]
    by (auto simp: udp_bind_def Let_def list_ex_iff)
  have c: "udp_bind sel st pcb ipaddr port = (ERR_OK, st1) \<longrightarrow>
            udp_bind sel st1 pcb ipaddr port = (ERR_OK, st1) \<and>
            local_ip (pcb_mem st1 pcb) = ?z \<and>
            local_port (pcb_mem st1 pcb) = port \<and>
            ((\<forall>a. ipaddr = Some (IpV6 a) \<longrightarrow> \<not> ip6_addr_lacks_zone a IP6_UNKNOWN) \<longrightarrow>
               local_ip (pcb_mem st1 pcb) = (case ipaddr of None \<Rightarrow> IpV4 0 | Some a \<Rightarrow> a)) \<and>
            count_list (udp_pcbs st1) pcb = 1 \<and> distinct (udp_pcbs st1)"
  proof
    assume first: "udp_bind sel st pcb ipaddr port = (ERR_OK, st1)"
    from first port have noc: "\<not> list_ex (bind_conflict st pcb ?z port) (udp_pcbs st)"
      and st1: "st1 = bind_finish st pcb ?z port ?rb"
      by (auto simp: udp_bind_def Let_def split: if_splits)
    have lst: "udp_pcbs st1 = (if ?rb then udp_pcbs st else pcb # udp_pcbs st)"
      by (simp add: st1 bind_finish_list)
    have mem: "pcb \<in> set (udp_pcbs st1)" by (auto simp: lst list_ex_iff)
    then have rb1: "list_ex (\<lambda>ipcb. pcb = ipcb) (udp_pcbs st1)" by (auto simp: list_ex_iff)
    have dist: "distinct (udp_pcbs st1)" using wf by (auto simp: lst list_ex_iff)
    have same: "\<And>ipcb. bind_conflict st1 pcb ?z port ipcb = bind_conflict st pcb ?z port ipcb"
      by (simp add: st1 bind_conflict_after_finish)
    have self: "\<not> bind_conflict st pcb ?z port pcb" by (simp add: bind_conflict_def)
    have noc1: "\<not> list_ex (bind_conflict st1 pcb ?z port) (udp_pcbs st1)"
      using noc self by (auto simp: same lst list_ex_iff split: if_splits)
    have again: "bind_finish st1 pcb ?z port True = st1"
      unfolding st1 by (rule bind_finish_again) (auto simp: list_ex_iff)
    have second: "udp_bind sel st1 pcb ipaddr port = (ERR_OK, st1)"
      using port noc1 rb1 again by (simp add: udp_bind_def Let_def)
    have zone: "(\<forall>a. ipaddr = Some (IpV6 a) \<longrightarrow> \<not> ip6_addr_lacks_zone a IP6_UNKNOWN) \<longrightarrow>
        ?z = (case ipaddr of None \<Rightarrow> IpV4 0 | Some a \<Rightarrow> a)"
      by (auto simp: bind_zoned_ipaddr_def split: option.splits IpAddr.splits)
    have cnt: "count_list (udp_pcbs st1) pcb = 1"
      using dist mem by (rule count_list_distinct_mem)
    from second zone cnt dist show "udp_bind sel st1 pcb ipaddr port = (ERR_OK, st1) \<and>
            local_ip (pcb_mem st1 pcb) = ?z \<and>
            local_port (pcb_mem st1 pcb) = port \<and>
            ((\<forall>a. ipaddr = Some (IpV6 a) \<longrightarrow> \<not> ip6_addr_lacks_zone a IP6_UNKNOWN) \<longrightarrow>
               local_ip (pcb_mem st1 pcb) = (case ipaddr of None \<Rightarrow> IpV4 0 | Some a \<Rightarrow> a)) \<and>
            count_list (udp_pcbs st1) pcb = 1 \<and> distinct (udp_pcbs st1)"
      by (simp add: st1 bind_finish_self)
  qed
  from a b c show "?A \<and> ?B \<and> ?C" by (intro conjI)
next
  show ?D using udp_bind_port0_moves[of pcb st sel ipaddr st0] by blast
qed

theorem udp_bind_idempotent_witness:
  "(5000 :: u16) \<noteq> 0 \<and> distinct (udp_pcbs st_addr) \<and> 1 \<in> set (udp_pcbs st_addr) \<and>
   local_ip (pcb_mem st_addr 1) = IpV4 0xc0000203 \<and> local_port (pcb_mem st_addr 1) = 5000 \<and>
   udp_bind no_zone_sel st_addr 1 (Some (IpV4 0xc0000203)) 5000 = (ERR_OK, st_addr) \<and>
   distinct (udp_pcbs st_one) \<and>
   fst (udp_bind no_zone_sel st_one 2 (Some (IpV4 0xc0000203)) 5000) = ERR_OK \<and>
   udp_bind no_zone_sel (snd (udp_bind no_zone_sel st_one 2 (Some (IpV4 0xc0000203)) 5000))
      2 (Some (IpV4 0xc0000203)) 5000 =
     udp_bind no_zone_sel st_one 2 (Some (IpV4 0xc0000203)) 5000 \<and>
   udp_pcbs (snd (udp_bind no_zone_sel st_one 2 (Some (IpV4 0xc0000203)) 5000)) = [2, 1] \<and>
   2 \<in> set (udp_pcbs st_auto) \<and> local_port (pcb_mem st_auto 2) = 0xc002 \<and>
   fst (udp_bind no_zone_sel st_auto 2 None 0) = ERR_OK \<and>
   local_port (pcb_mem (snd (udp_bind no_zone_sel st_auto 2 None 0)) 2) \<noteq> 0xc002"
proof -
  have e1: "fst (udp_bind no_zone_sel st_one 2 (Some (IpV4 0xc0000203)) 5000) = ERR_OK"
    by (simp add: udp_eval_simps st_one_def)
  have l1: "udp_pcbs (snd (udp_bind no_zone_sel st_one 2 (Some (IpV4 0xc0000203)) 5000)) = [2, 1]"
    by (simp add: udp_eval_simps st_one_def)
  obtain s1 where b1: "udp_bind no_zone_sel st_one 2 (Some (IpV4 0xc0000203)) 5000 = (ERR_OK, s1)"
    using e1 by (cases "udp_bind no_zone_sel st_one 2 (Some (IpV4 0xc0000203)) 5000") auto
  have d1: "distinct (udp_pcbs st_one)" by (simp add: st_one_def)
  have p: "(5000 :: u16) \<noteq> 0" by simp
  have da: "distinct (udp_pcbs st_addr)" by (simp add: st_addr_def)
  have ia: "1 \<in> set (udp_pcbs st_addr)" "udp_pcbs st_addr = [1, 2]"
    "local_ip (pcb_mem st_addr 1) = IpV4 0xc0000203" "local_port (pcb_mem st_addr 1) = 5000"
    "local_port (pcb_mem st_addr 2) = 5001"
    "bind_zoned_ipaddr no_zone_sel (Some (IpV4 0xc0000203)) = IpV4 0xc0000203"
    by (simp_all add: st_addr_def bind_zoned_ipaddr_def)
  have ba: "udp_bind no_zone_sel st_addr 1 (Some (IpV4 0xc0000203)) 5000 = (ERR_OK, st_addr)"
    using udp_bind_idempotent[OF da, of 5000 1 no_zone_sel "Some (IpV4 0xc0000203)",
        THEN conjunct1, rule_format, OF p, THEN conjunct2, THEN conjunct1] ia
    by simp
  have au: "udp_pcbs st_auto = [2, 1]" "local_port (pcb_mem st_auto 2) = 0xc002"
    "fst (udp_bind no_zone_sel st_auto 2 None 0) = ERR_OK"
    by (simp_all add: st_auto_def st_one_def udp_eval_simps bind_finish_def
        bind_zoned_ipaddr_def pcb0_def port_in_list_def udp_port_advance_def
        UDP_LOCAL_PORT_RANGE_END_def UDP_LOCAL_PORT_RANGE_START_def)
  obtain s0 where b0: "udp_bind no_zone_sel st_auto 2 None 0 = (ERR_OK, s0)"
    using au(3) by (cases "udp_bind no_zone_sel st_auto 2 None 0") auto
  have dau: "distinct (udp_pcbs st_auto)" using au(1) by simp
  have mv: "local_port (pcb_mem (snd (udp_bind no_zone_sel st_auto 2 None 0)) 2) \<noteq> 0xc002"
    using udp_bind_idempotent[OF dau, of 5000 2 no_zone_sel None s0 s0, THEN conjunct2] b0 au
    by simp
  from udp_bind_idempotent[OF d1, of 5000 2 no_zone_sel "Some (IpV4 0xc0000203)" s1,
      THEN conjunct1, rule_format, OF p, THEN conjunct2, THEN conjunct2] e1 l1 b1 ba
    p d1 da ia au mv
  show ?thesis by simp
qed

text \<open>
  A second bind with port 0 moves the endpoint to the next free ephemeral port; and an
  endpoint of the list bound to 192.0.2.3, port 5000, can not be bound to that identity
  again once the address change of an interface has brought another endpoint to it.
\<close>

theorem udp_bind_rebind_counterexample:
  "fst (udp_bind no_zone_sel st_one 2 None 0) = ERR_OK \<and>
   udp_pcbs st_auto = [2, 1] \<and>
   local_ip (pcb_mem st_auto 2) = IpV4 0 \<and> local_port (pcb_mem st_auto 2) = 0xc002 \<and>
   fst (udp_bind no_zone_sel st_auto 2 None 0) = ERR_OK \<and>
   local_port (pcb_mem (snd (udp_bind no_zone_sel st_auto 2 None 0)) 2) = 0xc003 \<and>
   udp_pcbs st_moved = [2, 1] \<and>
   local_ip (pcb_mem st_moved 1) = IpV4 0xc0000203 \<and> local_port (pcb_mem st_moved 1) = 5000 \<and>
   udp_bind no_zone_sel st_moved 1 (Some (IpV4 0xc0000203)) 5000 = (ERR_USE, st_moved)"
  by (simp add: st_auto_def st_moved_def st_pair_def st_none_def st_one_def udp_eval_simps
        compare_ip_addr_def is_ip_addr_any_def udp_netif_ip_addr_changed_def
        ip4_addr_cmp_def ip4_addr_isany_def SOF_REUSEADDR_def bind_conflict_def bind_finish_def
        bind_zoned_ipaddr_def ip_get_option_def pcb0_def port_in_list_def udp_port_advance_def
        UDP_LOCAL_PORT_RANGE_END_def UDP_LOCAL_PORT_RANGE_START_def)

section \<open>UDP checksum on transmit\<close>

lemma udp_bind_flags:
  "udp_bind sel st pcb ipaddr port = (err, st1) \<Longrightarrow>
   flags (pcb_mem st1 pcb) = flags (pcb_mem st pcb)"
  by (auto simp: udp_bind_def udp_new_port_def bind_finish_def Let_def
      split: if_splits prod.splits)

lemma udp_sendto_sent:
  assumes "udp_sendto_if_src_chksum env sel st pcb p dst_ip dst_port have_chksum chksum src_ip
             = (err, st', Some tx)"
  shows "tx = udp_send_datagram env (pcb_mem st' pcb) p dst_ip dst_port have_chksum chksum
                src_ip \<and>
         flags (pcb_mem st' pcb) = flags (pcb_mem st pcb)"
proof -
  let ?b = "if local_port (pcb_mem st pcb) = 0
            then udp_bind sel st pcb (Some (local_ip (pcb_mem st pcb))) (local_port (pcb_mem st pcb))
            else (ERR_OK, st)"
  obtain e1 st1 where b: "?b = (e1, st1)" by (cases ?b) auto
  have fl: "flags (pcb_mem st1 pcb) = flags (pcb_mem st pcb)"
    using b udp_bind_flags by (auto split: if_splits)
  from assms have "(case ?b of (err, st1) \<Rightarrow>
             if err \<noteq> ERR_OK then (err, st1, None)
             else if pb_tot_len p + UDP_HLEN < pb_tot_len p then (ERR_MEM, st1, None)
             else if \<not> pbuf_add_header_ok env \<and> \<not> pbuf_alloc_ok env then (ERR_MEM, st1, None)
             else
               (let tx = udp_send_datagram env (pcb_mem st1 pcb) p dst_ip dst_port
                           have_chksum chksum src_ip
                in (ip_output_if_src env tx, st1, Some tx))) = (err, st', Some tx)"
    unfolding udp_sendto_if_src_chksum_def by (simp split: if_split_asm)
  then have "st' = st1"
    and "tx = udp_send_datagram env (pcb_mem st1 pcb) p dst_ip dst_port have_chksum chksum src_ip"
    unfolding b by (auto simp add: Let_def split: if_split_asm)
  with fl show ?thesis by simp
qed

lemma udp_send_datagram_chksum:
  "uh_chksum (tx_udphdr (udp_send_datagram env pcb1 p dst_ip dst_port have_chksum chksum src_ip)) =
     (if flags pcb1 AND UDP_FLAGS_UDPLITE = 0 then
        (if chksum_gen_udp env \<and> (IpIsV6 dst_ip \<or> flags pcb1 AND UDP_FLAGS_NOCHKSUM = 0) then
           (let hdr = \<lparr>uh_src = local_port pcb1, uh_dest = dst_port,
                       uh_len = pb_tot_len p + UDP_HLEN, uh_chksum = 0\<rparr>;
                c = (if have_chksum
                     then ucast (FOLD_U32T env
                            ((ucast (ip_chksum_pseudo_partial env hdr p IP_PROTO_UDP
                                       (pb_tot_len p + UDP_HLEN) UDP_HLEN src_ip dst_ip) :: u32) +
                             ucast (NOT chksum)))
                     else ip_chksum_pseudo env hdr p IP_PROTO_UDP (pb_tot_len p + UDP_HLEN)
                            src_ip dst_ip)
            in if c = 0 then 0xffff else c)
         else 0)
      else
        (if chksum_gen_udplite env then
           (let illegal = (chksum_len_tx pcb1 < 8 \<or> pb_tot_len p + UDP_HLEN < chksum_len_tx pcb1);
                hdr = \<lparr>uh_src = local_port pcb1, uh_dest = dst_port,
                       uh_len = (if illegal then 0 else chksum_len_tx pcb1), uh_chksum = 0\<rparr>;
                c0 = ip_chksum_pseudo_partial env hdr p IP_PROTO_UDPLITE (pb_tot_len p + UDP_HLEN)
                       (if have_chksum then UDP_HLEN
                        else if illegal then pb_tot_len p + UDP_HLEN else chksum_len_tx pcb1)
                       src_ip dst_ip;
                c = (if have_chksum
                     then ucast (FOLD_U32T env ((ucast c0 :: u32) + ucast (NOT chksum)))
                     else c0)
            in if c = 0 then 0xffff else c)
         else 0))"
  by (simp add: udp_send_datagram_def udp_branch_hdr_def udplite_branch_hdr_def
      udp_computed_chksum_def udplite_computed_chksum_def add_partial_chksum_def
      chksum_zero_to_ffff_def Let_def)

text \<open>
  C1 (amended): for a datagram handed to IP by the send path, the checksum field is
  determined by the endpoint as it is when the datagram is sent (the send leaves the
  endpoint's flags as they were), the destination and the checksum generation setting of
  the outgoing interface.

  \<^item> UDP endpoint, checksum generation enabled, and the destination is IPv6 or the
    endpoint's NOCHKSUM flag is clear: the field is the pseudo-header checksum over the
    datagram (with a caller-supplied partial checksum folded in when there is one), and
    a computed 0x0000 is replaced by 0xFFFF, so the field is not 0.
  \<^item> UDP endpoint, checksum generation enabled, NOCHKSUM set and a destination that is not
    IPv6: the field is 0.
  \<^item> UDP-Lite endpoint, checksum generation enabled: the field is the pseudo-header
    checksum over the coverage length, with 0x0000 replaced by 0xFFFF.
  \<^item> Checksum generation disabled for the interface: no checksum is computed and the
    field is 0, for every destination.

  Hence, with checksum generation enabled, the field 0 is sent only by a UDP endpoint
  with NOCHKSUM set to a destination that is not IPv6.
\<close>

theorem udp_send_chksum_field:
  assumes sent: "udp_sendto_if_src_chksum env sel st pcb p dst_ip dst_port have_chksum chksum
                   src_ip = (err, st', Some tx)"
  shows "flags (pcb_mem st' pcb) = flags (pcb_mem st pcb) \<and>
    uh_chksum (tx_udphdr tx) =
     (if flags (pcb_mem st' pcb) AND UDP_FLAGS_UDPLITE = 0 then
        (if chksum_gen_udp env \<and>
            (IpIsV6 dst_ip \<or> flags (pcb_mem st' pcb) AND UDP_FLAGS_NOCHKSUM = 0) then
           (let hdr = \<lparr>uh_src = local_port (pcb_mem st' pcb), uh_dest = dst_port,
                       uh_len = pb_tot_len p + UDP_HLEN, uh_chksum = 0\<rparr>;
                c = (if have_chksum
                     then ucast (FOLD_U32T env
                            ((ucast (ip_chksum_pseudo_partial env hdr p IP_PROTO_UDP
                                       (pb_tot_len p + UDP_HLEN) UDP_HLEN src_ip dst_ip) :: u32) +
                             ucast (NOT chksum)))
                     else ip_chksum_pseudo env hdr p IP_PROTO_UDP (pb_tot_len p + UDP_HLEN)
                            src_ip dst_ip)
            in if c = 0 then 0xffff else c)
         else 0)
      else
        (if chksum_gen_udplite env then
           (let illegal = (chksum_len_tx (pcb_mem st' pcb) < 8 \<or>
                           pb_tot_len p + UDP_HLEN < chksum_len_tx (pcb_mem st' pcb));
                hdr = \<lparr>uh_src = local_port (pcb_mem st' pcb), uh_dest = dst_port,
                       uh_len = (if illegal then 0 else chksum_len_tx (pcb_mem st' pcb)),
                       uh_chksum = 0\<rparr>;
                c0 = ip_chksum_pseudo_partial env hdr p IP_PROTO_UDPLITE (pb_tot_len p + UDP_HLEN)
                       (if have_chksum then UDP_HLEN
                        else if illegal then pb_tot_len p + UDP_HLEN
                        else chksum_len_tx (pcb_mem st' pcb))
                       src_ip dst_ip;
                c = (if have_chksum
                     then ucast (FOLD_U32T env ((ucast c0 :: u32) + ucast (NOT chksum)))
                     else c0)
            in if c = 0 then 0xffff else c)
         else 0)) \<and>
    (chksum_gen_udp env \<and> chksum_gen_udplite env \<and>
     (IpIsV6 dst_ip \<or> flags (pcb_mem st pcb) AND UDP_FLAGS_NOCHKSUM = 0) \<longrightarrow>
       uh_chksum (tx_udphdr tx) \<noteq> 0) \<and>
    (chksum_gen_udp env \<and> chksum_gen_udplite env \<and> uh_chksum (tx_udphdr tx) = 0 \<longrightarrow>
       \<not> IpIsV6 dst_ip \<and> flags (pcb_mem st pcb) AND UDP_FLAGS_NOCHKSUM \<noteq> 0 \<and>
       flags (pcb_mem st pcb) AND UDP_FLAGS_UDPLITE = 0) \<and>
    (flags (pcb_mem st pcb) AND UDP_FLAGS_UDPLITE = 0 \<and>
     (\<not> chksum_gen_udp env \<or>
      (\<not> IpIsV6 dst_ip \<and> flags (pcb_mem st pcb) AND UDP_FLAGS_NOCHKSUM \<noteq> 0)) \<longrightarrow>
       uh_chksum (tx_udphdr tx) = 0) \<and>
    (flags (pcb_mem st pcb) AND UDP_FLAGS_UDPLITE \<noteq> 0 \<and> \<not> chksum_gen_udplite env \<longrightarrow>
       uh_chksum (tx_udphdr tx) = 0)"
proof -
  from udp_sendto_sent[OF sent]
  have tx: "tx = udp_send_datagram env (pcb_mem st' pcb) p dst_ip dst_port have_chksum chksum
                   src_ip"
    and fl: "flags (pcb_mem st' pcb) = flags (pcb_mem st pcb)"
    by simp_all
  have val: "uh_chksum (tx_udphdr tx) =
     (if flags (pcb_mem st' pcb) AND UDP_FLAGS_UDPLITE = 0 then
        (if chksum_gen_udp env \<and>
            (IpIsV6 dst_ip \<or> flags (pcb_mem st' pcb) AND UDP_FLAGS_NOCHKSUM = 0) then
           (let hdr = \<lparr>uh_src = local_port (pcb_mem st' pcb), uh_dest = dst_port,
                       uh_len = pb_tot_len p + UDP_HLEN, uh_chksum = 0\<rparr>;
                c = (if have_chksum
                     then ucast (FOLD_U32T env
                            ((ucast (ip_chksum_pseudo_partial env hdr p IP_PROTO_UDP
                                       (pb_tot_len p + UDP_HLEN) UDP_HLEN src_ip dst_ip) :: u32) +
                             ucast (NOT chksum)))
                     else ip_chksum_pseudo env hdr p IP_PROTO_UDP (pb_tot_len p + UDP_HLEN)
                            src_ip dst_ip)
            in if c = 0 then 0xffff else c)
         else 0)
      else
        (if chksum_gen_udplite env then
           (let illegal = (chksum_len_tx (pcb_mem st' pcb) < 8 \<or>
                           pb_tot_len p + UDP_HLEN < chksum_len_tx (pcb_mem st' pcb));
                hdr = \<lparr>uh_src = local_port (pcb_mem st' pcb), uh_dest = dst_port,
                       uh_len = (if illegal then 0 else chksum_len_tx (pcb_mem st' pcb)),
                       uh_chksum = 0\<rparr>;
                c0 = ip_chksum_pseudo_partial env hdr p IP_PROTO_UDPLITE (pb_tot_len p + UDP_HLEN)
                       (if have_chksum then UDP_HLEN
                        else if illegal then pb_tot_len p + UDP_HLEN
                        else chksum_len_tx (pcb_mem st' pcb))
                       src_ip dst_ip;
                c = (if have_chksum
                     then ucast (FOLD_U32T env ((ucast c0 :: u32) + ucast (NOT chksum)))
                     else c0)
            in if c = 0 then 0xffff else c)
         else 0))"
    unfolding tx by (rule udp_send_datagram_chksum)
  have nz: "chksum_gen_udp env \<and> chksum_gen_udplite env \<and>
     (IpIsV6 dst_ip \<or> flags (pcb_mem st pcb) AND UDP_FLAGS_NOCHKSUM = 0) \<longrightarrow>
       uh_chksum (tx_udphdr tx) \<noteq> 0"
    unfolding val fl by (simp add: Let_def)
  have z: "chksum_gen_udp env \<and> chksum_gen_udplite env \<and> uh_chksum (tx_udphdr tx) = 0 \<longrightarrow>
       \<not> IpIsV6 dst_ip \<and> flags (pcb_mem st pcb) AND UDP_FLAGS_NOCHKSUM \<noteq> 0 \<and>
       flags (pcb_mem st pcb) AND UDP_FLAGS_UDPLITE = 0"
    unfolding val fl by (simp add: Let_def split: if_split_asm)
  have off: "flags (pcb_mem st pcb) AND UDP_FLAGS_UDPLITE = 0 \<and>
     (\<not> chksum_gen_udp env \<or>
      (\<not> IpIsV6 dst_ip \<and> flags (pcb_mem st pcb) AND UDP_FLAGS_NOCHKSUM \<noteq> 0)) \<longrightarrow>
       uh_chksum (tx_udphdr tx) = 0"
    unfolding val fl by auto
  have offl: "flags (pcb_mem st pcb) AND UDP_FLAGS_UDPLITE \<noteq> 0 \<and> \<not> chksum_gen_udplite env \<longrightarrow>
       uh_chksum (tx_udphdr tx) = 0"
    unfolding val fl by simp
  from fl val nz z off offl show ?thesis by (intro conjI)
qed

lemmas send_eval_simps = udp_sendto_if_src_chksum_def udp_send_datagram_def Let_def
  match_ip_addr_pcb_version_def
  match_exact_ip_addr_pcb_vers_def IpIsAnyType_def IpIsV4_def IpIsV6_def ip_get_option_def
  udp_branch_hdr_def udplite_branch_hdr_def udp_computed_chksum_def chksum_zero_to_ffff_def
  ip_addr_ismulticast_def ip6_addr_ismulticast_def UDP_HLEN_def IP_PROTO_UDP_def
  UDP_FLAGS_UDPLITE_def UDP_FLAGS_NOCHKSUM_def UDP_FLAGS_MULTICAST_LOOP_def SOF_BROADCAST_def
  env_soft_def env_offload_def st_v6_def pkt0_def ip6_dst_def ip6_src_def pcb0_def

theorem udp_send_chksum_field_witness:
  "chksum_gen_udp env_soft \<and> chksum_gen_udplite env_soft \<and> IpIsV6 ip6_dst \<and>
   sent_chksum (udp_sendto_if_src_chksum env_soft no_zone_sel st_v6 1 pkt0 ip6_dst 53 False 0
        ip6_src) = Some 0xec36 \<and>
   sent_chksum (udp_sendto_if_src_chksum env_soft no_zone_sel st_v6 1 pkt0 ip6_dst 60523 False 0
        ip6_src) = Some 0xffff \<and>
   \<not> IpIsV6 ip4_dst \<and> flags (pcb_mem st_v4_nochksum 1) AND UDP_FLAGS_NOCHKSUM \<noteq> 0 \<and>
   sent_chksum (udp_sendto_if_src_chksum env_soft no_zone_sel st_v4_nochksum 1 pkt0 ip4_dst 53
        False 0 ip4_src) = Some 0 \<and>
   \<not> chksum_gen_udp env_offload \<and>
   sent_chksum (udp_sendto_if_src_chksum env_offload no_zone_sel st_v6 1 pkt0 ip6_dst 53 False 0
        ip6_src) = Some 0"
proof -
  obtain e1 s1 t1 where r1: "udp_sendto_if_src_chksum env_soft no_zone_sel st_v6 1 pkt0 ip6_dst 53
      False 0 ip6_src = (e1, s1, Some t1)" and p1: "local_port (pcb_mem s1 1) = 5000"
    by (simp add: send_eval_simps)
  obtain e2 s2 t2 where r2: "udp_sendto_if_src_chksum env_soft no_zone_sel st_v6 1 pkt0 ip6_dst
      60523 False 0 ip6_src = (e2, s2, Some t2)" and p2: "local_port (pcb_mem s2 1) = 5000"
    by (simp add: send_eval_simps)
  obtain e3 s3 t3 where r3: "udp_sendto_if_src_chksum env_soft no_zone_sel st_v4_nochksum 1 pkt0
      ip4_dst 53 False 0 ip4_src = (e3, s3, Some t3)"
    by (simp add: send_eval_simps st_v4_nochksum_def ip4_dst_def ip4_src_def)
  obtain e4 s4 t4 where r4: "udp_sendto_if_src_chksum env_offload no_zone_sel st_v6 1 pkt0 ip6_dst
      53 False 0 ip6_src = (e4, s4, Some t4)"
    by (simp add: send_eval_simps)
  have f6: "flags (pcb_mem st_v6 1) = 0" by (simp add: st_v6_def pcb0_def)
  have f4: "flags (pcb_mem st_v4_nochksum 1) = 1" by (simp add: st_v4_nochksum_def pcb0_def)
  have v6: "IpIsV6 ip6_dst" by (simp add: IpIsV6_def ip6_dst_def)
  have v4: "\<not> IpIsV6 ip4_dst" by (simp add: IpIsV6_def ip4_dst_def)
  have g: "chksum_gen_udp env_soft" "chksum_gen_udplite env_soft" "\<not> chksum_gen_udp env_offload"
    by (simp_all add: env_soft_def env_offload_def)
  have a1: "uh_chksum (tx_udphdr t1) = 0xec36"
    using udp_send_chksum_field[OF r1] f6 v6 g p1
    by (simp add: Let_def UDP_FLAGS_UDPLITE_def UDP_HLEN_def pkt0_def env_soft_def)
  have a2: "uh_chksum (tx_udphdr t2) = 0xffff"
    using udp_send_chksum_field[OF r2] f6 v6 g p2
    by (simp add: Let_def UDP_FLAGS_UDPLITE_def UDP_HLEN_def pkt0_def env_soft_def)
  have a3: "uh_chksum (tx_udphdr t3) = 0"
    using udp_send_chksum_field[OF r3] f4 v4 g
    by (simp add: UDP_FLAGS_UDPLITE_def UDP_FLAGS_NOCHKSUM_def)
  have a4: "uh_chksum (tx_udphdr t4) = 0"
    using udp_send_chksum_field[OF r4] f6 g
    by (simp add: UDP_FLAGS_UDPLITE_def)
  from a1 a2 a3 a4 r1 r2 r3 r4 g v6 v4 f4 show ?thesis
    by (simp add: sent_chksum_def UDP_FLAGS_NOCHKSUM_def)
qed

text \<open>
  With checksum generation switched off for the interface, a datagram to an IPv6
  destination is handed to IP with the checksum field 0.
\<close>

theorem udp_send_chksum_counterexample:
  "IpIsV6 ip6_dst \<and>
   fst (udp_sendto_if_src_chksum env_offload no_zone_sel st_v6 1 pkt0 ip6_dst 53 False 0 ip6_src)
     = ERR_OK \<and>
   sent_chksum (udp_sendto_if_src_chksum env_offload no_zone_sel st_v6 1 pkt0 ip6_dst 53 False 0
        ip6_src) = Some 0"
  by (simp add: sent_chksum_def send_eval_simps)

section \<open>Fan-out to REUSEADDR listeners\<close>

lemma udp_input_uncon_cases:
  "udp_input_uncon env mem bc pcb u = u \<or> udp_input_uncon env mem bc pcb u = Some pcb"
  by (simp add: udp_input_uncon_def split: option.splits)

lemma udp_input_find_props:
  "udp_input_find env mem dest src bc visited rest uncon = (found, pcbs', uncon') \<Longrightarrow>
   (\<forall>u. uncon = Some u \<longrightarrow> u \<in> set visited \<and> udp_input_matches env (mem u) dest bc) \<Longrightarrow>
   set pcbs' = set visited \<union> set rest \<and>
   (distinct (visited @ rest) \<longrightarrow> distinct pcbs') \<and>
   (\<forall>x. found = Some x \<longrightarrow> x \<in> set rest \<and> udp_input_matches env (mem x) dest bc) \<and>
   (\<forall>u. uncon' = Some u \<longrightarrow> u \<in> set visited \<union> set rest \<and> udp_input_matches env (mem u) dest bc)"
proof (induction rest arbitrary: visited uncon)
  case Nil
  then show ?case by auto
next
  case (Cons pcb rest)
  show ?case
  proof (cases "udp_input_matches env (mem pcb) dest bc")
    case False
    with Cons.prems(1) have rec:
      "udp_input_find env mem dest src bc (visited @ [pcb]) rest uncon = (found, pcbs', uncon')"
      by simp
    have inv: "\<forall>u. uncon = Some u \<longrightarrow> u \<in> set (visited @ [pcb]) \<and> udp_input_matches env (mem u) dest bc"
      using Cons.prems(2) by auto
    from Cons.IH[OF rec inv] show ?thesis by auto
  next
    case True
    let ?u = "udp_input_uncon env mem bc pcb uncon"
    have inv: "\<forall>u. ?u = Some u \<longrightarrow> u \<in> set (visited @ [pcb]) \<and> udp_input_matches env (mem u) dest bc"
      using Cons.prems(2) True udp_input_uncon_cases[of env mem bc pcb uncon] by auto
    show ?thesis
    proof (cases "remote_port (mem pcb) = src \<and>
            (is_ip_addr_any (remote_ip (mem pcb)) \<or>
             compare_ip_addr (remote_ip (mem pcb)) (cur_src_addr env))")
      case full: True
      with True Cons.prems(1) have "found = Some pcb"
        "pcbs' = (if visited \<noteq> [] then pcb # visited @ rest else pcb # rest)" "uncon' = ?u"
        by (auto simp: Let_def)
      with True inv show ?thesis by auto
    next
      case nfull: False
      with True Cons.prems(1) have rec:
        "udp_input_find env mem dest src bc (visited @ [pcb]) rest ?u = (found, pcbs', uncon')"
        by (auto simp: Let_def)
      from Cons.IH[OF rec inv] show ?thesis by auto
    qed
  qed
qed

lemma udp_input_select_props:
  assumes "udp_input_select env st p = (Some pcb, pcbs')"
  shows "set pcbs' = set (udp_pcbs st) \<and> (distinct (udp_pcbs st) \<longrightarrow> distinct pcbs') \<and>
         pcb \<in> set (udp_pcbs st) \<and>
         udp_input_matches env (pcb_mem st pcb) (uh_dest (udp_hdr_of (pb_payload p)))
           (cur_dest_isbroadcast env)"
proof -
  let ?h = "udp_hdr_of (pb_payload p)"
  obtain found uncon where f: "udp_input_find env (pcb_mem st) (uh_dest ?h) (uh_src ?h)
             (cur_dest_isbroadcast env) [] (udp_pcbs st) None = (found, pcbs', uncon)"
    and sel: "(case found of Some x \<Rightarrow> Some x | None \<Rightarrow> uncon) = Some pcb"
    using assms by (auto simp: udp_input_select_def Let_def split: prod.splits)
  from udp_input_find_props[OF f] sel show ?thesis by (auto split: option.splits)
qed

lemma udp_input_fanout_events:
  "e \<in> set (udp_input_fanout env mem pcb dest src bc p n ms) \<Longrightarrow>
   \<exists>m cb k q. e = Recv m cb (recv_arg (mem m)) q (cur_src_addr env) src \<and> m \<in> set ms \<and>
      m \<noteq> pcb \<and> udp_input_matches env (mem m) dest bc \<and> recv (mem m) = Some cb \<and>
      pbuf_clone env k p = Some q"
proof (induction ms arbitrary: n)
  case Nil
  then show ?case by simp
next
  case (Cons m ms)
  then show ?case
    by (fastforce split: if_splits option.splits)
qed

lemma udp_input_fanout_all:
  "\<forall>k. pbuf_clone env k p \<noteq> None \<Longrightarrow>
   recv_pcbs (udp_input_fanout env mem pcb dest src bc p n ms) =
     filter (\<lambda>m. m \<noteq> pcb \<and> udp_input_matches env (mem m) dest bc \<and> recv (mem m) \<noteq> None) ms"
proof (induction ms arbitrary: n)
  case Nil
  then show ?case by simp
next
  case (Cons m ms)
  from Cons.prems obtain q where "pbuf_clone env n p = Some q" by auto
  with Cons show ?case by (auto split: option.splits)
qed

lemma udp_input_fanout_sub:
  "set (recv_pcbs (udp_input_fanout env mem pcb dest src bc p n ms)) \<subseteq> set ms \<and>
   (distinct ms \<longrightarrow> distinct (recv_pcbs (udp_input_fanout env mem pcb dest src bc p n ms)))"
proof (induction ms arbitrary: n)
  case Nil
  then show ?case by simp
next
  case (Cons m ms)
  then show ?case by (auto split: option.splits)
qed

lemma udp_input_find_order:
  "udp_input_find env mem dest src bc visited rest uncon = (found, pcbs', uncon') \<Longrightarrow>
   (case found of None \<Rightarrow> pcbs' = visited @ rest
    | Some x \<Rightarrow> filter (\<lambda>m. m \<noteq> x) pcbs' = filter (\<lambda>m. m \<noteq> x) (visited @ rest))"
proof (induction rest arbitrary: visited uncon)
  case Nil
  then show ?case by auto
next
  case (Cons pcb rest)
  show ?case
  proof (cases "udp_input_matches env (mem pcb) dest bc \<and> remote_port (mem pcb) = src \<and>
            (is_ip_addr_any (remote_ip (mem pcb)) \<or>
             compare_ip_addr (remote_ip (mem pcb)) (cur_src_addr env))")
    case True
    with Cons.prems have "found = Some pcb"
      "pcbs' = (if visited \<noteq> [] then pcb # visited @ rest else pcb # rest)"
      by (auto simp: Let_def)
    then show ?thesis by auto
  next
    case False
    then obtain u where
      "udp_input_find env mem dest src bc (visited @ [pcb]) rest u = (found, pcbs', uncon')"
      using Cons.prems by (auto simp: Let_def split: if_splits)
    from Cons.IH[OF this] show ?thesis by (cases found) simp_all
  qed
qed

lemma udp_input_select_order:
  assumes "udp_input_select env st p = (Some pcb, pcbs')"
  shows "filter (\<lambda>m. m \<noteq> pcb) pcbs' = filter (\<lambda>m. m \<noteq> pcb) (udp_pcbs st)"
proof -
  let ?h = "udp_hdr_of (pb_payload p)"
  obtain found uncon where f: "udp_input_find env (pcb_mem st) (uh_dest ?h) (uh_src ?h)
             (cur_dest_isbroadcast env) [] (udp_pcbs st) None = (found, pcbs', uncon)"
    and sel: "(case found of Some x \<Rightarrow> Some x | None \<Rightarrow> uncon) = Some pcb"
    using assms by (auto simp: udp_input_select_def Let_def split: prod.splits)
  from udp_input_find_order[OF f] sel show ?thesis by (auto split: option.splits)
qed

lemma udp_input_fanout_exact:
  "udp_input_fanout env mem pcb dest src bc p n ms =
     List.map_filter
       (\<lambda>(k, m). case (recv (mem m), pbuf_clone env k p) of
                    (Some cb, Some q) \<Rightarrow>
                      Some (Recv m cb (recv_arg (mem m)) q (cur_src_addr env) src)
                  | _ \<Rightarrow> None)
       (enumerate n (filter (\<lambda>m. m \<noteq> pcb \<and> udp_input_matches env (mem m) dest bc \<and>
                              recv (mem m) \<noteq> None) ms))"
proof (induction ms arbitrary: n)
  case Nil
  then show ?case by simp
next
  case (Cons m ms)
  then show ?case by (auto split: option.splits)
qed

lemma filter_other:
  "filter (\<lambda>m. m \<noteq> pcb \<and> P m) xs = filter P (filter (\<lambda>m. m \<noteq> pcb) xs)"
  by (induction xs) auto

text \<open>
  C2 (amended): for a received datagram that passes the length and checksum tests and
  whose header can be stripped, whose destination is broadcast or multicast and whose
  primary endpoint has REUSEADDR set, \<^verbatim>\<open>udp_input\<close> walks the endpoint list and, for
  each endpoint other than the primary that matches the destination port and the
  local-match rules and has a receive callback, calls \<^verbatim>\<open>pbuf_clone\<close> once, in list
  order; an endpoint whose clone could be allocated gets that clone through its callback,
  an endpoint whose clone failed gets nothing, and the walk goes on to the next endpoint
  either way. After the walk the original buffer goes to the primary endpoint's callback
  (it is freed when the primary has none). Endpoints that do not match, or have no
  callback, receive nothing; no endpoint receives two buffers; when every \<^verbatim>\<open>pbuf_clone\<close>
  succeeds the clones go to exactly the other matching endpoints with a callback, in list
  order. The primary endpoint itself matches and is in the list; afterwards the list
  holds the same endpoints, those other than the primary in the order they had.
\<close>

theorem udp_input_reuseaddr_fanout:
  assumes len: "8 \<le> length (pb_payload p)"
    and wf: "distinct (udp_pcbs st)"
    and sel: "udp_input_select env st p = (Some pcb, pcbs')"
    and chk: "\<not> udp_input_chkerr env (udp_hdr_of (pb_payload p)) p"
    and strip: "pbuf_remove_header env p = Some p'"
    and reuse: "ip_get_option (pcb_mem st pcb) SOF_REUSEADDR"
    and bm: "cur_dest_isbroadcast env \<or> ip_addr_ismulticast (cur_dest_addr env)"
  shows "\<exists>fan. snd (udp_input env st p) =
           fan @ [case recv (pcb_mem st pcb) of
                    Some cb \<Rightarrow> Recv pcb cb (recv_arg (pcb_mem st pcb)) p' (cur_src_addr env)
                                 (uh_src (udp_hdr_of (pb_payload p)))
                  | None \<Rightarrow> FreePktBuf p'] \<and>
           fan = List.map_filter
                   (\<lambda>(k, m). case (recv (pcb_mem st m), pbuf_clone env k p') of
                                (Some cb, Some q) \<Rightarrow>
                                  Some (Recv m cb (recv_arg (pcb_mem st m)) q (cur_src_addr env)
                                          (uh_src (udp_hdr_of (pb_payload p))))
                              | _ \<Rightarrow> None)
                   (enumerate 0
                      (filter (\<lambda>m. m \<noteq> pcb \<and>
                          udp_input_matches env (pcb_mem st m)
                            (uh_dest (udp_hdr_of (pb_payload p))) (cur_dest_isbroadcast env) \<and>
                          recv (pcb_mem st m) \<noteq> None) (udp_pcbs st))) \<and>
           (\<forall>e \<in> set fan. \<exists>m cb k q.
              e = Recv m cb (recv_arg (pcb_mem st m)) q (cur_src_addr env)
                    (uh_src (udp_hdr_of (pb_payload p))) \<and>
              m \<in> set (udp_pcbs st) \<and> m \<noteq> pcb \<and>
              udp_input_matches env (pcb_mem st m) (uh_dest (udp_hdr_of (pb_payload p)))
                (cur_dest_isbroadcast env) \<and>
              recv (pcb_mem st m) = Some cb \<and> pbuf_clone env k p' = Some q) \<and>
           distinct (recv_pcbs fan) \<and>
           ((\<forall>k. pbuf_clone env k p' \<noteq> None) \<longrightarrow>
              recv_pcbs fan =
                filter (\<lambda>m. m \<noteq> pcb \<and>
                    udp_input_matches env (pcb_mem st m) (uh_dest (udp_hdr_of (pb_payload p)))
                      (cur_dest_isbroadcast env) \<and>
                    recv (pcb_mem st m) \<noteq> None) (udp_pcbs st)) \<and>
           fst (udp_input env st p) = st\<lparr>udp_pcbs := pcbs'\<rparr> \<and>
           set pcbs' = set (udp_pcbs st) \<and> distinct pcbs' \<and>
           filter (\<lambda>m. m \<noteq> pcb) pcbs' = filter (\<lambda>m. m \<noteq> pcb) (udp_pcbs st) \<and>
           pcb \<in> set (udp_pcbs st) \<and>
           udp_input_matches env (pcb_mem st pcb) (uh_dest (udp_hdr_of (pb_payload p)))
             (cur_dest_isbroadcast env)"
proof -
  let ?h = "udp_hdr_of (pb_payload p)"
  let ?fan = "udp_input_fanout env (pcb_mem st) pcb (uh_dest ?h) (uh_src ?h)
                (cur_dest_isbroadcast env) p' 0 pcbs'"
  let ?last = "case recv (pcb_mem st pcb) of
                 Some cb \<Rightarrow> Recv pcb cb (recv_arg (pcb_mem st pcb)) p' (cur_src_addr env) (uh_src ?h)
               | None \<Rightarrow> FreePktBuf p'"
  let ?cand = "\<lambda>m. udp_input_matches env (pcb_mem st m) (uh_dest ?h) (cur_dest_isbroadcast env) \<and>
                   recv (pcb_mem st m) \<noteq> None"
  from udp_input_select_props[OF sel] wf
  have sp: "set pcbs' = set (udp_pcbs st)" and dp: "distinct pcbs'"
    and pin: "pcb \<in> set (udp_pcbs st)"
    and pm: "udp_input_matches env (pcb_mem st pcb) (uh_dest ?h) (cur_dest_isbroadcast env)"
    by auto
  have ord: "filter (\<lambda>m. m \<noteq> pcb \<and> ?cand m) pcbs' =
             filter (\<lambda>m. m \<noteq> pcb \<and> ?cand m) (udp_pcbs st)"
    using udp_input_select_order[OF sel]
    by (simp only: filter_other[of pcb ?cand])
  have out: "snd (udp_input env st p) = ?fan @ [?last]"
    using len sel chk strip reuse bm
    by (simp add: udp_input_def Let_def split: option.splits)
  have stt: "fst (udp_input env st p) = st\<lparr>udp_pcbs := pcbs'\<rparr>"
    using len sel chk strip reuse bm
    by (simp add: udp_input_def Let_def split: option.splits)
  have ex: "?fan = List.map_filter
                   (\<lambda>(k, m). case (recv (pcb_mem st m), pbuf_clone env k p') of
                                (Some cb, Some q) \<Rightarrow>
                                  Some (Recv m cb (recv_arg (pcb_mem st m)) q (cur_src_addr env)
                                          (uh_src ?h))
                              | _ \<Rightarrow> None)
                   (enumerate 0 (filter (\<lambda>m. m \<noteq> pcb \<and> ?cand m) (udp_pcbs st)))"
    unfolding ord[symmetric] by (simp only: udp_input_fanout_exact)
  have ev: "\<forall>e \<in> set ?fan. \<exists>m cb k q.
              e = Recv m cb (recv_arg (pcb_mem st m)) q (cur_src_addr env) (uh_src ?h) \<and>
              m \<in> set (udp_pcbs st) \<and> m \<noteq> pcb \<and>
              udp_input_matches env (pcb_mem st m) (uh_dest ?h) (cur_dest_isbroadcast env) \<and>
              recv (pcb_mem st m) = Some cb \<and> pbuf_clone env k p' = Some q"
    using udp_input_fanout_events[of _ env "pcb_mem st" pcb "uh_dest ?h" "uh_src ?h"
        "cur_dest_isbroadcast env" p' 0 pcbs'] sp by blast
  have di: "distinct (recv_pcbs ?fan)" using udp_input_fanout_sub dp by blast
  have al: "(\<forall>k. pbuf_clone env k p' \<noteq> None) \<longrightarrow>
              recv_pcbs ?fan = filter (\<lambda>m. m \<noteq> pcb \<and> ?cand m) (udp_pcbs st)"
    unfolding ord[symmetric] using udp_input_fanout_all by blast
  note oo = udp_input_select_order[OF sel]
  from out ex ev di al stt sp dp oo pin pm show ?thesis by blast
qed

lemmas input_eval_simps = udp_input_def udp_input_select_def udp_input_matches_def
  udp_input_local_match_def udp_input_uncon_def udp_input_chkerr_def udp_hdr_of_def be16_def
  ip4_current_dest_addr_def Let_def is_ip_addr_any_def ip4_addr_isany_def ip4_addr_cmp_def
  compare_ip_addr_def ip_get_option_def ip_addr_ismulticast_def ip4_addr_ismulticast_def
  match_exact_ip_addr_pcb_vers_def convert_ip_addr_to_ip4_addr_def IpIsV4_def
  NETIF_NO_INDEX_def SOF_BROADCAST_def SOF_REUSEADDR_def UDP_FLAGS_CONNECTED_def
  IP4_ADDR_BCAST_def IP_PROTO_UDPLITE_def env_bcast_def env_bcast_nomem_def st_two_def
  dgram_def dgram_data_def pcb0_def

lemma udp_input_example:
  "snd (udp_input env_bcast st_two dgram) =
     [Recv 2 8 0 dgram_data (IpV4 0xc0000207) 1234, Recv 1 7 0 dgram_data (IpV4 0xc0000207) 1234]"
  by (simp add: input_eval_simps)

theorem udp_input_reuseaddr_fanout_witness:
  "8 \<le> length (pb_payload dgram) \<and> distinct (udp_pcbs st_three) \<and>
   udp_input_select env_bcast_retry st_three dgram = (Some 1, [1, 2, 3]) \<and>
   \<not> udp_input_chkerr env_bcast_retry (udp_hdr_of (pb_payload dgram)) dgram \<and>
   pbuf_remove_header env_bcast_retry dgram = Some dgram_data \<and>
   ip_get_option (pcb_mem st_three 1) SOF_REUSEADDR \<and> cur_dest_isbroadcast env_bcast_retry \<and>
   pbuf_clone env_bcast_retry 0 dgram_data = None \<and>
   pbuf_clone env_bcast_retry 1 dgram_data = Some dgram_data \<and>
   snd (udp_input env_bcast_retry st_three dgram) =
     [Recv 3 9 0 dgram_data (IpV4 0xc0000207) 1234, Recv 1 7 0 dgram_data (IpV4 0xc0000207) 1234]"
proof -
  have len: "8 \<le> length (pb_payload dgram)" by (simp add: dgram_def)
  have wf: "distinct (udp_pcbs st_three)" by (simp add: st_three_def)
  have sel: "udp_input_select env_bcast_retry st_three dgram = (Some 1, [1, 2, 3])"
    by (simp add: input_eval_simps env_bcast_retry_def st_three_def)
  have chk: "\<not> udp_input_chkerr env_bcast_retry (udp_hdr_of (pb_payload dgram)) dgram"
    by (simp add: input_eval_simps env_bcast_retry_def)
  have strip: "pbuf_remove_header env_bcast_retry dgram = Some dgram_data"
    by (simp add: input_eval_simps env_bcast_retry_def)
  have reuse: "ip_get_option (pcb_mem st_three 1) SOF_REUSEADDR"
    by (simp add: input_eval_simps st_three_def)
  have bm: "cur_dest_isbroadcast env_bcast_retry \<or>
            ip_addr_ismulticast (cur_dest_addr env_bcast_retry)"
    by (simp add: env_bcast_retry_def env_bcast_def)
  have cl: "pbuf_clone env_bcast_retry 0 dgram_data = None"
    "pbuf_clone env_bcast_retry 1 dgram_data = Some dgram_data"
    by (simp_all add: env_bcast_retry_def)
  from udp_input_reuseaddr_fanout[OF len wf sel chk strip reuse bm]
  obtain fan where "snd (udp_input env_bcast_retry st_three dgram) =
           fan @ [case recv (pcb_mem st_three 1) of
                    Some cb \<Rightarrow> Recv 1 cb (recv_arg (pcb_mem st_three 1)) dgram_data
                       (cur_src_addr env_bcast_retry) (uh_src (udp_hdr_of (pb_payload dgram)))
                  | None \<Rightarrow> FreePktBuf dgram_data]"
    and "fan = List.map_filter
                   (\<lambda>(k, m). case (recv (pcb_mem st_three m),
                                     pbuf_clone env_bcast_retry k dgram_data) of
                                (Some cb, Some q) \<Rightarrow>
                                  Some (Recv m cb (recv_arg (pcb_mem st_three m)) q
                                          (cur_src_addr env_bcast_retry)
                                          (uh_src (udp_hdr_of (pb_payload dgram))))
                              | _ \<Rightarrow> None)
                   (enumerate 0
                      (filter (\<lambda>m. m \<noteq> 1 \<and>
                          udp_input_matches env_bcast_retry (pcb_mem st_three m)
                            (uh_dest (udp_hdr_of (pb_payload dgram)))
                            (cur_dest_isbroadcast env_bcast_retry) \<and>
                          recv (pcb_mem st_three m) \<noteq> None) (udp_pcbs st_three)))"
    by blast
  then have "snd (udp_input env_bcast_retry st_three dgram) =
     [Recv 3 9 0 dgram_data (IpV4 0xc0000207) 1234, Recv 1 7 0 dgram_data (IpV4 0xc0000207) 1234]"
    by (simp add: input_eval_simps env_bcast_retry_def st_three_def)
  with len wf sel chk strip reuse bm cl show ?thesis
    by (simp add: env_bcast_retry_def env_bcast_def)
qed

text \<open>
  Two endpoints bound to port 5000 with REUSEADDR, BROADCAST and a callback each; when no
  buffer can be cloned, a broadcast datagram reaches the primary endpoint only.
\<close>

theorem udp_input_fanout_counterexample:
  "cur_dest_isbroadcast env_bcast_nomem \<and>
   udp_input_select env_bcast_nomem st_two dgram = (Some 1, [1, 2]) \<and>
   ip_get_option (pcb_mem st_two 1) SOF_REUSEADDR \<and>
   udp_input_matches env_bcast_nomem (pcb_mem st_two 2) 5000 True \<and>
   recv (pcb_mem st_two 2) = Some 8 \<and>
   snd (udp_input env_bcast_nomem st_two dgram) =
     [Recv 1 7 0 dgram_data (IpV4 0xc0000207) 1234]"
  by (simp add: input_eval_simps)

section \<open>IGMP input frees its packet\<close>

lemma log_upd_group [simp]: "igmp_log (upd_group g f st) = igmp_log st"
  by (simp add: upd_group_def)

lemma log_start_timer [simp]: "igmp_log (igmp_start_timer env st g m) = igmp_log st"
  by (simp add: igmp_start_timer_def Let_def split: prod.splits)

lemma log_delaying_member [simp]: "igmp_log (igmp_delaying_member env st g m) = igmp_log st"
  by (simp add: igmp_delaying_member_def)

lemma log_delaying_members [simp]:
  "igmp_log (igmp_delaying_members env st m gs) = igmp_log st"
  by (induction gs arbitrary: st) simp_all

lemma log_log_event [simp]: "igmp_log (log_event e st) = igmp_log st @ [e]"
  by (simp add: log_event_def)

text \<open>
  C9: on every path of \<^verbatim>\<open>igmp_input\<close> the only event is one \<^verbatim>\<open>pbuf_free\<close> of the
  received packet, as the last thing done: the packet is freed exactly once.
\<close>

theorem igmp_input_frees_once:
  "igmp_log (igmp_input env st p dest) = igmp_log st @ [PbufFree p] \<and>
   count_list (igmp_log (igmp_input env st p dest)) (PbufFree p) =
     count_list (igmp_log st) (PbufFree p) + 1"
proof -
  have "igmp_log (igmp_input env st p dest) = igmp_log st @ [PbufFree p]"
    by (simp add: igmp_input_def Let_def split: option.splits)
  then show ?thesis by simp
qed


theorem igmp_input_frees_once_witness:
  "igmp_log (igmp_input ienv ist_empty general_query allsystems) = [PbufFree general_query] \<and>
   count_list (igmp_log (igmp_input ienv ist_empty general_query allsystems))
     (PbufFree general_query) = 1 \<and>
   igmp_log (igmp_input ienv ist_joined general_query allsystems) =
     igmp_log ist_joined @ [PbufFree general_query]"
  using igmp_input_frees_once[of ienv ist_empty general_query allsystems]
    igmp_input_frees_once[of ienv ist_joined general_query allsystems]
  by (simp add: ist_empty_def)

section \<open>IGMP delay timer\<close>

lemma timer_upd_group_same [simp]: "grp_mem (upd_group g f st) g = f (grp_mem st g)"
  by (simp add: upd_group_def)

lemma rand_ticks_bound:
  fixes r :: u32 and m :: u8
  assumes "2 < m"
  shows "unat (ucast (r mod ucast m) :: u16) < unat m"
proof -
  have m0: "0 < unat m" using assms by (simp add: word_less_nat_alt)
  have m256: "unat m < 256" using unsigned_less[of m, where ?'a=nat] by simp
  have um: "unat (ucast m :: u32) = unat m"
    using m256 by (simp add: unsigned_ucast_eq take_bit_nat_eq_self)
  have "unat (r mod ucast m) = unat r mod unat m" by (simp add: unat_mod um)
  then have lt: "unat (r mod ucast m) < unat m" using m0 by simp
  with m256 have "unat (r mod ucast m) < 2 ^ 16" by simp
  then have "unat (ucast (r mod ucast m) :: u16) = unat (r mod ucast m)"
    by (simp add: unsigned_ucast_eq take_bit_nat_eq_self)
  with lt show ?thesis by simp
qed

lemma half_ticks_bound:
  fixes m :: u8
  shows "unat (ucast (m div 2) :: u16) = unat m div 2"
proof -
  have "unat (m div 2) = unat m div 2" by (simp add: unat_div)
  moreover have "unat m < 256" using unsigned_less[of m, where ?'a=nat] by simp
  ultimately have "unat (m div 2) < 2 ^ 16" by simp
  then have "unat (ucast (m div 2) :: u16) = unat (m div 2)"
    by (simp add: unsigned_ucast_eq take_bit_nat_eq_self)
  then show ?thesis by (simp add: unat_div)
qed

lemma igmp_start_timer_ticks:
  "1 \<le> unat (timer (grp_mem (igmp_start_timer env st g max_time) g)) \<and>
   unat (timer (grp_mem (igmp_start_timer env st g max_time) g)) \<le> max 1 (unat max_time - 1)"
proof -
  let ?t = "timer (grp_mem (igmp_start_timer env st g max_time) g)"
  show ?thesis
  proof (cases "have_lwip_rand env")
    case False
    then have t: "?t = (if (ucast (max_time div 2) :: u16) = 0 then 1 else ucast (max_time div 2))"
      by (simp add: igmp_start_timer_def)
    show ?thesis
    proof (cases "(ucast (max_time div 2) :: u16) = 0")
      case True
      with t show ?thesis by simp
    next
      case nz: False
      then have "unat (ucast (max_time div 2) :: u16) \<noteq> 0" by (simp add: unat_eq_0)
      with t nz half_ticks_bound[of max_time] show ?thesis by auto
    qed
  next
    case True
    show ?thesis
    proof (cases "2 < max_time")
      case False
      with True show ?thesis by (simp add: igmp_start_timer_def)
    next
      case big: True
      let ?r = "ucast (lwip_rand_seq env (rand_calls st) mod ucast max_time) :: u16"
      from True big have t: "?t = (if ?r = 0 then 1 else ?r)"
        by (simp add: igmp_start_timer_def)
      have lt: "unat ?r < unat max_time" using big by (rule rand_ticks_bound)
      show ?thesis
      proof (cases "?r = 0")
        case True
        with t show ?thesis by simp
      next
        case nz: False
        then have "unat ?r \<noteq> 0" by (simp add: unat_eq_0)
        with t nz lt show ?thesis by auto
      qed
    qed
  qed
qed


lemma igmp_delaying_member_restart:
  assumes "group_state (grp_mem st g) = IGMP_GROUP_IDLE_MEMBER \<or>
           (group_state (grp_mem st g) = IGMP_GROUP_DELAYING_MEMBER \<and>
            (timer (grp_mem st g) = 0 \<or> ucast maxresp < timer (grp_mem st g)))"
  shows "group_state (grp_mem (igmp_delaying_member env st g maxresp) g) =
           IGMP_GROUP_DELAYING_MEMBER \<and>
         timer (grp_mem (igmp_delaying_member env st g maxresp) g) =
           timer (grp_mem (igmp_start_timer env st g maxresp) g)"
  using assms by (auto simp: igmp_delaying_member_def)

lemma rand_ticks_value:
  fixes r :: u32 and m :: u8
  assumes "2 < m"
  shows "unat (ucast (r mod ucast m) :: u16) = unat r mod unat m"
proof -
  have m0: "0 < unat m" using assms by (simp add: word_less_nat_alt)
  have m256: "unat m < 256" using unsigned_less[of m, where ?'a=nat] by simp
  have um: "unat (ucast m :: u32) = unat m"
    using m256 by (simp add: unsigned_ucast_eq take_bit_nat_eq_self)
  have v: "unat (r mod ucast m) = unat r mod unat m" by (simp add: unat_mod um)
  then have lt: "unat (r mod ucast m) < unat m" using m0 by simp
  with m256 have "unat (r mod ucast m) < 2 ^ 16" by simp
  then have "unat (ucast (r mod ucast m) :: u16) = unat (r mod ucast m)"
    by (simp add: unsigned_ucast_eq take_bit_nat_eq_self)
  with v show ?thesis by simp
qed

lemma unat_zero_to_one:
  fixes t :: u16
  shows "unat (if t = 0 then 1 else t) = max 1 (unat t)"
proof (cases "t = 0")
  case True
  then show ?thesis by simp
next
  case False
  then have "unat t \<noteq> 0" by (simp add: unat_eq_0)
  with False show ?thesis by simp
qed

lemma igmp_start_timer_value:
  "unat (timer (grp_mem (igmp_start_timer env st g bound) g)) =
     (if have_lwip_rand env
      then (if 2 < unat bound
            then max 1 (unat (lwip_rand_seq env (rand_calls st)) mod unat bound) else 1)
      else max 1 (unat bound div 2))"
proof (cases "have_lwip_rand env")
  case False
  then have "timer (grp_mem (igmp_start_timer env st g bound) g) =
      (if (ucast (bound div 2) :: u16) = 0 then 1 else ucast (bound div 2))"
    by (simp add: igmp_start_timer_def)
  with False show ?thesis
    by (simp only: unat_zero_to_one half_ticks_bound if_False)
next
  case True
  show ?thesis
  proof (cases "2 < bound")
    case False
    then have "\<not> 2 < unat bound" by (simp add: word_less_nat_alt)
    with True False show ?thesis by (simp add: igmp_start_timer_def)
  next
    case big: True
    then have b: "2 < unat bound" by (simp add: word_less_nat_alt)
    let ?r = "ucast (lwip_rand_seq env (rand_calls st) mod ucast bound) :: u16"
    from True big have "timer (grp_mem (igmp_start_timer env st g bound) g) =
        (if ?r = 0 then 1 else ?r)"
      by (simp add: igmp_start_timer_def)
    with True b show ?thesis
      by (simp only: unat_zero_to_one rand_ticks_value[OF big] if_True)
  qed
qed

lemma igmp_start_timer_rand_calls:
  "rand_calls (igmp_start_timer env st g bound) =
     (if have_lwip_rand env \<and> 2 < unat bound then rand_calls st + 1 else rand_calls st)"
  by (simp add: igmp_start_timer_def upd_group_def word_less_nat_alt)

lemma rand_calls_send [simp]: "rand_calls (igmp_send env st g ty) = rand_calls st"
  by (simp add: igmp_send_def Let_def log_event_def upd_group_def)

lemma rand_calls_lookup:
  "igmp_lookup_group env st addr = (r, st1) \<Longrightarrow> rand_calls st1 = rand_calls st"
  by (auto simp: igmp_lookup_group_def Let_def lwip_assert_def log_event_def
      split: option.splits list.splits if_splits)

lemma igmp_join_timer:
  assumes lk: "igmp_lookup_group env st addr = (Some grp, st1)"
    and nm: "group_state (grp_mem st1 grp) = IGMP_GROUP_NON_MEMBER"
  shows "group_state (grp_mem (snd (igmp_joingroup_netif env st addr)) grp) =
           IGMP_GROUP_DELAYING_MEMBER \<and>
         unat (timer (grp_mem (snd (igmp_joingroup_netif env st addr)) grp)) =
           (if have_lwip_rand env
            then (if 2 < unat (IGMP_JOIN_DELAYING_MEMBER_TMR env)
                  then max 1 (unat (lwip_rand_seq env (rand_calls st)) mod
                              unat (IGMP_JOIN_DELAYING_MEMBER_TMR env))
                  else 1)
            else max 1 (unat (IGMP_JOIN_DELAYING_MEMBER_TMR env) div 2))"
proof -
  let ?sta = "if use (grp_mem st1 grp) = 0 \<and> igmp_mac_filter env
              then log_event (MacFilter addr NETIF_ADD_MAC_FILTER) st1 else st1"
  let ?stb = "igmp_send env ?sta grp IGMP_V2_MEMB_REPORT"
  let ?stc = "igmp_start_timer env ?stb grp (IGMP_JOIN_DELAYING_MEMBER_TMR env)"
  have rc: "rand_calls ?stb = rand_calls st"
    using rand_calls_lookup[OF lk] by (simp add: log_event_def)
  have j: "snd (igmp_joingroup_netif env st addr) =
      upd_group grp (\<lambda>g. g\<lparr>use := use g + 1\<rparr>)
        (upd_group grp (\<lambda>g. g\<lparr>group_state := IGMP_GROUP_DELAYING_MEMBER\<rparr>) ?stc)"
    using lk nm by (simp add: igmp_joingroup_netif_def Let_def)
  have t: "timer (grp_mem (snd (igmp_joingroup_netif env st addr)) grp) =
           timer (grp_mem ?stc grp)"
    and s: "group_state (grp_mem (snd (igmp_joingroup_netif env st addr)) grp) =
           IGMP_GROUP_DELAYING_MEMBER"
    unfolding j by simp_all
  show ?thesis
    unfolding t using s igmp_start_timer_value[of env ?stb grp "IGMP_JOIN_DELAYING_MEMBER_TMR env"]
    unfolding rc by simp
qed

text \<open>
  C5 (amended): a delay timer started with a bound holds \<^verbatim>\<open>lwip_rand() % bound\<close> ticks,
  with 0 replaced by 1, when the bound is above 2, and 1 tick when the bound is at most 2
  (half the bound, at least 1, when \<^verbatim>\<open>lwip_rand\<close> is not defined); one random number
  is drawn exactly when the bound is above 2. So the ticks lie in [1, max 1 (bound - 1)],
  never equal a bound above 2, and 1 arises from the two residues 0 and 1: the ticks are
  not uniform on [1, bound]. A join of a group that is not yet a member starts the timer
  with the bound \<^verbatim>\<open>IGMP_JOIN_DELAYING_MEMBER_TMR\<close> and leaves the group delaying. A query
  restarts the timer of an idle group always, and of a
  delaying group only if its timer is stopped or the new bound is smaller than the
  remaining ticks; the restarted group is delaying, with the ticks as above for the new
  bound. In every other case the query leaves the state as it is.
\<close>

theorem igmp_delay_timer:
  "unat (timer (grp_mem (igmp_start_timer env st g bound) g)) =
     (if have_lwip_rand env
      then (if 2 < unat bound
            then max 1 (unat (lwip_rand_seq env (rand_calls st)) mod unat bound) else 1)
      else max 1 (unat bound div 2)) \<and>
   rand_calls (igmp_start_timer env st g bound) =
     (if have_lwip_rand env \<and> 2 < unat bound then rand_calls st + 1 else rand_calls st) \<and>
   (have_lwip_rand env \<and> 2 < unat bound \<and>
    unat (lwip_rand_seq env (rand_calls st)) mod unat bound \<le> 1 \<longrightarrow>
      timer (grp_mem (igmp_start_timer env st g bound) g) = 1) \<and>
   1 \<le> unat (timer (grp_mem (igmp_start_timer env st g bound) g)) \<and>
   unat (timer (grp_mem (igmp_start_timer env st g bound) g)) \<le> max 1 (unat bound - 1) \<and>
   (2 < unat bound \<longrightarrow>
      unat (timer (grp_mem (igmp_start_timer env st g bound) g)) < unat bound) \<and>
   (group_state (grp_mem st g) = IGMP_GROUP_IDLE_MEMBER \<or>
    (group_state (grp_mem st g) = IGMP_GROUP_DELAYING_MEMBER \<and>
     (timer (grp_mem st g) = 0 \<or> unat maxresp < unat (timer (grp_mem st g)))) \<longrightarrow>
      group_state (grp_mem (igmp_delaying_member env st g maxresp) g) =
        IGMP_GROUP_DELAYING_MEMBER \<and>
      unat (timer (grp_mem (igmp_delaying_member env st g maxresp) g)) =
        (if have_lwip_rand env
         then (if 2 < unat maxresp
               then max 1 (unat (lwip_rand_seq env (rand_calls st)) mod unat maxresp) else 1)
         else max 1 (unat maxresp div 2))) \<and>
   (\<not> (group_state (grp_mem st g) = IGMP_GROUP_IDLE_MEMBER \<or>
        (group_state (grp_mem st g) = IGMP_GROUP_DELAYING_MEMBER \<and>
         (timer (grp_mem st g) = 0 \<or> unat maxresp < unat (timer (grp_mem st g))))) \<longrightarrow>
      igmp_delaying_member env st g maxresp = st) \<and>
   (igmp_lookup_group env st addr = (Some grp, st1) \<and>
    group_state (grp_mem st1 grp) = IGMP_GROUP_NON_MEMBER \<longrightarrow>
      group_state (grp_mem (snd (igmp_joingroup_netif env st addr)) grp) =
        IGMP_GROUP_DELAYING_MEMBER \<and>
      unat (timer (grp_mem (snd (igmp_joingroup_netif env st addr)) grp)) =
        (if have_lwip_rand env
         then (if 2 < unat (IGMP_JOIN_DELAYING_MEMBER_TMR env)
               then max 1 (unat (lwip_rand_seq env (rand_calls st)) mod
                           unat (IGMP_JOIN_DELAYING_MEMBER_TMR env))
               else 1)
         else max 1 (unat (IGMP_JOIN_DELAYING_MEMBER_TMR env) div 2)))"
proof -
  let ?t = "timer (grp_mem (igmp_start_timer env st g bound) g)"
  have um: "unat (ucast maxresp :: u16) = unat maxresp"
  proof -
    have "unat maxresp < 256" using unsigned_less[of maxresp, where ?'a=nat] by simp
    then show ?thesis by (simp add: unsigned_ucast_eq take_bit_nat_eq_self)
  qed
  have lt: "(ucast maxresp < timer (grp_mem st g)) = (unat maxresp < unat (timer (grp_mem st g)))"
    by (simp add: word_less_nat_alt um)
  have a: "unat ?t =
     (if have_lwip_rand env
      then (if 2 < unat bound
            then max 1 (unat (lwip_rand_seq env (rand_calls st)) mod unat bound) else 1)
      else max 1 (unat bound div 2))"
    by (rule igmp_start_timer_value)
  have b: "rand_calls (igmp_start_timer env st g bound) =
     (if have_lwip_rand env \<and> 2 < unat bound then rand_calls st + 1 else rand_calls st)"
    by (rule igmp_start_timer_rand_calls)
  have c: "have_lwip_rand env \<and> 2 < unat bound \<and>
    unat (lwip_rand_seq env (rand_calls st)) mod unat bound \<le> 1 \<longrightarrow> ?t = 1"
  proof
    assume h: "have_lwip_rand env \<and> 2 < unat bound \<and>
      unat (lwip_rand_seq env (rand_calls st)) mod unat bound \<le> 1"
    with a have "unat ?t = 1" by (simp add: max_def)
    then show "?t = 1" by (simp add: word_unat_eq_iff)
  qed
  have d: "1 \<le> unat ?t \<and> unat ?t \<le> max 1 (unat bound - 1)"
    by (rule igmp_start_timer_ticks)
  have e: "2 < unat bound \<longrightarrow> unat ?t < unat bound"
    using d by arith
  have f: "group_state (grp_mem st g) = IGMP_GROUP_IDLE_MEMBER \<or>
    (group_state (grp_mem st g) = IGMP_GROUP_DELAYING_MEMBER \<and>
     (timer (grp_mem st g) = 0 \<or> unat maxresp < unat (timer (grp_mem st g)))) \<longrightarrow>
      group_state (grp_mem (igmp_delaying_member env st g maxresp) g) =
        IGMP_GROUP_DELAYING_MEMBER \<and>
      unat (timer (grp_mem (igmp_delaying_member env st g maxresp) g)) =
        (if have_lwip_rand env
         then (if 2 < unat maxresp
               then max 1 (unat (lwip_rand_seq env (rand_calls st)) mod unat maxresp) else 1)
         else max 1 (unat maxresp div 2))"
    using igmp_delaying_member_restart[of st g maxresp env]
      igmp_start_timer_value[of env st g maxresp]
    unfolding lt by presburger
  have h: "\<not> (group_state (grp_mem st g) = IGMP_GROUP_IDLE_MEMBER \<or>
        (group_state (grp_mem st g) = IGMP_GROUP_DELAYING_MEMBER \<and>
         (timer (grp_mem st g) = 0 \<or> unat maxresp < unat (timer (grp_mem st g))))) \<longrightarrow>
      igmp_delaying_member env st g maxresp = st"
    unfolding lt[symmetric] by (auto simp add: igmp_delaying_member_def)
  have j: "igmp_lookup_group env st addr = (Some grp, st1) \<and>
    group_state (grp_mem st1 grp) = IGMP_GROUP_NON_MEMBER \<longrightarrow>
      group_state (grp_mem (snd (igmp_joingroup_netif env st addr)) grp) =
        IGMP_GROUP_DELAYING_MEMBER \<and>
      unat (timer (grp_mem (snd (igmp_joingroup_netif env st addr)) grp)) =
        (if have_lwip_rand env
         then (if 2 < unat (IGMP_JOIN_DELAYING_MEMBER_TMR env)
               then max 1 (unat (lwip_rand_seq env (rand_calls st)) mod
                           unat (IGMP_JOIN_DELAYING_MEMBER_TMR env))
               else 1)
         else max 1 (unat (IGMP_JOIN_DELAYING_MEMBER_TMR env) div 2))"
    using igmp_join_timer[of env st addr grp st1] by blast
  from a b c d e f h j show ?thesis by blast
qed

lemmas igmp_eval_simps = igmp_start_def igmp_joingroup_netif_def igmp_leavegroup_netif_def
  igmp_lookup_group_def igmp_lookfor_group_def igmp_remove_group_def igmp_send_def
  igmp_start_timer_def igmp_delaying_member_def igmp_packet_def igmp_msg_bytes_def
  lwip_assert_def log_event_def upd_group_def ip4_addr_cmp_def Let_def
  allsystems_def allrouters_def IGMP_V2_MEMB_REPORT_def IGMP_LEAVE_GROUP_def
  ienv_def ienv_nomem_def ist_empty_def ist_started_def ist_joined_def grp0_def

lemma ist_started_eval:
  "igmp_groups ist_started = [1] \<and>
   grp_mem ist_started 1 = \<lparr>group_address = 0xe0000001, last_reporter_flag = 0,
     group_state = IGMP_GROUP_IDLE_MEMBER, timer = 0, use = 1\<rparr> \<and>
   grp_allocated ist_started = {1} \<and>
   igmp_log ist_started = [MacFilter 0xe0000001 NETIF_ADD_MAC_FILTER]"
  by (simp add: igmp_eval_simps)

lemma ist_joined_eval:
  "igmp_groups ist_joined = [1, 2] \<and>
   grp_mem ist_joined 1 = \<lparr>group_address = 0xe0000001, last_reporter_flag = 0,
     group_state = IGMP_GROUP_IDLE_MEMBER, timer = 0, use = 1\<rparr> \<and>
   grp_mem ist_joined 2 = \<lparr>group_address = 0xef010203, last_reporter_flag = 1,
     group_state = IGMP_GROUP_DELAYING_MEMBER, timer = 1, use = 1\<rparr> \<and>
   1 \<in> grp_allocated ist_joined \<and> 2 \<in> grp_allocated ist_joined \<and>
   rand_calls ist_joined = 1 \<and>
   pbuf_allocs ist_joined = 1"
  by (simp add: igmp_eval_simps)

theorem igmp_delay_timer_witness:
  "have_lwip_rand ienv \<and> 2 < unat (10 :: u8) \<and>
   timer (grp_mem (igmp_start_timer ienv (ist_joined\<lparr>rand_calls := 27\<rparr>) 2 10) 2) = 7 \<and>
   timer (grp_mem (igmp_start_timer ienv (ist_joined\<lparr>rand_calls := 30\<rparr>) 2 10) 2) = 1 \<and>
   timer (grp_mem (igmp_start_timer ienv (ist_joined\<lparr>rand_calls := 31\<rparr>) 2 10) 2) = 1 \<and>
   group_state (grp_mem ist_joined 2) = IGMP_GROUP_DELAYING_MEMBER \<and>
   timer (grp_mem ist_joined 2) = 1 \<and>
   igmp_delaying_member ienv ist_joined 2 10 = ist_joined \<and>
   group_state (grp_mem ist_started 1) = IGMP_GROUP_IDLE_MEMBER \<and>
   group_state (grp_mem (igmp_delaying_member ienv (ist_started\<lparr>rand_calls := 27\<rparr>) 1 10) 1) =
     IGMP_GROUP_DELAYING_MEMBER \<and>
   timer (grp_mem (igmp_delaying_member ienv (ist_started\<lparr>rand_calls := 27\<rparr>) 1 10) 1) = 7 \<and>
   fst (igmp_lookup_group ienv ist_started 0xef010203) = Some 2 \<and>
   group_state (grp_mem (snd (igmp_lookup_group ienv ist_started 0xef010203)) 2) =
     IGMP_GROUP_NON_MEMBER \<and>
   IGMP_JOIN_DELAYING_MEMBER_TMR ienv = 5 \<and> rand_calls ist_started = 0 \<and>
   group_state (grp_mem (snd (igmp_joingroup_netif ienv ist_started 0xef010203)) 2) =
     IGMP_GROUP_DELAYING_MEMBER \<and>
   timer (grp_mem (snd (igmp_joingroup_netif ienv ist_started 0xef010203)) 2) = 1"
proof -
  have r: "have_lwip_rand ienv" "\<And>n. lwip_rand_seq ienv n = of_nat n"
    by (simp_all add: ienv_def)
  have u: "unat (27 :: u32) = 27" "unat (30 :: u32) = 30" "unat (31 :: u32) = 31"
    "unat (10 :: u8) = 10"
    by simp_all
  have a: "unat (timer (grp_mem (igmp_start_timer ienv (ist_joined\<lparr>rand_calls := 27\<rparr>) 2 10) 2))
             = unat (7 :: u16)"
    using igmp_delay_timer[of ienv "ist_joined\<lparr>rand_calls := 27\<rparr>" 2 10 10] r u by simp
  have b: "timer (grp_mem (igmp_start_timer ienv (ist_joined\<lparr>rand_calls := 30\<rparr>) 2 10) 2) = 1"
    using igmp_delay_timer[of ienv "ist_joined\<lparr>rand_calls := 30\<rparr>" 2 10 10] r u by simp
  have c: "timer (grp_mem (igmp_start_timer ienv (ist_joined\<lparr>rand_calls := 31\<rparr>) 2 10) 2) = 1"
    using igmp_delay_timer[of ienv "ist_joined\<lparr>rand_calls := 31\<rparr>" 2 10 10] r u by simp
  have j: "group_state (grp_mem ist_joined 2) = IGMP_GROUP_DELAYING_MEMBER"
    "timer (grp_mem ist_joined 2) = 1"
    using ist_joined_eval by simp_all
  have d: "igmp_delaying_member ienv ist_joined 2 10 = ist_joined"
    using igmp_delay_timer[of ienv ist_joined 2 10 10] j u by simp
  have s: "group_state (grp_mem ist_started 1) = IGMP_GROUP_IDLE_MEMBER"
    using ist_started_eval by simp
  have e: "group_state (grp_mem (igmp_delaying_member ienv (ist_started\<lparr>rand_calls := 27\<rparr>) 1 10) 1)
             = IGMP_GROUP_DELAYING_MEMBER \<and>
           unat (timer (grp_mem (igmp_delaying_member ienv (ist_started\<lparr>rand_calls := 27\<rparr>) 1 10) 1))
             = unat (7 :: u16)"
    using igmp_delay_timer[of ienv "ist_started\<lparr>rand_calls := 27\<rparr>" 1 10 10] r u s by simp
  have lk: "fst (igmp_lookup_group ienv ist_started 0xef010203) = Some 2"
    "group_state (grp_mem (snd (igmp_lookup_group ienv ist_started 0xef010203)) 2) =
       IGMP_GROUP_NON_MEMBER"
    "IGMP_JOIN_DELAYING_MEMBER_TMR ienv = 5" "rand_calls ist_started = 0"
    by (simp_all add: igmp_eval_simps)
  obtain s1 where l1: "igmp_lookup_group ienv ist_started 0xef010203 = (Some 2, s1)"
    using lk(1) by (cases "igmp_lookup_group ienv ist_started 0xef010203") auto
  have jn: "group_state (grp_mem (snd (igmp_joingroup_netif ienv ist_started 0xef010203)) 2) =
              IGMP_GROUP_DELAYING_MEMBER \<and>
            unat (timer (grp_mem (snd (igmp_joingroup_netif ienv ist_started 0xef010203)) 2)) =
              unat (1 :: u16)"
    using igmp_delay_timer[of ienv ist_started 1 10 10 "0xef010203" 2 s1] l1 lk r by simp
  from a b c d e j s r u lk jn show ?thesis by (simp add: word_unat_eq_iff)
qed

text \<open>
  For the bound 10, the ten residues of \<^verbatim>\<open>lwip_rand\<close> give the ticks 1 twice and never
  10.
\<close>

theorem igmp_timer_not_uniform_counterexample:
  "timer_ticks_for_10 = [1, 1, 2, 3, 4, 5, 6, 7, 8, 9]"
  using ist_joined_eval
  by (simp add: timer_ticks_for_10_def igmp_start_timer_def upd_group_def ienv_def)

section \<open>Leaving a group\<close>

lemma igmp_remove_scan_found:
  "g \<noteq> hd gs \<Longrightarrow> g \<in> set gs \<Longrightarrow> igmp_remove_scan g gs = Some (remove1 g gs)"
proof (induction g gs rule: igmp_remove_scan.induct)
  case (1 g)
  then show ?case by simp
next
  case (2 g tmp)
  then show ?case by simp
next
  case (3 g tmp nxt rest)
  then show ?case by (cases "nxt = g") auto
qed

lemma igmp_remove_scan_head:
  "g \<notin> set (tl gs) \<Longrightarrow> igmp_remove_scan g gs = None"
proof (induction g gs rule: igmp_remove_scan.induct)
  case (1 g)
  then show ?case by simp
next
  case (2 g tmp)
  then show ?case by simp
next
  case (3 g tmp nxt rest)
  then show ?case by auto
qed

lemma igmp_lookfor_group_Some:
  "igmp_lookfor_group st addr = Some g \<Longrightarrow>
   g \<in> set (igmp_groups st) \<and> group_address (grp_mem st g) = addr"
  by (auto simp: igmp_lookfor_group_def ip4_addr_cmp_def find_Some_iff)

lemma igmp_send_leave_log:
  "igmp_log (igmp_send env st g IGMP_LEAVE_GROUP) =
     igmp_log st @
     (if pbuf_alloc_seq env (pbuf_allocs st)
      then [IgmpOutput (netif_ip4_addr env) allrouters
              (igmp_packet env IGMP_LEAVE_GROUP (group_address (grp_mem st g))),
            PbufFree (igmp_packet env IGMP_LEAVE_GROUP (group_address (grp_mem st g)))]
      else [])"
  by (simp add: igmp_send_def Let_def IGMP_LEAVE_GROUP_def IGMP_V2_MEMB_REPORT_def)

lemma igmp_send_leave_frame:
  "igmp_groups (igmp_send env st g IGMP_LEAVE_GROUP) = igmp_groups st \<and>
   grp_mem (igmp_send env st g IGMP_LEAVE_GROUP) = grp_mem st \<and>
   grp_allocated (igmp_send env st g IGMP_LEAVE_GROUP) = grp_allocated st"
  by (simp add: igmp_send_def Let_def IGMP_LEAVE_GROUP_def IGMP_V2_MEMB_REPORT_def
      log_event_def)

lemma log_event_frame:
  "igmp_groups (log_event e st) = igmp_groups st \<and> grp_mem (log_event e st) = grp_mem st \<and>
   grp_allocated (log_event e st) = grp_allocated st"
  by (simp add: log_event_def)

text \<open>
  C4 (amended): for an entry of the group list other than its first one, a leave at use
  count at most 1 unlinks the entry, sends one Leave to 224.0.0.2 if and only if the
  entry's last-reporter flag is set and a packet buffer could be allocated, calls the MAC
  filter hook with DEL if the interface has one, and deletes the entry; nothing else is
  sent. A leave at a use count above 1 only decrements the use count.
\<close>

theorem igmp_leave_last_reference:
  assumes found: "igmp_lookfor_group st groupaddr = Some g"
    and nothead: "g \<noteq> hd (igmp_groups st)"
  shows "(use (grp_mem st g) \<le> 1 \<longrightarrow>
            fst (igmp_leavegroup_netif env st groupaddr) = ERR_OK \<and>
            igmp_groups (snd (igmp_leavegroup_netif env st groupaddr)) =
              remove1 g (igmp_groups st) \<and>
            grp_allocated (snd (igmp_leavegroup_netif env st groupaddr)) =
              grp_allocated st - {g} \<and>
            grp_mem (snd (igmp_leavegroup_netif env st groupaddr)) = grp_mem st \<and>
            igmp_log (snd (igmp_leavegroup_netif env st groupaddr)) =
              igmp_log st @
              (if last_reporter_flag (grp_mem st g) \<noteq> 0 \<and> pbuf_alloc_seq env (pbuf_allocs st)
               then [IgmpOutput (netif_ip4_addr env) allrouters
                       (igmp_packet env IGMP_LEAVE_GROUP groupaddr),
                     PbufFree (igmp_packet env IGMP_LEAVE_GROUP groupaddr)]
               else []) @
              (if igmp_mac_filter env then [MacFilter groupaddr NETIF_DEL_MAC_FILTER] else [])) \<and>
         (1 < use (grp_mem st g) \<longrightarrow>
            igmp_leavegroup_netif env st groupaddr =
              (ERR_OK, upd_group g (\<lambda>x. x\<lparr>use := use x - 1\<rparr>) st))"
proof -
  from igmp_lookfor_group_Some[OF found]
  have mem: "g \<in> set (igmp_groups st)" and addr: "group_address (grp_mem st g) = groupaddr"
    by auto
  have rm: "igmp_remove_group st g = (ERR_OK, st\<lparr>igmp_groups := remove1 g (igmp_groups st)\<rparr>)"
    by (simp add: igmp_remove_group_def igmp_remove_scan_found[OF nothead mem])
  let ?st1 = "st\<lparr>igmp_groups := remove1 g (igmp_groups st)\<rparr>"
  have more: "1 < use (grp_mem st g) \<longrightarrow>
            igmp_leavegroup_netif env st groupaddr =
              (ERR_OK, upd_group g (\<lambda>x. x\<lparr>use := use x - 1\<rparr>) st)"
    by (auto simp: igmp_leavegroup_netif_def found)
  have last: "use (grp_mem st g) \<le> 1 \<longrightarrow>
            fst (igmp_leavegroup_netif env st groupaddr) = ERR_OK \<and>
            igmp_groups (snd (igmp_leavegroup_netif env st groupaddr)) =
              remove1 g (igmp_groups st) \<and>
            grp_allocated (snd (igmp_leavegroup_netif env st groupaddr)) =
              grp_allocated st - {g} \<and>
            grp_mem (snd (igmp_leavegroup_netif env st groupaddr)) = grp_mem st \<and>
            igmp_log (snd (igmp_leavegroup_netif env st groupaddr)) =
              igmp_log st @
              (if last_reporter_flag (grp_mem st g) \<noteq> 0 \<and> pbuf_alloc_seq env (pbuf_allocs st)
               then [IgmpOutput (netif_ip4_addr env) allrouters
                       (igmp_packet env IGMP_LEAVE_GROUP groupaddr),
                     PbufFree (igmp_packet env IGMP_LEAVE_GROUP groupaddr)]
               else []) @
              (if igmp_mac_filter env then [MacFilter groupaddr NETIF_DEL_MAC_FILTER] else [])"
    using addr
    by (simp add: igmp_leavegroup_netif_def found rm Let_def igmp_send_leave_log
        igmp_send_leave_frame log_event_frame)
  from last more show ?thesis by blast
qed

lemma ist_joined_twice_eval:
  "igmp_groups ist_joined_twice = [1, 2] \<and> use (grp_mem ist_joined_twice 2) = 2 \<and>
   group_address (grp_mem ist_joined_twice 2) = 0xef010203 \<and>
   group_address (grp_mem ist_joined_twice 1) = 0xe0000001 \<and>
   igmp_log ist_joined_twice = igmp_log ist_joined"
  using ist_joined_eval
  by (simp add: ist_joined_twice_def igmp_joingroup_netif_def igmp_lookup_group_def
      igmp_lookfor_group_def ip4_addr_cmp_def upd_group_def Let_def)

theorem igmp_leave_last_reference_witness:
  "igmp_lookfor_group ist_joined 0xef010203 = Some 2 \<and> 2 \<noteq> hd (igmp_groups ist_joined) \<and>
   use (grp_mem ist_joined 2) \<le> 1 \<and> last_reporter_flag (grp_mem ist_joined 2) \<noteq> 0 \<and>
   igmp_groups (snd (igmp_leavegroup_netif ienv ist_joined 0xef010203)) = [1] \<and>
   2 \<notin> grp_allocated (snd (igmp_leavegroup_netif ienv ist_joined 0xef010203)) \<and>
   igmp_log (snd (igmp_leavegroup_netif ienv ist_joined 0xef010203)) =
     igmp_log ist_joined @
     [IgmpOutput 0xc0000203 0xe0000002 (igmp_packet ienv IGMP_LEAVE_GROUP 0xef010203),
      PbufFree (igmp_packet ienv IGMP_LEAVE_GROUP 0xef010203),
      MacFilter 0xef010203 NETIF_DEL_MAC_FILTER] \<and>
   1 < use (grp_mem ist_joined_twice 2) \<and>
   igmp_groups (snd (igmp_leavegroup_netif ienv ist_joined_twice 0xef010203)) = [1, 2] \<and>
   use (grp_mem (snd (igmp_leavegroup_netif ienv ist_joined_twice 0xef010203)) 2) = 1 \<and>
   igmp_log (snd (igmp_leavegroup_netif ienv ist_joined_twice 0xef010203)) =
     igmp_log ist_joined_twice"
proof -
  have f: "igmp_lookfor_group ist_joined 0xef010203 = Some 2"
    using ist_joined_eval by (simp add: igmp_lookfor_group_def ip4_addr_cmp_def)
  have h: "2 \<noteq> hd (igmp_groups ist_joined)" using ist_joined_eval by simp
  have env: "pbuf_alloc_seq ienv (pbuf_allocs ist_joined)" "igmp_mac_filter ienv"
    "netif_ip4_addr ienv = 0xc0000203"
    by (simp_all add: ienv_def)
  have f2: "igmp_lookfor_group ist_joined_twice 0xef010203 = Some 2"
    using ist_joined_twice_eval by (simp add: igmp_lookfor_group_def ip4_addr_cmp_def)
  have h2: "2 \<noteq> hd (igmp_groups ist_joined_twice)" using ist_joined_twice_eval by simp
  have u2: "1 < use (grp_mem ist_joined_twice 2)" using ist_joined_twice_eval by simp
  from igmp_leave_last_reference[OF f2 h2, of ienv] u2 ist_joined_twice_eval
  have b: "igmp_groups (snd (igmp_leavegroup_netif ienv ist_joined_twice 0xef010203)) = [1, 2] \<and>
   use (grp_mem (snd (igmp_leavegroup_netif ienv ist_joined_twice 0xef010203)) 2) = 1 \<and>
   igmp_log (snd (igmp_leavegroup_netif ienv ist_joined_twice 0xef010203)) =
     igmp_log ist_joined_twice"
    by (simp add: upd_group_def)
  from igmp_leave_last_reference[OF f h, of ienv] ist_joined_eval env f h b u2
  show ?thesis by (simp add: allrouters_def)
qed

text \<open>
  The last leave of a group whose last-reporter flag is set, at a moment when
  \<^verbatim>\<open>pbuf_alloc\<close> fails: the MAC filter hook is called, no Leave is sent.
\<close>

theorem igmp_leave_no_buffer_counterexample:
  "igmp_lookfor_group ist_joined 0xef010203 = Some 2 \<and>
   use (grp_mem ist_joined 2) = 1 \<and> last_reporter_flag (grp_mem ist_joined 2) = 1 \<and>
   fst (igmp_leavegroup_netif ienv_nomem ist_joined 0xef010203) = ERR_OK \<and>
   igmp_log (snd (igmp_leavegroup_netif ienv_nomem ist_joined 0xef010203)) =
     igmp_log ist_joined @ [MacFilter 0xef010203 NETIF_DEL_MAC_FILTER]"
proof -
  have f: "igmp_lookfor_group ist_joined 0xef010203 = Some 2"
    using ist_joined_eval by (simp add: igmp_lookfor_group_def ip4_addr_cmp_def)
  have r: "igmp_remove_scan 2 [1, 2] = Some [1]" by simp
  show ?thesis
    using ist_joined_eval f r
    by (simp add: igmp_leavegroup_netif_def igmp_remove_group_def igmp_send_def Let_def
        log_event_def ienv_nomem_def ienv_def)
qed

section \<open>The first entry of the group list\<close>

text \<open>
  C7: after \<^verbatim>\<open>igmp_start\<close> the first entry is the all-systems group with use count 1.
  A leave of 224.0.0.1 finds it at its last reference; \<^verbatim>\<open>igmp_remove_group\<close> does not
  unlink it (\<^verbatim>\<open>ERR_ARG\<close>, ignored), and the entry is deleted all the same: the first
  entry of the list is then freed memory, and the invariant is lost.
\<close>

theorem igmp_leave_allsystems_frees_first_entry:
  "igmp_groups ist_started = [1] \<and> 1 \<in> grp_allocated ist_started \<and>
   group_address (grp_mem ist_started 1) = allsystems \<and> use (grp_mem ist_started 1) = 1 \<and>
   igmp_first_entry_inv ist_started \<and>
   fst (igmp_remove_group ist_started 1) = ERR_ARG \<and>
   fst (igmp_leavegroup_netif ienv ist_started allsystems) = ERR_OK \<and>
   igmp_groups (snd (igmp_leavegroup_netif ienv ist_started allsystems)) = [1] \<and>
   1 \<notin> grp_allocated (snd (igmp_leavegroup_netif ienv ist_started allsystems)) \<and>
   \<not> igmp_first_entry_inv (snd (igmp_leavegroup_netif ienv ist_started allsystems))"
proof -
  have f: "igmp_lookfor_group ist_started allsystems = Some 1"
    using ist_started_eval by (simp add: igmp_lookfor_group_def ip4_addr_cmp_def allsystems_def)
  have r: "igmp_remove_scan 1 [1] = None" by simp
  show ?thesis
    using ist_started_eval f r
    by (simp add: igmp_leavegroup_netif_def igmp_remove_group_def igmp_send_def Let_def
        log_event_def ienv_def allsystems_def igmp_first_entry_inv_def)
qed

section \<open>Operations that keep the first entry\<close>

lemma same_membership_refl: "same_membership st st"
  by (simp add: same_membership_def)

lemma same_membership_trans:
  "same_membership a b \<Longrightarrow> same_membership b c \<Longrightarrow> same_membership a c"
  by (simp add: same_membership_def)

lemma same_membership_inv:
  "same_membership st st' \<Longrightarrow> igmp_first_entry_inv st \<Longrightarrow> igmp_first_entry_inv st'"
  by (auto simp: same_membership_def igmp_first_entry_inv_def split: list.splits)

lemma same_membership_start_timer: "same_membership st (igmp_start_timer env st g m)"
  by (simp add: same_membership_def igmp_start_timer_def upd_group_def Let_def
      split: prod.splits)

lemma same_membership_send: "same_membership st (igmp_send env st g ty)"
  by (simp add: same_membership_def igmp_send_def upd_group_def log_event_def Let_def)

lemma same_membership_delaying_member: "same_membership st (igmp_delaying_member env st g m)"
proof -
  have "same_membership (igmp_start_timer env st g m)
          (upd_group g (\<lambda>x. x\<lparr>group_state := IGMP_GROUP_DELAYING_MEMBER\<rparr>)
             (igmp_start_timer env st g m))"
    by (simp add: same_membership_def upd_group_def)
  with same_membership_start_timer[of st env g m] show ?thesis
    by (auto simp: igmp_delaying_member_def same_membership_refl
        intro: same_membership_trans)
qed

lemma same_membership_delaying_members:
  "same_membership st (igmp_delaying_members env st m gs)"
proof (induction gs arbitrary: st)
  case Nil
  show ?case by (simp add: same_membership_refl)
next
  case (Cons g gs)
  show ?case
    using same_membership_delaying_member[of st env g m]
      Cons.IH[of "igmp_delaying_member env st g m"]
    by (auto intro: same_membership_trans)
qed

lemma same_membership_timeout: "same_membership st (igmp_timeout env st g)"
proof -
  let ?s = "upd_group g (\<lambda>x. x\<lparr>group_state := IGMP_GROUP_IDLE_MEMBER\<rparr>) st"
  have "same_membership st ?s" by (simp add: same_membership_def upd_group_def)
  with same_membership_send[of ?s env g IGMP_V2_MEMB_REPORT] show ?thesis
    by (auto simp: igmp_timeout_def same_membership_refl intro: same_membership_trans)
qed

lemma same_membership_tmr_groups: "same_membership st (igmp_tmr_groups env st gs)"
proof (induction gs arbitrary: st)
  case Nil
  show ?case by (simp add: same_membership_refl)
next
  case (Cons g gs)
  let ?s1 = "upd_group g (\<lambda>x. x\<lparr>timer := timer x - 1\<rparr>) st"
  let ?s = "if timer (grp_mem st g) > 0 then
          (if timer (grp_mem ?s1 g) = 0 then igmp_timeout env ?s1 g else ?s1)
        else st"
  have a: "same_membership st ?s1" by (simp add: same_membership_def upd_group_def)
  have "same_membership st ?s"
    using a same_membership_timeout[of ?s1 env g]
    by (auto simp: same_membership_refl intro: same_membership_trans)
  with Cons.IH[of ?s] show ?case
    by (auto simp: Let_def intro: same_membership_trans)
qed

lemma same_membership_input: "same_membership st (igmp_input env st p dest)"
proof -
  have l: "\<And>s. same_membership s (log_event (PbufFree p) s)"
    by (simp add: same_membership_def log_event_def)
  have u: "\<And>g. same_membership st (upd_group g
       (\<lambda>x. x\<lparr>timer := 0, group_state := IGMP_GROUP_IDLE_MEMBER, last_reporter_flag := 0\<rparr>) st)"
    by (simp add: same_membership_def upd_group_def)
  show ?thesis
    unfolding igmp_input_def Let_def
    by (auto split: option.splits
        intro!: same_membership_trans[OF _ l] same_membership_refl
          same_membership_delaying_members same_membership_delaying_member u)
qed

text \<open>
  Input and timer keep the first entry; so does a leave unless it is the leave of
  224.0.0.1 at use count 1; start and join keep it as long as the 8-bit use count of the
  first entry does not wrap and \<^verbatim>\<open>new\<close> returns a pointer that is not in the list.
\<close>

lemma igmp_input_keeps_first_entry:
  "igmp_first_entry_inv st \<Longrightarrow> igmp_first_entry_inv (igmp_input env st p dest)"
  using same_membership_input same_membership_inv by blast

lemma igmp_tmr_keeps_first_entry:
  "igmp_first_entry_inv st \<Longrightarrow> igmp_first_entry_inv (igmp_tmr env st)"
  unfolding igmp_tmr_def using same_membership_tmr_groups same_membership_inv by blast

lemma lookfor_allsystems_first:
  assumes "igmp_first_entry_inv st"
  shows "igmp_lookfor_group st allsystems = Some (hd (igmp_groups st))"
  using assms
  by (auto simp: igmp_first_entry_inv_def igmp_lookfor_group_def ip4_addr_cmp_def
      split: list.splits)

lemma lookfor_other_not_first:
  assumes "igmp_first_entry_inv st" "addr \<noteq> allsystems" "igmp_lookfor_group st addr = Some g"
  shows "g \<noteq> hd (igmp_groups st) \<and> g \<in> set (tl (igmp_groups st))"
  using assms
  by (auto simp: igmp_first_entry_inv_def igmp_lookfor_group_def ip4_addr_cmp_def
      find_Some_iff nth_Cons split: list.splits nat.splits)

lemma use_incr_ge1:
  fixes u :: u8
  assumes "1 \<le> u" "u \<noteq> 255"
  shows "1 \<le> u + 1"
proof -
  have "unat u < 256" using unsigned_less[of u, where ?'a=nat] by simp
  moreover from assms(2) have "unat u \<noteq> 255" by (simp add: word_unat_eq_iff)
  moreover have "unat (u + 1) = (unat u + 1) mod 256" by (simp add: unat_word_ariths)
  ultimately have "unat (u + 1) = unat u + 1" by simp
  then show ?thesis by (simp add: word_le_nat_alt)
qed

lemma use_decr_ge1:
  fixes u :: u8
  assumes "\<not> u \<le> 1"
  shows "1 \<le> u - 1"
proof -
  from assms have "2 \<le> unat u" by (simp add: word_le_nat_alt)
  then have "unat (u - 1) = unat u - 1" by (simp add: unat_sub word_le_nat_alt)
  with \<open>2 \<le> unat u\<close> show ?thesis by (simp add: word_le_nat_alt)
qed

lemma igmp_start_keeps_first_entry:
  assumes inv: "igmp_first_entry_inv st"
    and nowrap: "use (grp_mem st (hd (igmp_groups st))) \<noteq> 255"
  shows "igmp_first_entry_inv (snd (igmp_start env st))"
proof -
  let ?h = "hd (igmp_groups st)"
  have lk: "igmp_lookup_group env st allsystems = (Some ?h, st)"
    by (simp add: igmp_lookup_group_def lookfor_allsystems_first[OF inv])
  from inv nowrap use_incr_ge1 show ?thesis
    by (auto simp: igmp_start_def lk Let_def igmp_first_entry_inv_def upd_group_def
        log_event_def split: list.splits)
qed

lemma igmp_leave_unlink_frame:
  assumes "g \<noteq> hd (igmp_groups st)" "g \<in> set (igmp_groups st)" "use (grp_mem st g) \<le> 1"
    and "igmp_lookfor_group st groupaddr = Some g"
  shows "igmp_groups (snd (igmp_leavegroup_netif env st groupaddr)) = remove1 g (igmp_groups st) \<and>
         grp_allocated (snd (igmp_leavegroup_netif env st groupaddr)) = grp_allocated st - {g} \<and>
         grp_mem (snd (igmp_leavegroup_netif env st groupaddr)) = grp_mem st"
  using assms
  by (simp add: igmp_leavegroup_netif_def igmp_remove_group_def igmp_remove_scan_found
      Let_def igmp_send_leave_frame log_event_frame)

lemma igmp_leave_keeps_first_entry:
  assumes inv: "igmp_first_entry_inv st"
    and notlast: "\<not> (groupaddr = allsystems \<and> use (grp_mem st (hd (igmp_groups st))) \<le> 1)"
  shows "igmp_first_entry_inv (snd (igmp_leavegroup_netif env st groupaddr))"
proof (cases "igmp_lookfor_group st groupaddr")
  case None
  with inv show ?thesis by (simp add: igmp_leavegroup_netif_def)
next
  case (Some g)
  show ?thesis
  proof (cases "groupaddr = allsystems")
    case True
    with Some lookfor_allsystems_first[OF inv] have g: "g = hd (igmp_groups st)" by simp
    with True notlast have big: "\<not> use (grp_mem st g) \<le> 1" by simp
    from inv g use_decr_ge1[OF big] big show ?thesis
      by (auto simp: igmp_leavegroup_netif_def Some igmp_first_entry_inv_def upd_group_def
          split: list.splits)
  next
    case False
    from lookfor_other_not_first[OF inv False Some]
    have nh: "g \<noteq> hd (igmp_groups st)" and gt: "g \<in> set (tl (igmp_groups st))" by auto
    from igmp_lookfor_group_Some[OF Some] have mem: "g \<in> set (igmp_groups st)" by simp
    show ?thesis
    proof (cases "use (grp_mem st g) \<le> 1")
      case True
      from igmp_leave_unlink_frame[OF nh mem True Some, of env]
      have l: "igmp_groups (snd (igmp_leavegroup_netif env st groupaddr)) =
                 remove1 g (igmp_groups st)"
        and a: "grp_allocated (snd (igmp_leavegroup_netif env st groupaddr)) =
                 grp_allocated st - {g}"
        and m: "grp_mem (snd (igmp_leavegroup_netif env st groupaddr)) = grp_mem st"
        by auto
      from inv nh show ?thesis
        by (auto simp: igmp_first_entry_inv_def l a m split: list.splits
            dest: notin_set_remove1)
    next
      case False
      with inv nh show ?thesis
        by (auto simp: igmp_leavegroup_netif_def Some igmp_first_entry_inv_def upd_group_def
            split: list.splits)
    qed
  qed
qed


lemma igmp_join_keeps_first_entry:
  assumes inv: "igmp_first_entry_inv st"
    and fresh: "\<forall>g. new_group_seq env (group_news st) = Some g \<longrightarrow> g \<notin> set (igmp_groups st)"
    and nowrap: "groupaddr = allsystems \<longrightarrow> use (grp_mem st (hd (igmp_groups st))) \<noteq> 255"
  shows "igmp_first_entry_inv (snd (igmp_joingroup_netif env st groupaddr))"
proof -
  obtain r st1 where lk: "igmp_lookup_group env st groupaddr = (r, st1)"
    by (cases "igmp_lookup_group env st groupaddr") auto
  obtain h rest where gs: "igmp_groups st = h # rest"
    using inv by (auto simp: igmp_first_entry_inv_def split: list.splits)
  have inv1: "igmp_first_entry_inv st1"
    using lk inv fresh gs
    by (auto simp: igmp_lookup_group_def igmp_first_entry_inv_def Let_def lwip_assert_def
        log_event_def split: option.splits if_splits)
  have hd1: "hd (igmp_groups st1) = h"
    using lk gs
    by (auto simp: igmp_lookup_group_def Let_def lwip_assert_def log_event_def
        split: option.splits if_splits)
  show ?thesis
  proof (cases r)
    case None
    with lk inv1 show ?thesis by (simp add: igmp_joingroup_netif_def)
  next
    case (Some g)
    let ?sta = "if use (grp_mem st1 g) = 0 \<and> igmp_mac_filter env
                then log_event (MacFilter groupaddr NETIF_ADD_MAC_FILTER) st1 else st1"
    let ?stb = "igmp_send env ?sta g IGMP_V2_MEMB_REPORT"
    let ?stc = "igmp_start_timer env ?stb g (IGMP_JOIN_DELAYING_MEMBER_TMR env)"
    let ?std = "upd_group g (\<lambda>x. x\<lparr>group_state := IGMP_GROUP_DELAYING_MEMBER\<rparr>) ?stc"
    let ?st2 = "if group_state (grp_mem st1 g) \<noteq> IGMP_GROUP_NON_MEMBER then st1 else ?std"
    have a: "same_membership st1 ?sta" by (simp add: same_membership_def log_event_def)
    have b: "same_membership ?sta ?stb" by (rule same_membership_send)
    have c: "same_membership ?stb ?stc" by (rule same_membership_start_timer)
    have d: "same_membership ?stc ?std" by (simp add: same_membership_def upd_group_def)
    have "same_membership st1 ?std"
      by (rule same_membership_trans[OF a same_membership_trans[OF b
            same_membership_trans[OF c d]]])
    then have sm: "same_membership st1 ?st2"
      by (simp add: same_membership_refl)
    then have inv2: "igmp_first_entry_inv ?st2" using inv1 by (rule same_membership_inv)
    have hd2: "hd (igmp_groups ?st2) = h" "use (grp_mem ?st2 h) = use (grp_mem st1 h)"
      using sm hd1 by (auto simp: same_membership_def)
    have res: "snd (igmp_joingroup_netif env st groupaddr) =
                 upd_group g (\<lambda>x. x\<lparr>use := use x + 1\<rparr>) ?st2"
      by (simp add: igmp_joingroup_netif_def lk Some Let_def)
    show ?thesis
    proof (cases "g = h")
      case False
      with inv2 hd2 show ?thesis unfolding res
        by (cases "igmp_groups ?st2")
          (auto simp: igmp_first_entry_inv_def upd_group_def)
    next
      case True
      have found: "igmp_lookfor_group st groupaddr = Some h"
      proof (cases "igmp_lookfor_group st groupaddr")
        case (Some g')
        with lk \<open>r = Some g\<close> True show ?thesis by (simp add: igmp_lookup_group_def)
      next
        case None
        with lk \<open>r = Some g\<close> True fresh gs show ?thesis
          by (auto simp: igmp_lookup_group_def Let_def split: option.splits)
      qed
      then have st1: "st1 = st" using lk by (simp add: igmp_lookup_group_def)
      from igmp_lookfor_group_Some[OF found] inv gs
      have "groupaddr = allsystems" by (simp add: igmp_first_entry_inv_def)
      with nowrap gs have nw: "use (grp_mem st h) \<noteq> 255" by simp
      from inv gs have "1 \<le> use (grp_mem st h)" by (simp add: igmp_first_entry_inv_def)
      then have "1 \<le> use (grp_mem st h) + 1" using nw by (rule use_incr_ge1)
      with inv2 hd2 True st1 show ?thesis unfolding res
        by (cases "igmp_groups ?st2")
          (auto simp: igmp_first_entry_inv_def upd_group_def)
    qed
  qed
qed

lemma igmp_start_establishes_first_entry:
  assumes "igmp_groups st = []" "new_group_seq env (group_news st) = Some g"
  shows "igmp_first_entry_inv (snd (igmp_start env st))"
  using assms
  by (simp add: igmp_start_def igmp_lookup_group_def igmp_lookfor_group_def Let_def
      lwip_assert_def ip4_addr_cmp_def igmp_first_entry_inv_def upd_group_def log_event_def)

section \<open>MS-CHAPv2 challenge hash\<close>

text \<open>
  C6: for the username DOMAIN\user the code hashes the two challenges followed by the
  whole string "DOMAIN\user", not by "user", and keeps 19 bytes of the digest, not 8. With
  a stand-in digest that returns the last 20 bytes of its input, the code's result ends
  with the bytes of "DOMAIN\use" and the claim's result is 8 bytes of the challenges.
\<close>

theorem challenge_hash_keeps_domain:
  "username_without_domain domain_user = ''user'' \<and>
   challenge_hash sha1 chal16 chal16 domain_user =
     (True, take 19 (take 20 (sha1 (chal16 @ chal16 @ map of_char domain_user)))) \<and>
   challenge_hash_spec sha1 chal16 chal16 domain_user =
     take 8 (sha1 (chal16 @ chal16 @ map of_char ''user'')) \<and>
   snd (challenge_hash last20 chal16 chal16 domain_user) =
     [8, 9, 10, 11, 12, 13, 14, 15, 16] @ map of_char (''DOMAIN'' @ [CHR 0x5C] @ ''use'') \<and>
   challenge_hash_spec last20 chal16 chal16 domain_user = [1, 2, 3, 4, 5, 6, 7, 8]"
  by (simp add: challenge_hash_def challenge_hash_spec_def username_without_domain_def
      domain_user_def c_str_def SHA1_SIGNATURE_SIZE_def Let_def chal16_def last20_def)

end
